(* ===== verification/Py_Prelude.thy ===== *)
theory Py_Prelude
  imports Complex_Main "HOL-Library.AList" "HOL-Library.Sublist"
begin

text \<open>
  What every component of the model shares: Python values and the parts of Python's
  standard library that the source uses, as total HOL functions.

  A Python \<open>str\<close> is its list of code points (\<open>pystr\<close>, a \<open>nat list\<close>), so lengths, slices and
  the non-ASCII literals of the source mean what they mean in Python; \<open>lit ''abc''\<close> is an ASCII
  literal. A \<open>dict\<close> with identifier keys is an association list in insertion order (\<open>dict\<close>),
  updated as Python updates it. \<open>str.strip\<close>, \<open>str.splitlines\<close>, \<open>str.replace\<close> of one character,
  \<open>str.join\<close>, \<open>str.partition\<close>, \<open>str.split\<close>, \<open>str(int)\<close> and \<open>int(str)\<close> are written out. The
  collection \<open>py_simps\<close> holds the equations that evaluate them.
\<close>

named_theorems py_simps "equations that evaluate the Python string and dict operations"

section \<open>Strings\<close>

type_synonym pystr = "nat list"

definition lit :: "string \<Rightarrow> pystr" where
  "lit s = map of_char s"

lemma lit_Nil [simp]: "lit [] = []"
  by (simp add: lit_def)

lemma lit_Cons [py_simps]: "lit (c # cs) = of_char c # lit cs"
  by (simp add: lit_def)

lemma lit_append: "lit (s @ t) = lit s @ lit t"
  by (simp add: lit_def)

lemma lit_inject [simp]: "lit s = lit t \<longleftrightarrow> s = t"
proof -
  have "inj (of_char :: char \<Rightarrow> nat)"
    by (rule injI) simp
  then show ?thesis
    unfolding lit_def by (simp add: inj_map_eq_map)
qed

lemma lit_eq_Nil [simp]: "lit s = [] \<longleftrightarrow> s = []" "[] = lit s \<longleftrightarrow> s = []"
  by (simp_all add: lit_def)

text \<open>White space as \<open>str.isspace\<close>, \<open>str.strip\<close> and the pattern \<open>\s\<close> of \<open>re\<close> see it.\<close>

definition is_ws :: "nat \<Rightarrow> bool" where
  "is_ws c \<longleftrightarrow> (9 \<le> c \<and> c \<le> 13) \<or> (28 \<le> c \<and> c \<le> 32) \<or> c = 133 \<or> c = 160 \<or> c = 5760 \<or>
     (8192 \<le> c \<and> c \<le> 8202) \<or> c = 8232 \<or> c = 8233 \<or> c = 8239 \<or> c = 8287 \<or> c = 12288"

definition lstrip :: "pystr \<Rightarrow> pystr" where
  "lstrip s = dropWhile is_ws s"

definition rstrip :: "pystr \<Rightarrow> pystr" where
  "rstrip s = rev (dropWhile is_ws (rev s))"

definition strip :: "pystr \<Rightarrow> pystr" where
  "strip s = rstrip (lstrip s)"

definition blank :: "pystr \<Rightarrow> bool" where
  \<comment> \<open>\<open>not s.strip()\<close>\<close>
  "blank s \<longleftrightarrow> list_all is_ws s"

lemma lstrip_Nil [simp]: "lstrip [] = []"
  by (simp add: lstrip_def)

lemma rstrip_Nil [simp]: "rstrip [] = []"
  by (simp add: rstrip_def)

lemma strip_Nil [simp]: "strip [] = []"
  by (simp add: strip_def)

lemma lstrip_suffix: "suffix (lstrip s) s"
  by (simp add: lstrip_def suffix_dropWhile)

lemma rstrip_prefix: "prefix (rstrip s) s"
  by (metis rstrip_def suffix_dropWhile suffix_to_prefix rev_rev_ident)

lemma strip_sublist: "sublist (strip s) s"
  unfolding strip_def
  by (meson lstrip_suffix rstrip_prefix prefix_imp_sublist suffix_imp_sublist
      sublist_order.order_trans)

lemma hd_lstrip: "lstrip s \<noteq> [] \<Longrightarrow> \<not> is_ws (hd (lstrip s))"
  unfolding lstrip_def by (rule hd_dropWhile)

lemma last_rstrip: "rstrip s \<noteq> [] \<Longrightarrow> \<not> is_ws (last (rstrip s))"
  unfolding rstrip_def using hd_dropWhile [of is_ws "rev s"]
  by (simp add: last_rev)

lemma lstrip_idem [simp]: "lstrip (lstrip s) = lstrip s"
  by (simp add: lstrip_def)

lemma rstrip_idem [simp]: "rstrip (rstrip s) = rstrip s"
  by (simp add: rstrip_def)

lemma lstrip_eq_self: "s = [] \<or> \<not> is_ws (hd s) \<Longrightarrow> lstrip s = s"
  by (cases s) (auto simp: lstrip_def)

lemma rstrip_eq_self: "s = [] \<or> \<not> is_ws (last s) \<Longrightarrow> rstrip s = s"
  unfolding rstrip_def by (cases s rule: rev_cases) auto

lemma strip_ends:
  assumes "strip s \<noteq> []"
  shows "\<not> is_ws (hd (strip s))" and "\<not> is_ws (last (strip s))"
proof -
  have ne: "rstrip (lstrip s) \<noteq> []" using assms by (simp add: strip_def)
  then show "\<not> is_ws (last (strip s))"
    by (simp add: strip_def last_rstrip)
  have p: "prefix (rstrip (lstrip s)) (lstrip s)" by (rule rstrip_prefix)
  with ne have "hd (rstrip (lstrip s)) = hd (lstrip s)"
    by (metis hd_append2 prefixE)
  moreover have "lstrip s \<noteq> []" using p ne by auto
  ultimately show "\<not> is_ws (hd (strip s))"
    using hd_lstrip by (simp add: strip_def)
qed

lemma strip_idem [simp]: "strip (strip s) = strip s"
proof (cases "strip s = []")
  case True
  then show ?thesis by simp
next
  case False
  then have "lstrip (strip s) = strip s" by (intro lstrip_eq_self disjI2 strip_ends)
  moreover have "rstrip (strip s) = strip s" by (simp add: strip_def)
  ultimately show ?thesis by (simp add: strip_def)
qed

lemma strip_eq_Nil: "strip s = [] \<longleftrightarrow> blank s"
proof -
  have "strip s = [] \<longleftrightarrow> lstrip s = []"
  proof
    assume "strip s = []"
    then have "list_all is_ws (lstrip s)"
      by (simp add: strip_def rstrip_def dropWhile_eq_Nil_conv list_all_iff)
    then show "lstrip s = []"
      using hd_lstrip [of s] by (auto simp: list_all_iff)
  qed (simp add: strip_def)
  then show ?thesis
    by (simp add: blank_def lstrip_def dropWhile_eq_Nil_conv list_all_iff)
qed

lemma set_strip: "set (strip s) \<subseteq> set s"
  using strip_sublist by (rule set_mono_sublist)

lemma strip_nonws: "list_all (\<lambda>c. \<not> is_ws c) s \<Longrightarrow> strip s = s"
  by (cases "s = []")
    (auto simp: strip_def lstrip_eq_self rstrip_eq_self list_all_iff)

section \<open>Lines, joining and splitting\<close>

text \<open>\<open>str.splitlines\<close>: the boundaries of the language reference, \<open>\r\n\<close> counted once.\<close>

definition is_linebreak :: "nat \<Rightarrow> bool" where
  "is_linebreak c \<longleftrightarrow> (10 \<le> c \<and> c \<le> 13) \<or> (28 \<le> c \<and> c \<le> 30) \<or> c = 133 \<or> c = 8232 \<or> c = 8233"

fun splitlines :: "pystr \<Rightarrow> pystr list" where
  "splitlines [] = []"
| "splitlines [c] = (if is_linebreak c then [[]] else [[c]])"
| "splitlines (c # d # cs) =
     (if c = 13 \<and> d = 10 then [] # splitlines cs
      else if is_linebreak c then [] # splitlines (d # cs)
      else (case splitlines (d # cs) of [] \<Rightarrow> [[c]] | l # ls \<Rightarrow> (c # l) # ls))"

fun join :: "pystr \<Rightarrow> pystr list \<Rightarrow> pystr" where
  "join sep [] = []"
| "join sep [x] = x"
| "join sep (x # y # zs) = x @ sep @ join sep (y # zs)"

lemma join_Cons: "join sep (x # xs) = (if xs = [] then x else x @ sep @ join sep xs)"
  by (cases xs) auto

text \<open>\<open>str.replace\<close> with a one-character pattern.\<close>

definition replace1 :: "nat \<Rightarrow> pystr \<Rightarrow> pystr \<Rightarrow> pystr" where
  "replace1 c r s = concat (map (\<lambda>d. if d = c then r else [d]) s)"

lemma replace1_Nil [simp]: "replace1 c r [] = []"
  by (simp add: replace1_def)

lemma replace1_Cons [simp]:
  "replace1 c r (d # s) = (if d = c then r else [d]) @ replace1 c r s"
  by (simp add: replace1_def)

lemma replace1_absent: "c \<notin> set s \<Longrightarrow> replace1 c r s = s"
  by (induction s) auto

lemma set_replace1: "set (replace1 c r s) \<subseteq> (set s - {c}) \<union> set r"
  by (induction s) auto

text \<open>\<open>s.startswith(p)\<close>, and \<open>p in s\<close> for strings.\<close>

definition startswith :: "'a list \<Rightarrow> 'a list \<Rightarrow> bool" where
  "startswith s p \<longleftrightarrow> take (length p) s = p"

lemma startswith_iff_prefix: "startswith s p \<longleftrightarrow> prefix p s"
  unfolding startswith_def by (metis append_take_drop_id prefix_def take_is_prefix append_eq_conv_conj)

fun contains :: "pystr \<Rightarrow> pystr \<Rightarrow> bool" where
  "contains p [] = (p = [])"
| "contains p (c # cs) = (startswith (c # cs) p \<or> contains p cs)"

lemma contains_iff_sublist: "contains p s \<longleftrightarrow> sublist p s"
  by (induction s) (auto simp: startswith_iff_prefix sublist_Cons_right)

text \<open>\<open>s.split(c)\<close> and \<open>s.partition(c)\<close> for a one-character separator.\<close>

fun split_on :: "nat \<Rightarrow> pystr \<Rightarrow> pystr list" where
  "split_on c [] = [[]]"
| "split_on c (d # ds) =
     (if d = c then [] # split_on c ds
      else (case split_on c ds of [] \<Rightarrow> [[d]] | w # ws \<Rightarrow> (d # w) # ws))"

lemma split_on_nonempty [simp]: "split_on c s \<noteq> []"
  by (induction s) (auto split: list.splits)

lemma join_split_on: "join [c] (split_on c s) = s"
proof (induction s)
  case (Cons d ds)
  obtain w ws where w: "split_on c ds = w # ws"
    using split_on_nonempty by (meson neq_Nil_conv)
  with Cons show ?case
    by (auto simp: join_Cons)
qed simp

lemma split_on_no_sep: "w \<in> set (split_on c s) \<Longrightarrow> c \<notin> set w"
  by (induction s arbitrary: w) (auto split: list.splits if_splits)

definition before_sep :: "nat \<Rightarrow> pystr \<Rightarrow> pystr" where
  "before_sep c s = takeWhile (\<lambda>d. d \<noteq> c) s"

definition after_sep :: "nat \<Rightarrow> pystr \<Rightarrow> pystr" where
  "after_sep c s = tl (dropWhile (\<lambda>d. d \<noteq> c) s)"

lemma partition_no_sep: "c \<notin> set s \<Longrightarrow> before_sep c s = s \<and> after_sep c s = []"
proof -
  assume "c \<notin> set s"
  then have "dropWhile (\<lambda>d. d \<noteq> c) s = []" by (auto simp: dropWhile_eq_Nil_conv)
  moreover from \<open>c \<notin> set s\<close> have "takeWhile (\<lambda>d. d \<noteq> c) s = s"
    by (auto simp: takeWhile_eq_all_conv)
  ultimately show ?thesis
    unfolding before_sep_def after_sep_def by (metis list.sel(2))
qed

lemma partition_sep: "c \<notin> set s \<Longrightarrow> before_sep c (s @ c # t) = s \<and> after_sep c (s @ c # t) = t"
proof -
  assume "c \<notin> set s"
  then have a: "\<forall>x\<in>set s. x \<noteq> c" by auto
  then show ?thesis
    by (simp add: before_sep_def after_sep_def)
qed

text \<open>ASCII lower case: what \<open>str.lower\<close> does on ASCII text.\<close>

definition lower1 :: "nat \<Rightarrow> nat" where
  "lower1 c = (if 65 \<le> c \<and> c \<le> 90 then c + 32 else c)"

abbreviation lower :: "pystr \<Rightarrow> pystr" where
  "lower \<equiv> map lower1"

lemma lower1_idem [simp]: "lower1 (lower1 c) = lower1 c"
  by (simp add: lower1_def)

section \<open>Integers in strings\<close>

fun show_nat :: "nat \<Rightarrow> pystr" where
  "show_nat n = (if n < 10 then [48 + n] else show_nat (n div 10) @ [48 + n mod 10])"

declare show_nat.simps [simp del]

definition show_int :: "int \<Rightarrow> pystr" where
  "show_int i = (if i < 0 then 45 # show_nat (nat (- i)) else show_nat (nat i))"

definition is_digit :: "nat \<Rightarrow> bool" where
  "is_digit c \<longleftrightarrow> 48 \<le> c \<and> c \<le> 57"

definition nat_of_digits :: "pystr \<Rightarrow> nat" where
  "nat_of_digits s = foldl (\<lambda>n c. 10 * n + (c - 48)) 0 s"

text \<open>\<open>int(s)\<close> on what the program writes: an optional sign and ASCII digits, white space
  stripped; anything else is \<open>ValueError\<close> (\<open>None\<close>).\<close>

definition parse_int :: "pystr \<Rightarrow> int option" where
  "parse_int s = (let t = strip s; neg = (t \<noteq> [] \<and> hd t = 45);
      d = (if t \<noteq> [] \<and> (hd t = 45 \<or> hd t = 43) then tl t else t)
    in if d \<noteq> [] \<and> list_all is_digit d
       then Some (if neg then - int (nat_of_digits d) else int (nat_of_digits d)) else None)"

lemma nat_of_digits_snoc: "nat_of_digits (s @ [c]) = 10 * nat_of_digits s + (c - 48)"
  by (simp add: nat_of_digits_def)

lemma show_nat_digits: "list_all is_digit (show_nat n)"
proof (induction n rule: show_nat.induct)
  case (1 n)
  then show ?case
    by (cases "n < 10") (simp_all add: show_nat.simps [of n] is_digit_def)
qed

lemma show_nat_nonempty [simp]: "show_nat n \<noteq> []"
  by (subst show_nat.simps) simp

lemma nat_of_show_nat [simp]: "nat_of_digits (show_nat n) = n"
proof (induction n rule: show_nat.induct)
  case (1 n)
  then show ?case
    by (cases "n < 10")
      (simp_all add: show_nat.simps [of n] nat_of_digits_snoc, simp add: nat_of_digits_def)
qed

lemma digit_not_ws: "is_digit c \<Longrightarrow> \<not> is_ws c \<and> c \<noteq> 45 \<and> c \<noteq> 43"
  by (auto simp: is_digit_def is_ws_def)

lemma strip_show_int [simp]: "strip (show_int i) = show_int i"
  using show_nat_digits digit_not_ws
  by (intro strip_nonws) (auto simp: show_int_def list_all_iff is_ws_def [of 45])

lemma hd_show_nat: "hd (show_nat n) \<noteq> 45 \<and> hd (show_nat n) \<noteq> 43"
  using show_nat_digits [of n] show_nat_nonempty [of n] digit_not_ws
  by (metis list.pred_inject(2) list.collapse)

lemma parse_show_int [simp]: "parse_int (show_int i) = Some i"
proof -
  have st: "strip (show_int i) = show_int i" by simp
  show ?thesis
  proof (cases "i < 0")
    case True
    then have "show_int i = 45 # show_nat (nat (- i))" by (simp add: show_int_def)
    with st True show ?thesis
      by (simp add: parse_int_def Let_def show_nat_digits)
  next
    case False
    then have "show_int i = show_nat (nat i)" by (simp add: show_int_def)
    with st False show ?thesis
      by (simp add: parse_int_def Let_def hd_show_nat show_nat_digits)
  qed
qed

lemma show_int_nonempty [simp]: "show_int i \<noteq> []"
  by (simp add: show_int_def)

section \<open>Dictionaries\<close>

text \<open>
  A \<open>dict\<close> whose keys are identifiers of the source: an association list in insertion order.
  \<open>AList.update\<close> replaces a value in place and appends a new key, as Python does;
  \<open>dict_update\<close> is \<open>d.update(e)\<close>.
\<close>

type_synonym dict = "(string \<times> pystr) list"

fun dict_update :: "dict \<Rightarrow> dict \<Rightarrow> dict" where
  "dict_update d [] = d"
| "dict_update d ((k, v) # e) = dict_update (AList.update k v d) e"

definition dget :: "dict \<Rightarrow> string \<Rightarrow> pystr option" where
  "dget d k = map_of d k"

definition dget_or :: "dict \<Rightarrow> string \<Rightarrow> pystr \<Rightarrow> pystr" where
  "dget_or d k x = (case dget d k of None \<Rightarrow> x | Some v \<Rightarrow> v)"

lemma dget_Nil [simp]: "dget [] k = None"
  by (simp add: dget_def)

lemma dget_update [simp]: "dget (AList.update k v d) l = (if l = k then Some v else dget d l)"
  by (simp add: dget_def update_conv' fun_upd_def)

lemma dget_dict_update:
  "dget (dict_update d e) k = (case map_of (rev e) k of None \<Rightarrow> dget d k | Some v \<Rightarrow> Some v)"
  by (induction d e rule: dict_update.induct) (auto split: option.splits simp: map_add_def)

lemma distinct_dict_update: "distinct (map fst d) \<Longrightarrow> distinct (map fst (dict_update d e))"
  by (induction d e rule: dict_update.induct) (simp_all add: distinct_update)

lemma dget_dict_update_distinct:
  assumes "distinct (map fst e)"
  shows "dget (dict_update d e) k = (case dget e k of None \<Rightarrow> dget d k | Some v \<Rightarrow> Some v)"
proof -
  have "map_of (rev e) = map_of e"
    by (rule map_of_inject_set [THEN iffD2]) (use assms in \<open>simp_all add: rev_map [symmetric]\<close>)
  then show ?thesis by (simp add: dget_dict_update) (simp add: dget_def)
qed

lemma dict_update_notin: "k \<notin> fst ` set e \<Longrightarrow> dget (dict_update d e) k = dget d k"
  by (induction d e rule: dict_update.induct) auto

lemma dict_update_neq_Nil: "e \<noteq> [] \<Longrightarrow> dict_update d e \<noteq> []"
proof (induction d e rule: dict_update.induct)
  case (2 d k v e)
  have "AList.update k v d \<noteq> []"
    by (induction d) auto
  with 2 show ?case by (cases e) auto
qed simp

text \<open>\<open>{k: str(v) for k, v in fields.items() if v is not None}\<close>, the values already printed.\<close>

definition dict_some :: "(string \<times> pystr option) list \<Rightarrow> dict" where
  "dict_some fs = map (\<lambda>(k, v). (k, the v)) (filter (\<lambda>(k, v). v \<noteq> None) fs)"

lemma dict_some_simps [simp]:
  "dict_some [] = []"
  "dict_some ((k, None) # fs) = dict_some fs"
  "dict_some ((k, Some v) # fs) = (k, v) # dict_some fs"
  by (simp_all add: dict_some_def)

section \<open>Rounding\<close>

text \<open>\<open>round(x)\<close> rounds halves to the even neighbour; \<open>round(x, n)\<close> does so at the \<open>n\<close>-th decimal.
  The model's numbers are exact rationals.\<close>

definition py_round :: "rat \<Rightarrow> int" where
  "py_round x = (let f = floor x; d = x - of_int f
     in if d < 1/2 then f else if d > 1/2 then f + 1 else if even f then f else f + 1)"

definition py_round_n :: "rat \<Rightarrow> nat \<Rightarrow> rat" where
  "py_round_n x n = of_int (py_round (x * 10 ^ n)) / 10 ^ n"

lemma py_round_bounds: "of_int (py_round x) \<le> x + 1/2" "x - 1/2 \<le> of_int (py_round x)"
proof -
  have f: "of_int \<lfloor>x\<rfloor> \<le> x" "x < of_int \<lfloor>x\<rfloor> + 1" using floor_correct [of x] by simp_all
  have "(py_round x = \<lfloor>x\<rfloor> \<and> x - of_int \<lfloor>x\<rfloor> \<le> 1/2) \<or> (py_round x = \<lfloor>x\<rfloor> + 1 \<and> 1/2 \<le> x - of_int \<lfloor>x\<rfloor>)"
    by (simp add: py_round_def Let_def)
  with f have "of_int (py_round x) \<le> x + 1/2 \<and> x - 1/2 \<le> of_int (py_round x)"
    by (elim disjE conjE) (simp_all only: of_int_add of_int_1, linarith+)
  then show "of_int (py_round x) \<le> x + 1/2" "x - 1/2 \<le> of_int (py_round x)" by simp_all
qed

lemma py_round_of_int [simp]: "py_round (of_int i) = i"
  by (simp add: py_round_def)

lemma py_round_mono: "x \<le> y \<Longrightarrow> py_round x \<le> py_round y"
proof (rule ccontr)
  assume le: "x \<le> y" and "\<not> py_round x \<le> py_round y"
  then have gt: "py_round y < py_round x" by simp
  have f: "\<lfloor>x\<rfloor> \<le> \<lfloor>y\<rfloor>" using le by (rule floor_mono)
  have r: "\<lfloor>x\<rfloor> \<le> py_round x" "py_round x \<le> \<lfloor>x\<rfloor> + 1" "\<lfloor>y\<rfloor> \<le> py_round y" "py_round y \<le> \<lfloor>y\<rfloor> + 1"
    by (simp_all add: py_round_def Let_def)
  with gt f have "\<lfloor>x\<rfloor> = \<lfloor>y\<rfloor>" "py_round x = \<lfloor>x\<rfloor> + 1" "py_round y = \<lfloor>y\<rfloor>" by linarith+
  with le show False
    by (auto simp: py_round_def Let_def split: if_splits)
qed

lemma py_round_n_mono: "x \<le> y \<Longrightarrow> py_round_n x n \<le> py_round_n y n"
  by (simp add: py_round_n_def divide_right_mono py_round_mono mult_right_mono)

end
