(* ===== verification/Filetype.thy ===== *)
theory Filetype
  imports Py_Prelude "HOL-Library.Word"
begin

text \<open>
  \<open>common/filetype.py\<close>: the gate that compares an upload's leading bytes with the extension its
  name claims. A byte is an \<open>8 word\<close>. \<open>sniff\<close> is the code's chain of signature tests in the
  code's order; \<open>has_magic\<close> is the order-free specification it is proved equal to. The
  extension is compared after ASCII lower-casing: no code point outside ASCII has a lower case
  that occurs in one of the extensions, so \<open>str.lower\<close> gives the same verdict.
\<close>

type_synonym byte = "8 word"

datatype kind = Pdf | Png | Jpeg | Tiff | Webp | Bmp

definition HEAD_BYTES :: nat where
  "HEAD_BYTES = 32"

fun kind_name :: "kind \<Rightarrow> pystr" where
  "kind_name Pdf = lit ''pdf''"
| "kind_name Png = lit ''png''"
| "kind_name Jpeg = lit ''jpeg''"
| "kind_name Tiff = lit ''tiff''"
| "kind_name Webp = lit ''webp''"
| "kind_name Bmp = lit ''bmp''"

fun kind_extensions :: "kind \<Rightarrow> string list" where
  "kind_extensions Pdf = [''.pdf'']"
| "kind_extensions Png = [''.png'']"
| "kind_extensions Jpeg = [''.jpg'', ''.jpeg'']"
| "kind_extensions Tiff = [''.tif'', ''.tiff'']"
| "kind_extensions Webp = [''.webp'']"
| "kind_extensions Bmp = [''.bmp'']"

definition extension_kinds :: "(pystr \<times> kind) list" where
  "extension_kinds =
     concat (map (\<lambda>k. map (\<lambda>ext. (lit ext, k)) (kind_extensions k)) [Pdf, Png, Jpeg, Tiff, Webp, Bmp])"

definition sniff :: "byte list \<Rightarrow> kind option" where
  "sniff head =
     (if startswith head [0x25, 0x50, 0x44, 0x46, 0x2d] then Some Pdf
      else if startswith head [0x89, 0x50, 0x4e, 0x47, 0x0d, 0x0a, 0x1a, 0x0a] then Some Png
      else if startswith head [0xff, 0xd8, 0xff] then Some Jpeg
      else if startswith head [0x49, 0x49, 0x2a, 0x00] \<or> startswith head [0x4d, 0x4d, 0x00, 0x2a]
        then Some Tiff
      else if startswith head [0x52, 0x49, 0x46, 0x46]
           \<and> take 4 (drop 8 head) = [0x57, 0x45, 0x42, 0x50] then Some Webp
      else if startswith head [0x42, 0x4d] then Some Bmp
      else None)"

definition matches_extension :: "pystr \<Rightarrow> byte list \<Rightarrow> bool" where
  "matches_extension ext head =
     (let expected = map_of extension_kinds (lower ext)
      in expected \<noteq> None \<and> sniff head = expected)"

definition describe :: "byte list \<Rightarrow> pystr" where
  "describe head = (case sniff head of Some k \<Rightarrow> kind_name k | None \<Rightarrow> lit ''unrecognised'')"

section \<open>The specification\<close>

fun has_magic :: "kind \<Rightarrow> byte list \<Rightarrow> bool" where
  "has_magic Pdf h \<longleftrightarrow> prefix [0x25, 0x50, 0x44, 0x46, 0x2d] h"
| "has_magic Png h \<longleftrightarrow> prefix [0x89, 0x50, 0x4e, 0x47, 0x0d, 0x0a, 0x1a, 0x0a] h"
| "has_magic Jpeg h \<longleftrightarrow> prefix [0xff, 0xd8, 0xff] h"
| "has_magic Tiff h \<longleftrightarrow> prefix [0x49, 0x49, 0x2a, 0x00] h \<or> prefix [0x4d, 0x4d, 0x00, 0x2a] h"
| "has_magic Webp h \<longleftrightarrow> prefix [0x52, 0x49, 0x46, 0x46] h
     \<and> prefix [0x57, 0x45, 0x42, 0x50] (drop 8 h)"
| "has_magic Bmp h \<longleftrightarrow> prefix [0x42, 0x4d] h"

lemma take4_iff_prefix:
  "length p = 4 \<Longrightarrow> take 4 xs = p \<longleftrightarrow> prefix p xs"
  by (metis startswith_def startswith_iff_prefix)

lemma prefix_hd: "prefix (x # xs) (h # t) \<longleftrightarrow> x = h \<and> prefix xs t"
  by simp

lemma has_magic_exclusive: "has_magic k h \<Longrightarrow> has_magic l h \<Longrightarrow> k = l"
  by (cases h; cases k; cases l; auto)

lemma sniff_has_magic: "sniff h = Some k \<Longrightarrow> has_magic k h"
  by (auto simp: sniff_def startswith_iff_prefix take4_iff_prefix split: if_splits)

lemma has_magic_sniff: "has_magic k h \<Longrightarrow> \<exists>l. sniff h = Some l"
  by (cases k) (auto simp: sniff_def startswith_iff_prefix take4_iff_prefix)

text \<open>
  The signatures of the six formats exclude one another, so the order of the tests in \<open>sniff\<close>
  does not matter.
\<close>

lemma sniff_iff_magic: "sniff h = Some k \<longleftrightarrow> has_magic k h"
  using sniff_has_magic has_magic_sniff has_magic_exclusive by metis

lemma startswith_take: "length p \<le> n \<Longrightarrow> startswith (take n h) p = startswith h p"
  by (simp add: startswith_def min_absorb1)

lemma sniff_take:
  assumes "12 \<le> n"
  shows "sniff (take n h) = sniff h"
proof -
  have "take 4 (drop 8 (take n h)) = take 4 (drop 8 h)"
    using assms by (simp add: drop_take min_absorb1)
  with assms show ?thesis
    by (simp add: sniff_def startswith_take)
qed

text \<open>
  The gate sees only the stored head of an upload, its first \<open>HEAD_BYTES\<close> bytes. Whatever
  the upload and whatever the extension, its verdict on that head is its verdict on the whole
  content, so a longer file cannot be accepted or rejected differently from its head.
\<close>

theorem gate_head_suffices:
  "matches_extension ext (take HEAD_BYTES content) = matches_extension ext content"
  by (simp add: matches_extension_def sniff_take HEAD_BYTES_def)

lemma map_of_extension_kinds:
  "map_of extension_kinds e = Some k \<longleftrightarrow> e \<in> lit ` set (kind_extensions k)"
  by (cases k) (auto simp: extension_kinds_def)

text \<open>
  The gate accepts exactly the pairs of an extension the API lists for a kind (in any ASCII
  case) and content with that kind's magic number; and content of one kind is rejected under
  the extensions of every other kind.
\<close>

theorem matches_extension_iff:
  "matches_extension ext head \<longleftrightarrow>
     (\<exists>k. lower ext \<in> lit ` set (kind_extensions k) \<and> has_magic k head)"
proof -
  have "matches_extension ext head \<longleftrightarrow>
      (\<exists>k. map_of extension_kinds (lower ext) = Some k \<and> sniff head = Some k)"
    by (auto simp: matches_extension_def Let_def)
  then show ?thesis by (simp only: map_of_extension_kinds sniff_iff_magic)
qed

end
