(* ===== verification/Postprocess.thy ===== *)
theory Postprocess
  imports Py_Prelude
begin

text \<open>
  \<open>workers/postprocess.py\<close>: normalisation of the engine's text, the degeneration filter, the
  overlap-aware stitching of tiles and the merging of pages. The regular expressions of the
  source are written out as the recursive functions they denote. What needs the Unicode
  character database (\<open>unicodedata.normalize("NFKC", _)\<close>, the class \<open>\w\<close>, \<open>str.isalpha\<close>) is
  the parameter \<open>unicode\<close>; every theorem here holds whatever it is.
\<close>

record unicode =
  nfkc :: "pystr \<Rightarrow> pystr"
  word_char :: "nat \<Rightarrow> bool"
  alpha_char :: "nat \<Rightarrow> bool"

definition ascii_unicode :: unicode where
  \<comment> \<open>what the character database says of ASCII text; used to evaluate examples\<close>
  "ascii_unicode = \<lparr>nfkc = (\<lambda>s. s),
     word_char = (\<lambda>c. is_digit c \<or> (65 \<le> c \<and> c \<le> 90) \<or> (97 \<le> c \<and> c \<le> 122) \<or> c = 95),
     alpha_char = (\<lambda>c. (65 \<le> c \<and> c \<le> 90) \<or> (97 \<le> c \<and> c \<le> 122))\<rparr>"

section \<open>The patterns\<close>

text \<open>\<open>_FENCE\<close>: a Markdown code fence around the whole answer. \<open>fence_close\<close> is the tail
  \<open>\n?```\s*$\<close>, \<open>fence_body\<close> the lazy group before its first match, and \<open>after_last_nl\<close> the
  greedy \<open>\s*\n\<close>, which takes a white-space run up to its last newline.\<close>

definition fence :: pystr where
  "fence = [96, 96, 96]"

definition fence_close :: "pystr \<Rightarrow> bool" where
  "fence_close s = (let s' = (if startswith s [10] then tl s else s)
     in startswith s' fence \<and> blank (drop 3 s'))"

fun fence_body :: "pystr \<Rightarrow> pystr option" where
  "fence_body [] = (if fence_close [] then Some [] else None)"
| "fence_body (c # cs) =
     (if fence_close (c # cs) then Some [] else map_option (Cons c) (fence_body cs))"

fun after_last_nl :: "pystr \<Rightarrow> pystr option" where
  "after_last_nl [] = None"
| "after_last_nl (c # cs) =
     (if is_ws c then
        (case after_last_nl cs of Some r \<Rightarrow> Some r | None \<Rightarrow> if c = 10 then Some cs else None)
      else None)"

definition strip_lang :: "pystr \<Rightarrow> pystr" where
  "strip_lang s = (if startswith s (lit ''markdown'') then drop 8 s
     else if startswith s (lit ''md'') then drop 2 s
     else if startswith s (lit ''text'') then drop 4 s else s)"

definition match_fence :: "pystr \<Rightarrow> pystr option" where
  "match_fence s = (let t = lstrip s
     in if startswith t fence
        then Option.bind (after_last_nl (strip_lang (drop 3 t))) fence_body else None)"

text \<open>\<open>_HYPHEN_BREAK\<close>, \<open>_TRAILING_WS\<close> and \<open>_BLANK_LINES\<close>.\<close>

fun hyphen_join :: "(nat \<Rightarrow> bool) \<Rightarrow> pystr \<Rightarrow> pystr" where
  "hyphen_join w (a # h # n # b # rest) =
     (if w a \<and> h = 45 \<and> n = 10 \<and> w b then a # b # hyphen_join w rest
      else a # hyphen_join w (h # n # b # rest))"
| "hyphen_join w s = s"

fun drop_trailing_ws :: "pystr \<Rightarrow> pystr" where
  "drop_trailing_ws [] = []"
| "drop_trailing_ws (c # cs) = (let r = drop_trailing_ws cs
     in if (c = 32 \<or> c = 9) \<and> (r = [] \<or> hd r = 10) then r else c # r)"

fun squeeze_nl :: "nat \<Rightarrow> pystr \<Rightarrow> pystr" where
  \<comment> \<open>the first argument counts the newlines of the current run already written\<close>
  "squeeze_nl k [] = []"
| "squeeze_nl k (c # cs) =
     (if c = 10 then (if k < 2 then c # squeeze_nl (Suc k) cs else squeeze_nl k cs)
      else c # squeeze_nl 0 cs)"

definition ligatures :: "(nat \<times> string) list" where
  "ligatures = [(0xFB00, ''ff''), (0xFB01, ''fi''), (0xFB02, ''fl''), (0xFB03, ''ffi''), (0xFB04, ''ffl'')]"

fun replace_crlf :: "pystr \<Rightarrow> pystr" where
  "replace_crlf (c # d # cs) =
     (if c = 13 \<and> d = 10 then 10 # replace_crlf cs else c # replace_crlf (d # cs))"
| "replace_crlf s = s"

section \<open>The operations\<close>

definition normalize_text :: "unicode \<Rightarrow> pystr \<Rightarrow> pystr" where
  "normalize_text U text =
     (if text = [] then []
      else
        let text = (case match_fence text of Some body \<Rightarrow> body | None \<Rightarrow> text);
            text = nfkc U text;
            text = fold (\<lambda>(src, dst) t. replace1 src (lit dst) t) ligatures text;
            text = replace1 13 [10] (replace_crlf text);
            text = hyphen_join (word_char U) text;
            text = drop_trailing_ws text
        in strip (squeeze_nl 0 text))"

fun count_repeats :: "nat \<Rightarrow> nat \<Rightarrow> (pystr \<rightharpoonup> nat) \<Rightarrow> pystr list \<Rightarrow> nat" where
  "count_repeats window i seen [] = 0"
| "count_repeats window i seen (line # lines) =
     (case seen line of Some prev \<Rightarrow> if i - prev \<le> window then 1 else 0 | None \<Rightarrow> 0)
     + count_repeats window (Suc i) (seen(line \<mapsto> i)) lines"

definition repetition_ratio :: "pystr \<Rightarrow> nat \<Rightarrow> rat" where
  "repetition_ratio text window =
     (let lines = filter (\<lambda>ln. 3 < length ln) (map strip (splitlines text))
      in if length lines < 6 then 0
         else of_nat (count_repeats window 0 Map.empty lines) / of_nat (length lines))"

fun keep_lines :: "pystr set \<Rightarrow> pystr list \<Rightarrow> pystr list" where
  "keep_lines seen [] = []"
| "keep_lines seen (line # lines) =
     (let key = strip line
      in if key \<noteq> [] \<and> key \<in> seen \<and> 3 < length key then []
         else line # keep_lines (if key \<noteq> [] then insert key seen else seen) lines)"

definition filter_degenerate :: "pystr \<Rightarrow> rat \<Rightarrow> pystr \<times> bool" where
  "filter_degenerate text threshold =
     (if repetition_ratio text 30 < threshold then (text, False)
      else (strip (join [10] (keep_lines {} (splitlines text))), True))"

fun overlap_scan :: "pystr \<Rightarrow> pystr \<Rightarrow> nat \<Rightarrow> nat" where
  "overlap_scan a_tail b 0 = 0"
| "overlap_scan a_tail b (Suc n) =
     (if Suc n \<le> 20 then 0
      else if drop (length a_tail - Suc n) a_tail = take (Suc n) b then Suc n
      else overlap_scan a_tail b n)"

definition overlap_len :: "pystr \<Rightarrow> pystr \<Rightarrow> nat" where
  "overlap_len a b =
     (let a_tail = drop (length a - 400) a
      in overlap_scan a_tail b (min (length a_tail) (length b)))"

definition stitch_step :: "bool \<Rightarrow> pystr \<Rightarrow> pystr \<Rightarrow> pystr" where
  "stitch_step dedupe out part =
     (let overlap = (if dedupe then overlap_len out part else 0)
      in if overlap \<noteq> 0 then out @ [10, 10] @ lstrip (drop overlap part)
         else out @ [10, 10] @ part)"

definition stitch_regions :: "unicode \<Rightarrow> pystr list \<Rightarrow> bool \<Rightarrow> pystr" where
  "stitch_regions U texts dedupe =
     (case map (normalize_text U) (filter (\<lambda>t. \<not> blank t) texts) of
        [] \<Rightarrow> []
      | p # ps \<Rightarrow> strip (foldl (stitch_step dedupe) p ps))"

definition merge_step :: "unicode \<Rightarrow> pystr \<Rightarrow> pystr \<Rightarrow> pystr \<Rightarrow> pystr" where
  "merge_step U separator merged text =
     (if merged \<noteq> [] \<and> last merged = 45 \<and> text \<noteq> [] \<and> alpha_char U (hd text)
      then butlast merged @ text else merged @ separator @ text)"

definition merge_pages :: "unicode \<Rightarrow> pystr list \<Rightarrow> pystr \<Rightarrow> pystr" where
  "merge_pages U page_texts separator =
     (case map strip (filter (\<lambda>t. \<not> blank t) page_texts) of
        [] \<Rightarrow> []
      | p # ps \<Rightarrow> strip (foldl (merge_step U separator) p ps))"

definition to_markdown :: "pystr \<Rightarrow> pystr \<Rightarrow> pystr list \<Rightarrow> pystr" where
  "to_markdown job_id filename page_texts =
     (let header = lit ''# '' @ (if filename \<noteq> [] then filename else job_id) @ [10, 10];
          body = join [10, 10]
            (map (\<lambda>(i, text). lit ''<!-- page '' @ show_nat (i + 1) @ lit '' -->'' @ [10, 10] @ strip text)
               (filter (\<lambda>(i, text). \<not> blank text) (zip [0..<length page_texts] page_texts)))
      in header @ body @ [10])"

section \<open>Normalised text\<close>

lemma set_drop_trailing_ws: "set (drop_trailing_ws s) \<subseteq> set s"
  by (induction s) (auto simp: Let_def)

lemma set_squeeze_nl: "set (squeeze_nl k s) \<subseteq> set s"
  by (induction k s rule: squeeze_nl.induct) auto

lemma set_hyphen_join: "set (hyphen_join w s) \<subseteq> set s"
  by (induction w s rule: hyphen_join.induct) auto

text \<open>\<open>no_run k s\<close>: after \<open>k\<close> newlines, \<open>s\<close> never makes a run of three.\<close>

fun no_run :: "nat \<Rightarrow> pystr \<Rightarrow> bool" where
  "no_run k [] = True"
| "no_run k (c # cs) = (if c = 10 then k < 2 \<and> no_run (Suc k) cs else no_run 0 cs)"

lemma no_run_squeeze: "k \<le> 2 \<Longrightarrow> no_run k (squeeze_nl k s)"
  by (induction k s rule: squeeze_nl.induct) auto

lemma no_run_antimono: "no_run k s \<Longrightarrow> j \<le> k \<Longrightarrow> no_run j s"
  by (induction k s arbitrary: j rule: no_run.induct) (auto split: if_splits)

lemma no_run_sublist: "no_run k s \<Longrightarrow> \<not> sublist [10, 10, 10] s"
proof (induction k s rule: no_run.induct)
  case (2 k c cs)
  from "2.prems" have "no_run (if c = 10 then Suc k else 0) cs" by (simp split: if_splits)
  then have "\<not> sublist [10, 10, 10] cs" using "2.IH" by (cases "c = 10") auto
  moreover have "\<not> prefix [10, 10, 10] (c # cs)"
    using "2.prems" by (cases cs rule: list.exhaust; cases "tl cs") (auto simp: prefix_Cons)
  ultimately show ?case by (simp add: sublist_Cons_right)
qed simp

lemma sublist2_Cons:
  "sublist [a, b] (c # cs) \<longleftrightarrow> (c = a \<and> cs \<noteq> [] \<and> hd cs = b) \<or> sublist [a, b] cs"
  by (cases cs) (auto simp: sublist_Cons_right)

lemma drop_trailing_ws_clean:
  "a = 32 \<or> a = 9 \<Longrightarrow> \<not> sublist [a, 10] (drop_trailing_ws s)"
  by (induction s) (auto simp: Let_def sublist2_Cons)

lemma squeeze_nl_hd: "squeeze_nl k s \<noteq> [] \<Longrightarrow> k = 0 \<Longrightarrow> s \<noteq> [] \<and> hd (squeeze_nl k s) = hd s"
  by (cases s) auto

lemma squeeze_nl_clean:
  "a \<noteq> 10 \<Longrightarrow> \<not> sublist [a, 10] s \<Longrightarrow> \<not> sublist [a, 10] (squeeze_nl k s)"
proof (induction k s rule: squeeze_nl.induct)
  case (2 k c cs)
  have tail: "\<not> sublist [a, 10] cs" using "2.prems" by (simp add: sublist2_Cons)
  show ?case
  proof (cases "c = 10")
    case True
    with 2 tail show ?thesis by (auto simp: sublist2_Cons)
  next
    case False
    have "squeeze_nl 0 cs \<noteq> [] \<Longrightarrow> hd (squeeze_nl 0 cs) = hd cs \<and> cs \<noteq> []"
      using squeeze_nl_hd by blast
    with False 2 tail show ?thesis by (auto simp: sublist2_Cons)
  qed
qed simp

lemma cr_replaced: "13 \<notin> set (replace1 13 [10] s)"
  using set_replace1 [of 13 "[10]" s] by auto

lemma not_sublist_strip: "\<not> sublist p s \<Longrightarrow> \<not> sublist p (strip s)"
  using strip_sublist sublist_order.order_trans by blast

text \<open>
  Whatever the engine answered and whatever the Unicode tables say, the normalised text is
  tidy: no carriage return, no run of three newlines, no space or tab at the end of a line, and
  no white space at either end.
\<close>

theorem normalize_text_tidy:
  "let r = normalize_text U text in
     13 \<notin> set r \<and> \<not> sublist [10, 10, 10] r \<and>
     \<not> sublist [32, 10] r \<and> \<not> sublist [9, 10] r \<and> strip r = r"
proof (cases "text = []")
  case True
  then show ?thesis by (simp add: normalize_text_def)
next
  case False
  define t where "t = replace1 13 [10] (replace_crlf (fold (\<lambda>(src, dst) t. replace1 src (lit dst) t)
    ligatures (nfkc U (case match_fence text of Some body \<Rightarrow> body | None \<Rightarrow> text))))"
  define u where "u = drop_trailing_ws (hyphen_join (word_char U) t)"
  have r: "normalize_text U text = strip (squeeze_nl 0 u)"
    using False by (simp add: normalize_text_def Let_def t_def u_def)
  have "13 \<notin> set t" by (simp add: t_def cr_replaced)
  then have "13 \<notin> set u"
    using set_drop_trailing_ws set_hyphen_join unfolding u_def by blast
  then have "13 \<notin> set (strip (squeeze_nl 0 u))"
    using set_strip set_squeeze_nl by blast
  moreover have "\<not> sublist [10, 10, 10] (squeeze_nl 0 u)"
    by (rule no_run_sublist [OF no_run_squeeze]) simp
  moreover have "\<not> sublist [32, 10] (squeeze_nl 0 u)" "\<not> sublist [9, 10] (squeeze_nl 0 u)"
    by (simp_all add: squeeze_nl_clean drop_trailing_ws_clean u_def)
  ultimately show ?thesis
    by (simp add: r not_sublist_strip)
qed

section \<open>Overlaps\<close>

definition is_overlap :: "pystr \<Rightarrow> pystr \<Rightarrow> nat \<Rightarrow> bool" where
  \<comment> \<open>a suffix of \<open>a\<close> of length \<open>n\<close> that is a prefix of \<open>b\<close>\<close>
  "is_overlap a b n \<longleftrightarrow> n \<le> length b \<and> suffix (take n b) a"

lemma suffix_take_iff_drop:
  "n \<le> length b \<Longrightarrow> n \<le> length a \<Longrightarrow> drop (length a - n) a = take n b \<longleftrightarrow> suffix (take n b) a"
proof -
  assume n: "n \<le> length b" "n \<le> length a"
  then have "suffix (take n b) a \<longleftrightarrow> take n b = drop (length a - length (take n b)) a"
    by (metis suffix_def append_eq_conv_conj append_take_drop_id length_append
        diff_add_inverse2 suffix_take)
  with n show ?thesis by auto
qed

lemma overlap_scan_sound:
  "overlap_scan t b n = m \<Longrightarrow> n \<le> min (length t) (length b) \<Longrightarrow>
   m = 0 \<or> (20 < m \<and> m \<le> n \<and> is_overlap t b m)"
proof (induction t b n rule: overlap_scan.induct)
  case (2 t b n)
  then show ?case
    by (auto simp: is_overlap_def suffix_take_iff_drop split: if_splits)
qed simp

lemma overlap_scan_max:
  "n \<le> min (length t) (length b) \<Longrightarrow> is_overlap t b k \<Longrightarrow> 20 < k \<Longrightarrow> k \<le> n \<Longrightarrow>
   k \<le> overlap_scan t b n"
proof (induction t b n rule: overlap_scan.induct)
  case (2 t b n)
  show ?case
  proof (cases "k = Suc n")
    case True
    with 2 show ?thesis by (auto simp: is_overlap_def suffix_take_iff_drop)
  next
    case False
    with 2 show ?thesis by auto
  qed
qed simp

lemma is_overlap_tail:
  "n \<le> k \<Longrightarrow> is_overlap (drop (length a - k) a) b n \<longleftrightarrow> is_overlap a b n"
proof -
  assume "n \<le> k"
  have "suffix (take n b) (drop (length a - k) a) \<longleftrightarrow> suffix (take n b) a"
  proof
    assume "suffix (take n b) (drop (length a - k) a)"
    then show "suffix (take n b) a"
      by (meson suffix_drop suffix_order.order_trans)
  next
    assume s: "suffix (take n b) a"
    have "length (take n b) \<le> length (drop (length a - k) a)"
      using suffix_length_le [OF s] \<open>n \<le> k\<close> by auto
    then show "suffix (take n b) (drop (length a - k) a)"
      using s suffix_drop suffix_length_suffix by blast
  qed
  then show ?thesis by (simp add: is_overlap_def)
qed

lemma overlap_len_sound:
  "overlap_len a b = 0 \<or> (20 < overlap_len a b \<and> overlap_len a b \<le> 400 \<and> is_overlap a b (overlap_len a b))"
proof -
  define t where "t = drop (length a - 400) a"
  define n where "n = min (length t) (length b)"
  have o: "overlap_len a b = overlap_scan t b n"
    by (simp add: overlap_len_def t_def n_def Let_def)
  have n: "n \<le> 400" "n \<le> min (length t) (length b)" by (simp_all add: n_def t_def)
  from overlap_scan_sound [OF o [symmetric] n(2)] show ?thesis
  proof
    assume "20 < overlap_len a b \<and> overlap_len a b \<le> n \<and> is_overlap t b (overlap_len a b)"
    with n(1) is_overlap_tail [of "overlap_len a b" 400 a b] show ?thesis
      unfolding t_def by linarith
  qed simp
qed

lemma overlap_len_max:
  assumes "is_overlap a b k" and "20 < k" and "k \<le> 400"
  shows "k \<le> overlap_len a b"
proof -
  have k: "is_overlap (drop (length a - 400) a) b k"
    using assms is_overlap_tail by blast
  then have "k \<le> min (length (drop (length a - 400) a)) (length b)"
    by (auto simp: is_overlap_def dest: suffix_length_le)
  with k assms(2) show ?thesis
    by (simp add: overlap_len_def Let_def overlap_scan_max)
qed

text \<open>
  The overlap search finds the longest text that ends \<open>a\<close> and begins \<open>b\<close> among lengths 21 to
  400: every such common piece is no longer than the result, and a non-zero result is one of
  them. (Pieces of 20 characters or fewer are never taken for a tile overlap.)
\<close>

theorem overlap_len_longest:
  "(overlap_len a b = 0 \<or> (20 < overlap_len a b \<and> overlap_len a b \<le> 400 \<and> is_overlap a b (overlap_len a b)))
   \<and> (is_overlap a b k \<longrightarrow> 20 < k \<longrightarrow> k \<le> 400 \<longrightarrow> k \<le> overlap_len a b)"
  using overlap_len_sound overlap_len_max by blast

lemma overlap_len_longest_witness:
  "24 \<le> overlap_len (replicate 24 65) (replicate 24 65 @ [66])"
  using overlap_len_longest [of "replicate 24 65" "replicate 24 65 @ [66]" 24]
  by (simp add: is_overlap_def)

section \<open>Stitching keeps every region's text\<close>

definition ink :: "pystr \<Rightarrow> pystr" where
  \<comment> \<open>the characters of a text that are not white space, in order\<close>
  "ink s = filter (\<lambda>c. \<not> is_ws c) s"

lemma ink_append [simp]: "ink (s @ t) = ink s @ ink t"
  by (simp add: ink_def)

lemma ink_Nil [simp]: "ink [] = []"
  by (simp add: ink_def)

lemma ink_nl [simp]: "ink (10 # s) = ink s"
  by (simp add: ink_def is_ws_def)

lemma ink_lstrip [simp]: "ink (lstrip s) = ink s"
  by (induction s) (auto simp: ink_def lstrip_def)

lemma ink_rev: "ink (rev s) = rev (ink s)"
  by (simp add: ink_def rev_filter)

lemma ink_rstrip [simp]: "ink (rstrip s) = ink s"
proof -
  have "ink (rstrip s) = rev (ink (lstrip (rev s)))"
    by (simp add: rstrip_def lstrip_def ink_rev [symmetric] del: ink_lstrip)
  then show ?thesis by (simp add: ink_rev)
qed

lemma ink_strip [simp]: "ink (strip s) = ink s"
  by (simp add: strip_def)

lemma ink_stitch_step: "sublist (ink part) (ink (stitch_step dedupe out part))"
proof (cases "dedupe \<and> overlap_len out part \<noteq> 0")
  case True
  define n where "n = overlap_len out part"
  from True have "is_overlap out part n" using overlap_len_sound [of out part] by (auto simp: n_def)
  then obtain pre where "out = pre @ take n part" by (auto simp: is_overlap_def suffix_def)
  then have "ink out = ink pre @ ink (take n part)" by simp
  moreover have "ink part = ink (take n part) @ ink (drop n part)"
    by (metis append_take_drop_id ink_append)
  ultimately show ?thesis using True by (simp add: stitch_step_def n_def)
next
  case False
  then show ?thesis by (auto simp: stitch_step_def Let_def)
qed

lemma ink_stitch_step_left: "prefix (ink out) (ink (stitch_step dedupe out part))"
  by (simp add: stitch_step_def Let_def)

lemma ink_stitch_fold_left: "prefix (ink out) (ink (foldl (stitch_step dedupe) out ps))"
  by (induction ps arbitrary: out)
    (auto intro: ink_stitch_step_left prefix_order.order_trans)

lemma ink_stitch_fold:
  "p \<in> set ps \<Longrightarrow> sublist (ink p) (ink (foldl (stitch_step dedupe) out ps))"
proof (induction ps arbitrary: out)
  case (Cons q ps)
  have "p = q \<Longrightarrow> sublist (ink p) (ink (stitch_step dedupe out q))" using ink_stitch_step by simp
  then show ?case
    using Cons ink_stitch_fold_left [of "stitch_step dedupe out q" dedupe ps]
    by (auto intro: sublist_order.order_trans prefix_imp_sublist)
qed simp

text \<open>
  C32. Dropping tile overlaps never loses text: for every region text that is not blank, the
  printing characters of its normalised form occur, contiguously and in order, in the stitched
  page, with the overlap removal on or off.
\<close>

theorem stitch_keeps_every_region:
  assumes "t \<in> set texts" and "\<not> blank t"
  shows "sublist (ink (normalize_text U t)) (ink (stitch_regions U texts dedupe))"
proof -
  obtain p ps where P: "map (normalize_text U) (filter (\<lambda>t. \<not> blank t) texts) = p # ps"
    using assms by (cases "map (normalize_text U) (filter (\<lambda>t. \<not> blank t) texts)")
      (auto simp: filter_empty_conv)
  have "normalize_text U t \<in> set (p # ps)"
    unfolding P [symmetric] using assms by auto
  then have "sublist (ink (normalize_text U t)) (ink (foldl (stitch_step dedupe) p ps))"
    using ink_stitch_fold ink_stitch_fold_left prefix_imp_sublist by auto
  then show ?thesis by (simp add: stitch_regions_def P)
qed

theorem stitch_keeps_every_region_witness:
  "sublist (ink (normalize_text ascii_unicode (lit ''b c'')))
     (ink (stitch_regions ascii_unicode [lit ''a'', lit '' '', lit ''b c''] True))"
  by (rule stitch_keeps_every_region) (simp_all add: blank_def lit_def is_ws_def)

section \<open>Merging pages\<close>

definition unhyphen :: "pystr \<Rightarrow> pystr" where
  \<comment> \<open>the printing characters other than the hyphen\<close>
  "unhyphen s = filter (\<lambda>c. c \<noteq> 45) (ink s)"

lemma unhyphen_append [simp]: "unhyphen (s @ t) = unhyphen s @ unhyphen t"
  by (simp add: unhyphen_def)

lemma unhyphen_strip [simp]: "unhyphen (strip s) = unhyphen s"
  by (simp add: unhyphen_def)

lemma unhyphen_butlast: "s \<noteq> [] \<Longrightarrow> last s = 45 \<Longrightarrow> unhyphen (butlast s) = unhyphen s"
proof -
  assume "s \<noteq> []" "last s = 45"
  then have "s = butlast s @ [45]" by (metis append_butlast_last_id)
  then have "unhyphen s = unhyphen (butlast s) @ unhyphen [45]" by (metis unhyphen_append)
  then show ?thesis by (simp add: unhyphen_def ink_def is_ws_def)
qed

lemma unhyphen_merge_step:
  "unhyphen sep = [] \<Longrightarrow> unhyphen (merge_step U sep m t) = unhyphen m @ unhyphen t"
  by (simp add: merge_step_def unhyphen_butlast)

lemma unhyphen_merge_fold:
  "unhyphen sep = [] \<Longrightarrow>
   unhyphen (foldl (merge_step U sep) m ps) = unhyphen m @ concat (map unhyphen ps)"
  by (induction ps arbitrary: m) (simp_all add: unhyphen_merge_step)

lemma ink_blank: "blank s \<Longrightarrow> ink s = []"
  by (auto simp: ink_def blank_def list_all_iff filter_empty_conv)

lemma concat_unhyphen_nonblank:
  "concat (map unhyphen (map strip (filter (\<lambda>t. \<not> blank t) ts))) = concat (map unhyphen ts)"
  by (induction ts) (auto simp: unhyphen_def ink_blank)

text \<open>
  Merging the pages of a document with the default separator drops only white space and
  hyphens: the other printing characters of the pages appear in the merged text exactly once,
  in page order, and nothing else does.
\<close>

theorem merge_pages_keeps_text:
  "unhyphen (merge_pages U page_texts [10, 10]) = concat (map unhyphen page_texts)"
proof -
  have sep: "unhyphen [10, 10] = []" by (simp add: unhyphen_def)
  show ?thesis
  proof (cases "map strip (filter (\<lambda>t. \<not> blank t) page_texts)")
    case Nil
    then show ?thesis
      using concat_unhyphen_nonblank [of page_texts]
      by (simp add: merge_pages_def) (simp add: unhyphen_def)
  next
    case (Cons p ps)
    then have "unhyphen (merge_pages U page_texts [10, 10]) = unhyphen p @ concat (map unhyphen ps)"
      by (simp add: merge_pages_def unhyphen_merge_fold [OF sep])
    also have "\<dots> = concat (map unhyphen (p # ps))" by simp
    also have "\<dots> = concat (map unhyphen page_texts)"
      by (metis Cons concat_unhyphen_nonblank)
    finally show ?thesis .
  qed
qed

section \<open>The degeneration filter\<close>

lemma count_repeats_le: "count_repeats window i seen lines \<le> length lines"
proof (induction lines arbitrary: i seen)
  case (Cons line lines)
  have "count_repeats window (Suc i) (seen(line \<mapsto> i)) lines \<le> length lines" by (rule Cons.IH)
  then show ?case by (cases "seen line") (simp_all del: fun_upd_apply)
qed simp

lemma count_repeats_first: "lines \<noteq> [] \<Longrightarrow> count_repeats window i Map.empty lines < length lines"
  using count_repeats_le by (cases lines) (auto simp: le_imp_less_Suc)

text \<open>What the loop keeps: a prefix of the lines, whose long lines are all different, and which
  ends where the first long line is repeated.\<close>

definition long_keys :: "pystr list \<Rightarrow> pystr list" where
  "long_keys lines = filter (\<lambda>k. 3 < length k) (map strip lines)"

definition keys_of :: "pystr list \<Rightarrow> pystr set" where
  "keys_of lines = strip ` set lines - {[]}"

lemma keep_lines_prefix: "prefix (keep_lines seen lines) lines"
  by (induction seen lines rule: keep_lines.induct) (auto simp: Let_def)

lemma keep_lines_fresh:
  "k \<in> set (long_keys (keep_lines seen lines)) \<Longrightarrow> k \<notin> seen"
  by (induction seen lines rule: keep_lines.induct)
    (auto simp: Let_def long_keys_def split: if_splits)

lemma keep_lines_distinct: "distinct (long_keys (keep_lines seen lines))"
proof (induction seen lines rule: keep_lines.induct)
  case (2 seen line lines)
  let ?seen' = "if strip line \<noteq> [] then insert (strip line) seen else seen"
  have "3 < length (strip line) \<Longrightarrow>
      strip line \<notin> set (long_keys (keep_lines ?seen' lines))"
    using keep_lines_fresh [of "strip line" ?seen' lines] by auto
  then show ?case
    using 2 by (auto simp: Let_def long_keys_def)
qed (simp add: long_keys_def)

lemma keep_lines_stop:
  "rest \<noteq> [] \<Longrightarrow> lines = keep_lines seen lines @ rest \<Longrightarrow>
   3 < length (strip (hd rest)) \<and> strip (hd rest) \<in> seen \<union> keys_of (keep_lines seen lines)"
proof (induction seen lines rule: keep_lines.induct)
  case (2 seen line lines)
  then show ?case
    by (auto simp: Let_def keys_of_def split: if_splits)
qed simp

text \<open>
  The degeneration filter. A text whose repetition ratio is below the threshold is returned
  unchanged and unflagged. Otherwise the result is flagged and made of the first \<open>n\<close> lines of the
  text, for an \<open>n\<close> such that no line of more than three characters occurs twice among them, and
  either no line was cut or the first line cut is such a line that does occur among them.
\<close>

theorem filter_degenerate_cuts_at_repeat:
  "if repetition_ratio text 30 < threshold then filter_degenerate text threshold = (text, False)
   else (let lines = splitlines text in
     \<exists>n \<le> length lines.
       filter_degenerate text threshold = (strip (join [10] (take n lines)), True) \<and>
       distinct (long_keys (take n lines)) \<and>
       (n = length lines \<or>
         (3 < length (strip (lines ! n)) \<and> strip (lines ! n) \<in> keys_of (take n lines))))"
proof (cases "repetition_ratio text 30 < threshold")
  case True
  then show ?thesis by (simp add: filter_degenerate_def)
next
  case False
  define lines where "lines = splitlines text"
  define kept where "kept = keep_lines {} lines"
  obtain rest where rest: "lines = kept @ rest"
    using keep_lines_prefix unfolding kept_def prefix_def by metis
  have eq: "take (length kept) lines = kept" by (simp add: rest)
  have "distinct (long_keys kept)" by (simp add: kept_def keep_lines_distinct)
  moreover have "rest = [] \<or> (3 < length (strip (lines ! length kept))
      \<and> strip (lines ! length kept) \<in> keys_of kept)"
  proof (cases rest)
    case (Cons r rs)
    then have "3 < length (strip r) \<and> strip r \<in> {} \<union> keys_of kept"
      using keep_lines_stop [of rest lines "{}"] rest unfolding kept_def [symmetric] by simp
    then show ?thesis using rest Cons by (simp add: nth_append)
  qed simp
  moreover have "filter_degenerate text threshold = (strip (join [10] kept), True)"
    using False by (simp add: filter_degenerate_def kept_def lines_def)
  moreover have "length kept \<le> length lines" "rest = [] \<Longrightarrow> length kept = length lines"
    by (simp_all add: rest)
  ultimately show ?thesis
    using False unfolding lines_def [symmetric] Let_def
    by (simp, intro exI [of _ "length kept"]) (auto simp: eq)
qed

lemma linebreak_cr_lf: "is_linebreak 10" "is_linebreak 13"
  by (simp_all add: is_linebreak_def)

lemma splitlines_lf: "splitlines (10 # s) = [] # splitlines s"
  by (cases s) (simp_all add: linebreak_cr_lf)

lemma splitlines_Cons:
  "\<not> is_linebreak c \<Longrightarrow> splitlines (c # d # s) =
     (case splitlines (d # s) of [] \<Rightarrow> [[c]] | l # ls \<Rightarrow> (c # l) # ls)"
  using linebreak_cr_lf(2) by (auto simp del: splitlines.simps(2))

lemma splitlines_single:
  "\<forall>c\<in>set l. \<not> is_linebreak c \<Longrightarrow> l \<noteq> [] \<Longrightarrow> splitlines (l @ 10 # s) = l # splitlines s"
proof (induction l)
  case (Cons c l)
  then show ?case
    by (cases l) (simp_all add: splitlines_Cons splitlines_lf del: splitlines.simps)
qed simp

lemma splitlines_line:
  "\<forall>c\<in>set l. \<not> is_linebreak c \<Longrightarrow> l \<noteq> [] \<Longrightarrow> splitlines l = [l]"
proof (induction l)
  case (Cons c l)
  then show ?case
  proof (cases l)
    case (Cons d l')
    with Cons.IH Cons.prems show ?thesis by (simp add: splitlines_Cons del: splitlines.simps)
  qed simp
qed simp

lemma splitlines_join_replicate:
  assumes "\<forall>c\<in>set l. \<not> is_linebreak c" and "l \<noteq> []"
  shows "splitlines (join [10] (replicate (Suc n) l)) = replicate (Suc n) l"
proof (induction n)
  case 0
  then show ?case using assms by (simp add: splitlines_line)
next
  case (Suc n)
  then show ?case using assms by (simp add: join_Cons splitlines_single)
qed

lemma count_repeats_replicate:
  "count_repeats (Suc w) (Suc i) [l \<mapsto> i] (replicate n l) = n"
  by (induction n arbitrary: i) auto

lemma keep_lines_replicate:
  "3 < length (strip l) \<Longrightarrow> keep_lines {} (replicate (Suc n) l) = [l]"
  by (cases n) (auto simp: Let_def)

text \<open>
  The loop the filter exists for: an answer that is one line of more than three characters
  emitted six times or more is cut to a single copy and flagged, at the default threshold.
\<close>

theorem filter_degenerate_loop:
  assumes "\<forall>c\<in>set l. \<not> is_linebreak c" and "strip l = l" and "3 < length l" and "6 \<le> n"
  shows "filter_degenerate (join [10] (replicate n l)) (1/2) = (l, True)"
proof -
  obtain m where m: "n = Suc m" "5 \<le> m" using assms(4) by (cases n) auto
  have ne: "l \<noteq> []" using assms(3) by auto
  have lines: "splitlines (join [10] (replicate n l)) = replicate n l"
    using splitlines_join_replicate [OF assms(1) ne] by (simp add: m)
  have "count_repeats 30 0 Map.empty (replicate n l) = m"
    using count_repeats_replicate [of 29 0 l m] by (simp add: m)
  then have ratio: "repetition_ratio (join [10] (replicate n l)) 30 = of_nat m / of_nat n"
    using assms(2,3,4) by (simp add: repetition_ratio_def lines map_replicate_const Let_def)
  have "(1/2 :: rat) \<le> of_nat m / of_nat n"
    using m by (simp add: field_simps)
  then have "\<not> repetition_ratio (join [10] (replicate n l)) 30 < 1/2"
    by (simp add: ratio not_less)
  moreover have "keep_lines {} (replicate n l) = [l]"
    using keep_lines_replicate [of l m] assms(2,3) m by simp
  ultimately show ?thesis
    using assms(2) by (simp add: filter_degenerate_def lines)
qed

theorem filter_degenerate_loop_witness:
  "filter_degenerate (join [10] (replicate 7 (lit ''row 1''))) (1/2) = (lit ''row 1'', True)"
  by (rule filter_degenerate_loop) (code_simp, code_simp, code_simp, simp)

lemma filter_degenerate_cuts_at_repeat_witness:
  "filter_degenerate (lit ''one line'') (1/2) = (lit ''one line'', False)"
proof -
  have "repetition_ratio (lit ''one line'') 30 < 1/2"
    by (simp add: repetition_ratio_def lit_def is_linebreak_def Let_def)
  then show ?thesis using filter_degenerate_cuts_at_repeat [of "lit ''one line''" "1/2"] by simp
qed

section \<open>Text that is tidy already\<close>

lemma hyphen_join_none: "45 \<notin> set s \<Longrightarrow> hyphen_join w s = s"
  by (induction w s rule: hyphen_join.induct) auto

lemma replace_crlf_none: "13 \<notin> set s \<Longrightarrow> replace_crlf s = s"
  by (induction s rule: replace_crlf.induct) auto

lemma drop_trailing_ws_none: "32 \<notin> set s \<Longrightarrow> 9 \<notin> set s \<Longrightarrow> drop_trailing_ws s = s"
  by (induction s) (auto simp: Let_def)

lemma normalize_plain:
  assumes "\<forall>c\<in>set s. c \<notin> {13, 45, 32, 9} \<and> c < 128" and "match_fence s = None" "squeeze_nl 0 s = s" "strip s = s"
  shows "normalize_text ascii_unicode s = s"
proof -
  have lig: "\<forall>l\<in>set ligatures. fst l \<ge> 128" by (simp add: ligatures_def)
  have "fold (\<lambda>(src, dst) t. replace1 src (lit dst) t) ls s = s" if "\<forall>l\<in>set ls. fst l \<ge> 128" for ls
    using that
  proof (induction ls)
    case (Cons l ls)
    then have "fst l \<notin> set s" using assms(1) by (auto simp: not_le)
    then show ?case using Cons by (cases l) (simp add: replace1_absent)
  qed simp
  then have "fold (\<lambda>(src, dst) t. replace1 src (lit dst) t) ligatures s = s" using lig by blast
  moreover have "45 \<notin> set s" "13 \<notin> set s" "32 \<notin> set s" "9 \<notin> set s" using assms(1) by auto
  ultimately show ?thesis
    using assms(2-4)
    by (simp add: normalize_text_def ascii_unicode_def hyphen_join_none replace_crlf_none drop_trailing_ws_none replace1_absent)
qed

lemma stitch_one: "\<not> blank t \<Longrightarrow> stitch_regions U [t] b = strip (normalize_text U t)"
  by (simp add: stitch_regions_def)

end
