(* ===== verification/Py_Effects.thy ===== *)
theory Py_Effects
  imports Py_Prelude
begin

text \<open>
  Exceptions and effectful code. A program that may raise and that changes a state \<open>'w\<close> is a
  function \<open>'w \<Rightarrow> (exn + 'a) \<times> 'w\<close> (\<open>prog\<close>): \<open>Inl\<close> is the exception that left it, and the state
  keeps every effect made before. \<open>bindE\<close> is sequencing with a result, \<open>seqE\<close> a block of
  statements, \<open>catchE\<close> is \<open>try/except\<close>, \<open>finallyE\<close> is \<open>try/finally\<close>.

  \<open>tri P m Q E\<close> is the Hoare triple with two postconditions: \<open>Q\<close> on a normal return, \<open>E\<close> on an
  exception. The collection \<open>tri_rules\<close> holds its rules; a proof about a handler is one
  application of the rules per statement.
\<close>

named_theorems tri_rules "rules of the two-postcondition Hoare triples"

section \<open>Exceptions\<close>

text \<open>The exceptions the source raises, catches or tells apart, one constructor per class;
  \<open>OtherError name message\<close> is any other class.\<close>

datatype exn =
    UnreadableDocument pystr
  | JobCancelled
  | UploadTooLarge int
  | HTTPException nat pystr
  | ValueError pystr
  | TypeError pystr
  | KeyError pystr
  | IndexError
  | OSError pystr
  | ResponseError pystr
  | ConnectionError pystr
  | HTTPStatusError nat pystr
  | TransportError pystr
  | TimeoutError pystr
  | OtherError pystr pystr

fun exn_name :: "exn \<Rightarrow> pystr" where
  "exn_name (UnreadableDocument _) = lit ''UnreadableDocument''"
| "exn_name JobCancelled = lit ''JobCancelled''"
| "exn_name (UploadTooLarge _) = lit ''UploadTooLarge''"
| "exn_name (HTTPException _ _) = lit ''HTTPException''"
| "exn_name (ValueError _) = lit ''ValueError''"
| "exn_name (TypeError _) = lit ''TypeError''"
| "exn_name (KeyError _) = lit ''KeyError''"
| "exn_name IndexError = lit ''IndexError''"
| "exn_name (OSError _) = lit ''OSError''"
| "exn_name (ResponseError _) = lit ''ResponseError''"
| "exn_name (ConnectionError _) = lit ''ConnectionError''"
| "exn_name (HTTPStatusError _ _) = lit ''HTTPStatusError''"
| "exn_name (TransportError _) = lit ''TransportError''"
| "exn_name (TimeoutError _) = lit ''TimeoutError''"
| "exn_name (OtherError n _) = n"

fun exn_str :: "exn \<Rightarrow> pystr" where
  "exn_str (UnreadableDocument m) = m"
| "exn_str JobCancelled = []"
| "exn_str (UploadTooLarge n) = lit ''upload exceeds '' @ show_int n @ lit '' bytes''"
| "exn_str (HTTPException c m) = show_nat c @ lit '': '' @ m"
| "exn_str (ValueError m) = m"
| "exn_str (TypeError m) = m"
| "exn_str (KeyError m) = m"
| "exn_str IndexError = lit ''list index out of range''"
| "exn_str (OSError m) = m"
| "exn_str (ResponseError m) = m"
| "exn_str (ConnectionError m) = m"
| "exn_str (HTTPStatusError c m) = m"
| "exn_str (TransportError m) = m"
| "exn_str (TimeoutError m) = m"
| "exn_str (OtherError _ m) = m"

definition exn_text :: "exn \<Rightarrow> pystr" where
  \<comment> \<open>\<open>f"{type(exc).__name__}: {exc}"\<close>\<close>
  "exn_text e = exn_name e @ lit '': '' @ exn_str e"

section \<open>Programs\<close>

type_synonym ('w, 'a) prog = "'w \<Rightarrow> (exn + 'a) \<times> 'w"

definition retE :: "'a \<Rightarrow> ('w, 'a) prog" where
  "retE a = (\<lambda>w. (Inr a, w))"

definition raiseE :: "exn \<Rightarrow> ('w, 'a) prog" where
  "raiseE e = (\<lambda>w. (Inl e, w))"

definition bindE :: "('w, 'a) prog \<Rightarrow> ('a \<Rightarrow> ('w, 'b) prog) \<Rightarrow> ('w, 'b) prog" where
  "bindE m k = (\<lambda>w. case m w of (Inl e, w') \<Rightarrow> (Inl e, w') | (Inr a, w') \<Rightarrow> k a w')"

fun seqE :: "('w, unit) prog list \<Rightarrow> ('w, unit) prog" where
  "seqE [] = retE ()"
| "seqE [m] = m"
| "seqE (m # n # ms) = bindE m (\<lambda>_. seqE (n # ms))"

definition catchE :: "('w, 'a) prog \<Rightarrow> (exn \<Rightarrow> ('w, 'a) prog) \<Rightarrow> ('w, 'a) prog" where
  "catchE m h = (\<lambda>w. case m w of (Inl e, w') \<Rightarrow> h e w' | (Inr a, w') \<Rightarrow> (Inr a, w'))"

definition finallyE :: "('w, 'a) prog \<Rightarrow> ('w, unit) prog \<Rightarrow> ('w, 'a) prog" where
  "finallyE m f = (\<lambda>w. case m w of (r, w') \<Rightarrow>
     (case f w' of (Inl e, w'') \<Rightarrow> (Inl e, w'') | (Inr _, w'') \<Rightarrow> (r, w'')))"

definition getE :: "('w \<Rightarrow> 'a) \<Rightarrow> ('w, 'a) prog" where
  "getE f = (\<lambda>w. (Inr (f w), w))"

definition modE :: "('w \<Rightarrow> 'w) \<Rightarrow> ('w, unit) prog" where
  "modE f = (\<lambda>w. (Inr (), f w))"

definition ofE :: "exn + 'a \<Rightarrow> ('w, 'a) prog" where
  \<comment> \<open>a pure computation that may raise\<close>
  "ofE r = (\<lambda>w. (r, w))"

fun mapE :: "('a \<Rightarrow> ('w, 'b) prog) \<Rightarrow> 'a list \<Rightarrow> ('w, 'b list) prog" where
  "mapE f [] = retE []"
| "mapE f (x # xs) = bindE (f x) (\<lambda>y. bindE (mapE f xs) (\<lambda>ys. retE (y # ys)))"

lemmas prog_defs = retE_def raiseE_def bindE_def catchE_def finallyE_def getE_def modE_def ofE_def

lemma bindE_retE [simp]: "bindE (retE a) k = k a"
  by (simp add: prog_defs)

lemma bindE_raiseE [simp]: "bindE (raiseE e) k = raiseE e"
  by (simp add: prog_defs)

lemma bindE_assoc: "bindE (bindE m k) l = bindE m (\<lambda>a. bindE (k a) l)"
  by (rule ext) (simp add: bindE_def split: prod.splits sum.splits)

section \<open>Triples\<close>

definition tri ::
  "('w \<Rightarrow> bool) \<Rightarrow> ('w, 'a) prog \<Rightarrow> ('a \<Rightarrow> 'w \<Rightarrow> bool) \<Rightarrow> (exn \<Rightarrow> 'w \<Rightarrow> bool) \<Rightarrow> bool" where
  "tri P m Q E \<longleftrightarrow> (\<forall>w. P w \<longrightarrow>
     (case m w of (Inr a, w') \<Rightarrow> Q a w' | (Inl e, w') \<Rightarrow> E e w'))"

lemma triI:
  assumes "\<And>w a w'. P w \<Longrightarrow> m w = (Inr a, w') \<Longrightarrow> Q a w'"
    and "\<And>w e w'. P w \<Longrightarrow> m w = (Inl e, w') \<Longrightarrow> E e w'"
  shows "tri P m Q E"
  unfolding tri_def using assms by (auto split: prod.splits sum.splits)

lemma tri_InrD: "tri P m Q E \<Longrightarrow> P w \<Longrightarrow> m w = (Inr a, w') \<Longrightarrow> Q a w'"
  unfolding tri_def by (auto split: prod.splits)

lemma tri_InlD: "tri P m Q E \<Longrightarrow> P w \<Longrightarrow> m w = (Inl e, w') \<Longrightarrow> E e w'"
  unfolding tri_def by (auto split: prod.splits)

lemma tri_retE [tri_rules]: "tri (Q a) (retE a) Q E"
  by (simp add: tri_def prog_defs)

lemma tri_raiseE [tri_rules]: "tri (E e) (raiseE e) Q E"
  by (simp add: tri_def prog_defs)

lemma tri_getE [tri_rules]: "tri (\<lambda>w. Q (f w) w) (getE f) Q E"
  by (simp add: tri_def prog_defs)

lemma tri_modE [tri_rules]: "tri (\<lambda>w. Q () (f w)) (modE f) Q E"
  by (simp add: tri_def prog_defs)

lemma tri_bindE [tri_rules]:
  assumes "tri P m R E" and "\<And>a. tri (R a) (k a) Q E"
  shows "tri P (bindE m k) Q E"
  using assms unfolding tri_def bindE_def
  by (fastforce split: prod.splits sum.splits)

lemma tri_catchE:
  assumes "tri P m Q R" and "\<And>e. tri (R e) (h e) Q E"
  shows "tri P (catchE m h) Q E"
  using assms unfolding tri_def catchE_def
  by (fastforce split: prod.splits sum.splits)

lemma tri_conseq:
  assumes "tri P' m Q' E'" and "\<And>w. P w \<Longrightarrow> P' w"
    and "\<And>a w. Q' a w \<Longrightarrow> Q a w" and "\<And>e w. E' e w \<Longrightarrow> E e w"
  shows "tri P m Q E"
  using assms unfolding tri_def by (fastforce split: prod.splits sum.splits)

lemma tri_pre: "tri P' m Q E \<Longrightarrow> (\<And>w. P w \<Longrightarrow> P' w) \<Longrightarrow> tri P m Q E"
  by (rule tri_conseq)

lemma tri_seqE:
  assumes "\<And>m. m \<in> set ms \<Longrightarrow> tri I m (\<lambda>_. I) (\<lambda>_. I)"
  shows "tri I (seqE ms) (\<lambda>_. I) (\<lambda>_. I)"
  using assms
proof (induction ms rule: seqE.induct)
  case 1
  then show ?case by (simp add: tri_def prog_defs)
next
  case (3 m n ms)
  then show ?case by (auto intro!: tri_bindE)
qed simp

lemma tri_mapE:
  assumes "\<And>x. x \<in> set xs \<Longrightarrow> tri I (f x) (\<lambda>_. I) (\<lambda>_. I)"
  shows "tri I (mapE f xs) (\<lambda>_. I) (\<lambda>_. I)"
  using assms
proof (induction xs)
  case Nil
  then show ?case by (simp add: tri_def prog_defs)
next
  case (Cons x xs)
  then show ?case
    by (auto intro!: tri_bindE tri_retE [THEN tri_pre])
qed

end
