(* ===== verification/Layout.thy ===== *)
theory Layout
  imports Py_Effects "HOL-Library.Product_Lexorder" "HOL-Library.Multiset"
begin

text \<open>
  \<open>workers/layout.py\<close>: decoding of the detector's output, the recursive XY-cut that orders the
  regions of a page, the tiling of oversized regions and the crop. Coordinates are Python
  integers, scores and box corners exact rationals (the code's are \<open>float32\<close>). The ONNX session
  and \<open>cv2.dnn.NMSBoxes\<close> are parameters. \<open>tile\<close> contains a loop that does not stop for one
  configuration, so it is a partial function with result \<open>None\<close> for "never returns".
\<close>

record region =
  bbox :: "int \<times> int \<times> int \<times> int"
  cls :: pystr
  order :: int
  score :: rat

fun bx0 :: "int \<times> int \<times> int \<times> int \<Rightarrow> int" where "bx0 (x0, y0, x1, y1) = x0"
fun by0 :: "int \<times> int \<times> int \<times> int \<Rightarrow> int" where "by0 (x0, y0, x1, y1) = y0"
fun bx1 :: "int \<times> int \<times> int \<times> int \<Rightarrow> int" where "bx1 (x0, y0, x1, y1) = x1"
fun by1 :: "int \<times> int \<times> int \<times> int \<Rightarrow> int" where "by1 (x0, y0, x1, y1) = y1"

datatype axis = X_axis | Y_axis

fun lo :: "axis \<Rightarrow> region \<Rightarrow> int" where
  \<comment> \<open>\<open>r.bbox[axis]\<close>\<close>
  "lo X_axis r = bx0 (bbox r)"
| "lo Y_axis r = by0 (bbox r)"

fun hi :: "axis \<Rightarrow> region \<Rightarrow> int" where
  \<comment> \<open>\<open>r.bbox[axis + 2]\<close>\<close>
  "hi X_axis r = bx1 (bbox r)"
| "hi Y_axis r = by1 (bbox r)"

section \<open>Reading order\<close>

fun gap_loop :: "int \<Rightarrow> (int \<times> rat) option \<Rightarrow> (int \<times> int) list \<Rightarrow> (int \<times> rat) option" where
  "gap_loop reach best [] = best"
| "gap_loop reach best ((start, stop) # ivs) =
     (let width = start - reach;
          best' = (if start > reach \<and> (case best of None \<Rightarrow> True | Some (w, _) \<Rightarrow> width > w)
                   then Some (width, (of_int reach + of_int start) / 2) else best)
      in gap_loop (max reach stop) best' ivs)"

definition widest_gap :: "region list \<Rightarrow> axis \<Rightarrow> (int \<times> rat) option" where
  \<comment> \<open>\<open>intervals[0]\<close> of no region would raise; \<open>xy_cut\<close> calls it with two or more\<close>
  "widest_gap regions ax =
     (case sort (map (\<lambda>r. (lo ax r, hi ax r)) regions) of
        [] \<Rightarrow> None
      | (_, reach) # ivs \<Rightarrow> gap_loop reach None ivs)"

definition by_position :: "region list \<Rightarrow> region list" where
  "by_position = sort_key (\<lambda>r. (lo Y_axis r, lo X_axis r))"

definition centre :: "axis \<Rightarrow> region \<Rightarrow> rat" where
  "centre ax r = of_int (lo ax r + hi ax r) / 2"

definition choose_cut :: "region list \<Rightarrow> rat \<Rightarrow> (rat \<times> axis) option" where
  \<comment> \<open>the candidates whose gap is at least \<open>min_gap\<close> wide, and the widest of them; \<open>max\<close> keeps the
     first of equals, the vertical cut\<close>
  "choose_cut regions min_gap =
     (let wide = (\<lambda>c. case c of None \<Rightarrow> False | Some (w, _) \<Rightarrow> of_int w \<ge> min_gap);
          vertical = widest_gap regions X_axis; horizontal = widest_gap regions Y_axis
      in case (if wide vertical then vertical else None, if wide horizontal then horizontal else None) of
           (None, None) \<Rightarrow> None
         | (Some (_, c), None) \<Rightarrow> Some (c, X_axis)
         | (None, Some (_, c)) \<Rightarrow> Some (c, Y_axis)
         | (Some (w, c), Some (w', c')) \<Rightarrow> if w' > w then Some (c', Y_axis) else Some (c, X_axis))"

function xy_cut :: "region list \<Rightarrow> rat \<Rightarrow> nat \<Rightarrow> region list" where
  "xy_cut regions min_gap depth =
     (if length regions \<le> 1 \<or> depth \<ge> 16 then by_position regions
      else case choose_cut regions min_gap of
        None \<Rightarrow> by_position regions
      | Some (pos, ax) \<Rightarrow>
          (let near = filter (\<lambda>r. centre ax r < pos) regions;
               far = filter (\<lambda>r. centre ax r \<ge> pos) regions
           in if near = [] \<or> far = [] then by_position regions
              else xy_cut near min_gap (Suc depth) @ xy_cut far min_gap (Suc depth)))"
  by pat_completeness auto
termination
  by (relation "measure (\<lambda>(regions, min_gap, depth). 16 - depth)") auto

declare xy_cut.simps [simp del]

fun renumber :: "int \<Rightarrow> region list \<Rightarrow> region list" where
  \<comment> \<open>\<open>for i, region in enumerate(out): region.order = i\<close>\<close>
  "renumber i [] = []"
| "renumber i (r # rs) = r\<lparr>order := i\<rparr> # renumber (i + 1) rs"

definition assign_reading_order :: "region list \<Rightarrow> int \<Rightarrow> region list" where
  "assign_reading_order regions page_width =
     (if regions = [] then regions
      else renumber 0 (xy_cut regions (max (of_int page_width * (1/100)) 8) 0))"

section \<open>Tiling\<close>

partial_function (option) tile_loop ::
  "int \<Rightarrow> int \<Rightarrow> int \<Rightarrow> int \<Rightarrow> int \<Rightarrow> region \<Rightarrow> int \<Rightarrow> region list option" where
  "tile_loop x0 x1 y1 max_height step r top_y =
     (if top_y < y1 then
        (let bottom = min (top_y + max_height) y1;
             t = \<lparr>bbox = (x0, top_y, x1, bottom), cls = cls r, order = order r, score = score r\<rparr>
         in if bottom \<ge> y1 then Some [t]
            else Option.bind (tile_loop x0 x1 y1 max_height step r (top_y + step)) (\<lambda>ts. Some (t # ts)))
      else Some [])"

definition tile_region :: "int \<Rightarrow> int \<Rightarrow> region \<Rightarrow> region list option" where
  "tile_region max_height overlap r =
     (case bbox r of (x0, y0, x1, y1) \<Rightarrow>
        if max_height \<le> 0 \<or> y1 - y0 \<le> max_height then Some [r]
        else tile_loop x0 x1 y1 max_height (max (max_height - overlap) (max_height div 2)) r y0)"

fun tile_all :: "int \<Rightarrow> int \<Rightarrow> region list \<Rightarrow> region list option" where
  "tile_all max_height overlap [] = Some []"
| "tile_all max_height overlap (r # rs) =
     Option.bind (tile_region max_height overlap r)
       (\<lambda>ts. Option.bind (tile_all max_height overlap rs) (\<lambda>us. Some (ts @ us)))"

definition tile :: "region list \<Rightarrow> int \<Rightarrow> int \<Rightarrow> region list option" where
  "tile regions max_height overlap = map_option (renumber 0) (tile_all max_height overlap regions)"

section \<open>Crop\<close>

text \<open>The rectangle \<open>(x0, y0, x1, y1)\<close> of the page that \<open>crop\<close> cuts out: the padded box, or the
  whole image when the padded box is empty.\<close>

definition crop :: "int \<Rightarrow> int \<Rightarrow> region \<Rightarrow> int \<Rightarrow> int \<times> int \<times> int \<times> int" where
  "crop h w r pad =
     (case bbox r of (x0, y0, x1, y1) \<Rightarrow>
        let x0 = max (x0 - pad) 0; y0 = max (y0 - pad) 0;
            x1 = min (x1 + pad) w; y1 = min (y1 + pad) h
        in if x1 \<le> x0 \<or> y1 \<le> y0 then (0, 0, w, h) else (x0, y0, x1, y1))"

section \<open>Detector output\<close>

text \<open>The letterbox geometry: scale, padding and the size of the resized page.\<close>

definition letterbox :: "int \<Rightarrow> int \<Rightarrow> int \<Rightarrow> rat \<times> int \<times> int \<times> int \<times> int" where
  \<comment> \<open>\<open>(scale, left, top, nw, nh)\<close> for an image of height \<open>h\<close> and width \<open>w\<close>\<close>
  "letterbox h w sz =
     (let scale = min (of_int sz / of_int h) (of_int sz / of_int w);
          nh = py_round (of_int h * scale); nw = py_round (of_int w * scale)
      in (scale, (sz - nw) div 2, (sz - nh) div 2, nw, nh))"

definition class_names :: "pystr list" where
  "class_names = map lit [''title'', ''text'', ''abandon'', ''figure'', ''figure_caption'',
     ''table'', ''table_caption'', ''table_footnote'', ''formula'', ''formula_caption'']"

definition skip_classes :: "pystr list" where
  "skip_classes = [lit ''abandon'', lit ''figure'']"

definition min_region_px :: int where
  "min_region_px = 16"

text \<open>A tensor is its rank and, at rank two, its rows (all of one length). A detection is a box,
  a score and a class id.\<close>

record tensor =
  ndim :: nat
  rows :: "rat list list"

type_synonym box = "rat \<times> rat \<times> rat \<times> rat"
type_synonym detection = "box \<times> rat \<times> int"

definition ncols :: "tensor \<Rightarrow> nat" where
  "ncols t = (case rows t of [] \<Rightarrow> 0 | r # _ \<Rightarrow> length r)"

fun argmax_from :: "nat \<Rightarrow> nat \<Rightarrow> rat \<Rightarrow> rat list \<Rightarrow> nat \<times> rat" where
  "argmax_from i best m [] = (best, m)"
| "argmax_from i best m (x # xs) =
     (if x > m then argmax_from (Suc i) i x xs else argmax_from (Suc i) best m xs)"

fun v10_row :: "rat list \<Rightarrow> exn + detection" where
  "v10_row (x0 # y0 # x1 # y1 # s # c # _) =
     Inr ((x0, y0, x1, y1), s, (if c \<ge> 0 then floor c else ceiling c))"
| "v10_row _ = Inl IndexError"

fun v8_row :: "rat list \<Rightarrow> exn + detection" where
  "v8_row (cx # cy # bw # bh # s # ss) =
     (case argmax_from 1 0 s ss of (c, m) \<Rightarrow>
        Inr ((cx - bw / 2, cy - bh / 2, cx + bw / 2, cy + bh / 2), m, int c))"
| "v8_row [_, _, _, _] = Inl (ValueError (lit ''attempt to get argmax of an empty sequence''))"
| "v8_row _ = Inl IndexError"

fun map_exn :: "('a \<Rightarrow> exn + 'b) \<Rightarrow> 'a list \<Rightarrow> exn + 'b list" where
  "map_exn f [] = Inr []"
| "map_exn f (x # xs) =
     (case f x of Inl e \<Rightarrow> Inl e | Inr y \<Rightarrow>
       (case map_exn f xs of Inl e \<Rightarrow> Inl e | Inr ys \<Rightarrow> Inr (y # ys)))"

definition detections :: "tensor \<Rightarrow> (exn + detection list) \<times> bool" where
  \<comment> \<open>the boxes of either export layout, and whether they still need suppression\<close>
  "detections raw =
     (let n0 = length (rows raw); n1 = ncols raw; feature_axis_len = 4 + length class_names
      in if n1 = 6 \<and> n0 \<noteq> feature_axis_len then (map_exn v10_row (rows raw), False)
         else (map_exn v8_row
                 (if n0 = feature_axis_len \<or> n0 < n1 then transpose (rows raw) else rows raw), True))"

definition select :: "'a list \<Rightarrow> nat list \<Rightarrow> exn + 'a list" where
  \<comment> \<open>\<open>boxes[sel]\<close>\<close>
  "select xs sel = map_exn (\<lambda>i. if i < length xs then Inr (xs ! i) else Inl IndexError) sel"

fun to_region :: "rat \<Rightarrow> int \<Rightarrow> int \<Rightarrow> int \<Rightarrow> int \<Rightarrow> detection \<Rightarrow> region option" where
  "to_region scale pad_x pad_y width height ((x0, y0, x1, y1), sc, cls_id) =
     (let name = (if 0 \<le> cls_id \<and> cls_id < int (length class_names)
                  then class_names ! nat cls_id else lit ''text'')
      in if name \<in> set skip_classes then None
         else
           (let bx0 = max (floor ((x0 - of_int pad_x) / scale)) 0;
                by0 = max (floor ((y0 - of_int pad_y) / scale)) 0;
                bx1 = min (ceiling ((x1 - of_int pad_x) / scale)) width;
                by1 = min (ceiling ((y1 - of_int pad_y) / scale)) height
            in if bx1 - bx0 < min_region_px \<or> by1 - by0 < min_region_px then None
               else Some \<lparr>bbox = (bx0, by0, bx1, by1), cls = name, order = 0, score = sc\<rparr>))"

definition decode_detections ::
  "(box list \<Rightarrow> rat list \<Rightarrow> rat \<Rightarrow> nat list) \<Rightarrow> tensor \<Rightarrow> rat \<Rightarrow> int \<Rightarrow> int \<Rightarrow> int \<Rightarrow> int \<Rightarrow>
   rat \<Rightarrow> rat \<Rightarrow> exn + region list" where
  "decode_detections nms raw scale pad_x pad_y width height score_threshold iou_threshold =
     (if ndim raw \<noteq> 2 then Inl (ValueError (lit ''unexpected layout output shape''))
      else case detections raw of (dets, needs_nms) \<Rightarrow>
        (case dets of Inl e \<Rightarrow> Inl e
         | Inr ds \<Rightarrow>
             let kept = filter (\<lambda>(b, s, c). s \<ge> score_threshold) ds
             in if kept = [] then Inr []
                else
                  (case (if needs_nms
                         then select kept (nms (map fst kept) (map (fst \<circ> snd) kept) iou_threshold)
                         else Inr kept) of
                     Inl e \<Rightarrow> Inl e
                   | Inr sel \<Rightarrow> Inr (List.map_filter (to_region scale pad_x pad_y width height) sel))))"

definition detect ::
  "(box list \<Rightarrow> rat list \<Rightarrow> rat \<Rightarrow> nat list) \<Rightarrow> (exn + tensor) option \<Rightarrow> int \<Rightarrow> int \<Rightarrow> int \<Rightarrow>
   rat \<Rightarrow> rat \<Rightarrow> region list" where
  \<comment> \<open>the second argument is what the session answers for this image, \<open>None\<close> without a model\<close>
  "detect nms session h w input_size score_threshold iou_threshold =
     (let whole = [\<lparr>bbox = (0, 0, w, h), cls = lit ''page'', order = 0, score = 1\<rparr>]
      in case session of
           None \<Rightarrow> whole
         | Some answer \<Rightarrow>
             (let regions =
                (case letterbox h w input_size of (scale, pad_x, pad_y, _, _) \<Rightarrow>
                   (case answer of Inl e \<Rightarrow> []
                    | Inr raw \<Rightarrow>
                        (case decode_detections nms raw scale pad_x pad_y w h score_threshold
                                iou_threshold of
                           Inl e \<Rightarrow> [] | Inr rs \<Rightarrow> rs)))
              in if regions = [] then whole else assign_reading_order regions w))"

end
