(* ===== verification/Layout_Order.thy ===== *)
theory Layout_Order
  imports Layout
begin

text \<open>
  The reading order: \<open>widest_gap\<close> finds the widest empty band, the XY-cut returns a permutation
  of the regions and reads the columns of a page one after the other, and its "degenerate split"
  exit is never taken on well-formed boxes.
\<close>

section \<open>The widest gap\<close>

definition proper :: "region list \<Rightarrow> bool" where
  \<comment> \<open>no box is inside out\<close>
  "proper rs \<longleftrightarrow> list_all (\<lambda>r. lo X_axis r \<le> hi X_axis r \<and> lo Y_axis r \<le> hi Y_axis r) rs"

lemma proper_axis: "proper rs \<Longrightarrow> r \<in> set rs \<Longrightarrow> lo ax r \<le> hi ax r"
  by (cases ax) (auto simp: proper_def list_all_iff)

definition separates :: "axis \<Rightarrow> int \<Rightarrow> int \<Rightarrow> region list \<Rightarrow> bool" where
  \<comment> \<open>\<open>[a, b]\<close> is an empty band: no region crosses it, and there are regions on both sides\<close>
  "separates ax a b rs \<longleftrightarrow> a < b \<and> list_all (\<lambda>r. hi ax r \<le> a \<or> b \<le> lo ax r) rs
     \<and> list_ex (\<lambda>r. hi ax r \<le> a) rs \<and> list_ex (\<lambda>r. b \<le> lo ax r) rs"

abbreviation max_reach :: "int \<Rightarrow> (int \<times> int) list \<Rightarrow> int" where
  "max_reach reach ivs \<equiv> fold max (map snd ivs) reach"

lemma max_reach_ge: "reach \<le> max_reach reach ivs" "x \<in> set ivs \<Longrightarrow> snd x \<le> max_reach reach ivs"
  by (induction ivs arbitrary: reach) (auto intro: order_trans [OF max.cobounded1] order_trans [OF max.cobounded2])

lemma max_reach_le: "reach \<le> m \<Longrightarrow> (\<And>x. x \<in> set ivs \<Longrightarrow> snd x \<le> m) \<Longrightarrow> max_reach reach ivs \<le> m"
  by (induction ivs arbitrary: reach) auto

lemma gap_loop_Some:
  "gap_loop reach best ivs = Some (w, c) \<Longrightarrow>
   best = Some (w, c) \<or>
   (\<exists>pre s e post. ivs = pre @ (s, e) # post \<and> max_reach reach pre < s \<and>
      w = s - max_reach reach pre \<and> c = (of_int (max_reach reach pre) + of_int s) / 2)"
proof (induction reach best ivs rule: gap_loop.induct)
  case (2 reach best start stop ivs)
  let ?cond = "start > reach \<and> (case best of None \<Rightarrow> True | Some (w, _) \<Rightarrow> start - reach > w)"
  let ?best = "if ?cond then Some (start - reach, (of_int reach + of_int start) / 2) else best"
  from "2.prems" have "gap_loop (max reach stop) ?best ivs = Some (w, c)" by (simp add: Let_def)
  from "2.IH" [OF refl refl this]
  show ?case
  proof
    assume b: "?best = Some (w, c)"
    show ?thesis
    proof (cases ?cond)
      case True
      with b show ?thesis by (intro disjI2 exI [of _ "[]"]) auto
    next
      case False
      with b show ?thesis by simp
    qed
  next
    assume "\<exists>pre s e post. ivs = pre @ (s, e) # post \<and> max_reach (max reach stop) pre < s \<and>
      w = s - max_reach (max reach stop) pre \<and>
      c = (of_int (max_reach (max reach stop) pre) + of_int s) / 2"
    then obtain pre s e post where "ivs = pre @ (s, e) # post" "max_reach (max reach stop) pre < s"
      "w = s - max_reach (max reach stop) pre"
      "c = (of_int (max_reach (max reach stop) pre) + of_int s) / 2" by blast
    then show ?thesis
      by (intro disjI2 exI [of _ "(start, stop) # pre"] exI [of _ s] exI [of _ e] exI [of _ post])
        (simp add: max.commute)
  qed
qed simp

definition better :: "int \<Rightarrow> int \<Rightarrow> (int \<times> rat) option \<Rightarrow> (int \<times> rat) option" where
  "better reach start best =
     (if start > reach \<and> (case best of None \<Rightarrow> True | Some (w, _) \<Rightarrow> start - reach > w)
      then Some (start - reach, (of_int reach + of_int start) / 2) else best)"

lemma gap_loop_Cons:
  "gap_loop reach best ((start, stop) # ivs) = gap_loop (max reach stop) (better reach start best) ivs"
  by (simp add: better_def Let_def)

lemma better_mono: "best = Some (w, c) \<Longrightarrow> \<exists>w' c'. better reach start best = Some (w', c') \<and> w \<le> w'"
proof (cases "start > reach \<and> start - reach > w")
  case True
  then show "best = Some (w, c) \<Longrightarrow> ?thesis"
    by (intro exI [of _ "start - reach"] exI [of _ "(of_int reach + of_int start) / 2"])
      (simp add: better_def)
qed (auto simp: better_def)

lemma better_finds:
  assumes "reach < start"
  shows "\<exists>w c. better reach start best = Some (w, c) \<and> start - reach \<le> w"
proof (cases "case best of None \<Rightarrow> True | Some (w, _) \<Rightarrow> start - reach > w")
  case True
  with assms show ?thesis
    by (intro exI [of _ "start - reach"] exI [of _ "(of_int reach + of_int start) / 2"])
      (simp add: better_def)
qed (auto simp: better_def split: option.splits)

lemma gap_loop_mono:
  "best = Some (w, c) \<Longrightarrow> \<exists>w' c'. gap_loop reach best ivs = Some (w', c') \<and> w \<le> w'"
proof (induction ivs arbitrary: reach best w c)
  case (Cons x ivs)
  obtain start stop where x: "x = (start, stop)" by (cases x)
  obtain w2 c2 where b: "better reach start best = Some (w2, c2)" "w \<le> w2"
    using better_mono [OF Cons.prems] by blast
  show ?case
    using Cons.IH [OF b(1), of "max reach stop"] b(2) unfolding x gap_loop_Cons
    by (meson order_trans)
qed simp

lemma gap_loop_finds:
  "reach \<le> a \<Longrightarrow> a < b \<Longrightarrow> (\<And>x. x \<in> set pre \<Longrightarrow> snd x \<le> a) \<Longrightarrow> b \<le> s \<Longrightarrow>
   \<exists>w c. gap_loop reach best (pre @ (s, e) # post) = Some (w, c) \<and> b - a \<le> w"
proof (induction pre arbitrary: reach best)
  case Nil
  obtain w c where b: "better reach s best = Some (w, c)" "s - reach \<le> w"
    using better_finds [of reach s best] Nil.prems by auto
  obtain w' c' where "gap_loop (max reach e) (better reach s best) post = Some (w', c')" "w \<le> w'"
    using gap_loop_mono [OF b(1)] by blast
  moreover have "b - a \<le> w'" using b(2) \<open>w \<le> w'\<close> Nil.prems by linarith
  ultimately show ?case unfolding append_Nil gap_loop_Cons by blast
next
  case (Cons x pre)
  obtain l h where x: "x = (l, h)" by (cases x)
  have "max reach h \<le> a" using Cons.prems(1) Cons.prems(3) [of x] x by simp
  with Cons show ?case by (simp only: x append_Cons gap_loop_Cons) simp
qed

lemma sorted_split:
  assumes "sorted (pre @ (s, e) # post)" and "x \<in> set post"
  shows "s \<le> fst x"
  using assms by (cases x) (auto simp: sorted_append less_eq_prod_def)

lemma sort_intervals:
  "set (sort (map (\<lambda>r. (lo ax r, hi ax r)) rs)) = (\<lambda>r. (lo ax r, hi ax r)) ` set rs"
  by simp

lemma widest_gap_separates:
  assumes "widest_gap rs ax = Some (w, c)"
  shows "\<exists>a b. separates ax a b rs \<and> w = b - a \<and> c = (of_int a + of_int b) / 2"
proof -
  obtain l h ivs where srt: "sort (map (\<lambda>r. (lo ax r, hi ax r)) rs) = (l, h) # ivs"
    and g: "gap_loop h None ivs = Some (w, c)"
    using assms by (auto simp: widest_gap_def split: list.splits)
  obtain pre s e post where ivs: "ivs = pre @ (s, e) # post" and m: "max_reach h pre < s"
    "w = s - max_reach h pre" "c = (of_int (max_reach h pre) + of_int s) / 2"
    using gap_loop_Some [OF g] by blast
  define a where "a = max_reach h pre"
  have sorted: "sorted (((l, h) # pre) @ (s, e) # post)"
    using sorted_sort [of "map (\<lambda>r. (lo ax r, hi ax r)) rs"] unfolding srt ivs by simp
  have sets: "(\<lambda>r. (lo ax r, hi ax r)) ` set rs = set ((l, h) # pre) \<union> {(s, e)} \<union> set post"
    using sort_intervals [of ax rs] unfolding srt ivs by auto
  have left: "snd x \<le> a" if "x \<in> set ((l, h) # pre)" for x
    using that max_reach_ge(1) [of h pre] max_reach_ge(2) [of x pre h] by (auto simp: a_def)
  have right: "s \<le> fst x" if "x \<in> set post \<union> {(s, e)}" for x
    using that sorted_split [OF sorted, of x] by auto
  have "hi ax r \<le> a \<or> s \<le> lo ax r" if "r \<in> set rs" for r
  proof -
    have "(lo ax r, hi ax r) \<in> set ((l, h) # pre) \<union> {(s, e)} \<union> set post" using that sets by blast
    then show ?thesis using left [of "(lo ax r, hi ax r)"] right [of "(lo ax r, hi ax r)"] by auto
  qed
  have "(l, h) \<in> (\<lambda>r. (lo ax r, hi ax r)) ` set rs" "(s, e) \<in> (\<lambda>r. (lo ax r, hi ax r)) ` set rs"
    unfolding sets by simp_all
  then obtain p q where "p \<in> set rs" "hi ax p = h" "q \<in> set rs" "lo ax q = s" by auto
  moreover from this have "hi ax p \<le> a" using left [of "(l, h)"] by simp
  ultimately have "\<exists>r\<in>set rs. hi ax r \<le> a" "\<exists>r\<in>set rs. s \<le> lo ax r" by auto
  with \<open>\<And>r. r \<in> set rs \<Longrightarrow> hi ax r \<le> a \<or> s \<le> lo ax r\<close> have "separates ax a s rs"
    using m(1) by (auto simp: separates_def list_all_iff list_ex_iff a_def)
  then show ?thesis using m by (auto simp: a_def)
qed

lemma widest_gap_widest:
  assumes "proper rs" and "separates ax a b rs"
  shows "\<exists>w c. widest_gap rs ax = Some (w, c) \<and> b - a \<le> w"
proof -
  define ivs where "ivs = sort (map (\<lambda>r. (lo ax r, hi ax r)) rs)"
  have ab: "a < b" and all: "\<And>r. r \<in> set rs \<Longrightarrow> hi ax r \<le> a \<or> b \<le> lo ax r"
    using assms(2) by (auto simp: separates_def list_all_iff)
  have mem: "x \<in> set ivs \<longleftrightarrow> (\<exists>r\<in>set rs. x = (lo ax r, hi ax r))" for x
    by (auto simp: ivs_def)
  define P where "P = (\<lambda>x :: int \<times> int. snd x \<le> a)"
  define pre where "pre = takeWhile P ivs"
  obtain r where "r \<in> set rs" "b \<le> lo ax r"
    using assms(2) by (auto simp: separates_def list_ex_iff)
  then have "(lo ax r, hi ax r) \<in> set ivs" "\<not> P (lo ax r, hi ax r)"
    using proper_axis [OF assms(1), of r ax] ab by (auto simp: mem P_def)
  then have "\<exists>x\<in>set ivs. \<not> P x" by blast
  then have "dropWhile P ivs \<noteq> []" by (simp add: dropWhile_eq_Nil_conv)
  then obtain s e post where dw: "dropWhile P ivs = (s, e) # post" by (metis neq_Nil_conv prod.exhaust)
  then have split: "ivs = pre @ (s, e) # post" and notP: "\<not> P (s, e)"
    by (metis pre_def takeWhile_dropWhile_id, metis dw hd_dropWhile list.distinct(1) list.sel(1))
  have b: "b \<le> s"
  proof -
    have "(s, e) \<in> set ivs" by (simp add: split)
    then show ?thesis using notP all by (auto simp: mem P_def)
  qed
  have pre: "\<And>x. x \<in> set pre \<Longrightarrow> snd x \<le> a"
    unfolding pre_def by (metis P_def set_takeWhileD)
  have "pre \<noteq> []"
  proof
    assume "pre = []"
    obtain r where r: "r \<in> set rs" "hi ax r \<le> a"
      using assms(2) by (auto simp: separates_def list_ex_iff)
    then have "(lo ax r, hi ax r) \<in> set ivs" by (auto simp: mem)
    moreover have "lo ax r < s" using proper_axis [OF assms(1) r(1), of ax] r(2) ab b by linarith
    moreover have "sorted ivs" by (simp add: ivs_def)
    ultimately show False using split \<open>pre = []\<close> by (auto simp: less_eq_prod_def)
  qed
  then obtain x pre' where x: "pre = x # pre'" by (cases pre) auto
  obtain l h where lh: "x = (l, h)" by (cases x)
  have "\<exists>w c. gap_loop h None (pre' @ (s, e) # post) = Some (w, c) \<and> b - a \<le> w"
    using pre [of x] pre ab b by (intro gap_loop_finds) (simp_all add: x lh)
  then show ?thesis
    unfolding widest_gap_def ivs_def [symmetric] by (simp add: split x lh)
qed

text \<open>
  \<open>widest_gap\<close> finds the widest empty band across an axis: when it answers a width and a
  position, some band of that width, centred there, is crossed by no region and has regions on
  both sides, and no such band is wider; when it answers \<open>None\<close> there is no such band.
\<close>

theorem widest_gap_correct:
  assumes "proper rs"
  shows "case widest_gap rs ax of
     None \<Rightarrow> \<not> separates ax a b rs
   | Some (w, c) \<Rightarrow>
       (\<exists>a' b'. separates ax a' b' rs \<and> w = b' - a' \<and> c = (of_int a' + of_int b') / 2) \<and>
       (separates ax a b rs \<longrightarrow> b - a \<le> w)"
  using widest_gap_separates [of rs ax] widest_gap_widest [OF assms, of ax a b]
  by (auto split: option.splits)

section \<open>The XY-cut\<close>

lemma mset_by_position [simp]: "mset (by_position rs) = mset rs"
  by (simp add: by_position_def)

lemma near_far: "(filter (\<lambda>r. centre ax r \<ge> pos) rs) = filter (\<lambda>r. \<not> centre ax r < pos) rs"
  by (simp add: not_less)

lemma mset_xy_cut: "mset (xy_cut rs g d) = mset rs"
proof (induction rs g d rule: xy_cut.induct)
  case (1 rs g d)
  show ?case
  proof (cases "length rs \<le> 1 \<or> 16 \<le> d \<or> choose_cut rs g = None")
    case True
    then show ?thesis by (auto simp: xy_cut.simps [of rs g d])
  next
    case False
    then obtain pos ax where c: "choose_cut rs g = Some (pos, ax)" by auto
    let ?n = "filter (\<lambda>r. centre ax r < pos) rs" and ?f = "filter (\<lambda>r. centre ax r \<ge> pos) rs"
    show ?thesis
    proof (cases "?n = [] \<or> ?f = []")
      case True
      with False c show ?thesis by (simp add: xy_cut.simps [of rs g d] Let_def)
    next
      case nf: False
      have "mset (xy_cut rs g d) = mset (xy_cut ?n g (Suc d)) + mset (xy_cut ?f g (Suc d))"
        using False nf c by (simp add: xy_cut.simps [of rs g d] Let_def)
      also have "\<dots> = mset ?n + mset ?f"
        using "1.IH" False nf c by (metis)
      also have "\<dots> = mset rs" by (simp add: near_far)
      finally show ?thesis .
    qed
  qed
qed

lemma renumber_length [simp]: "length (renumber i rs) = length rs"
  by (induction i rs rule: renumber.induct) auto

lemma renumber_order: "map order (renumber i rs) = map (\<lambda>n. i + int n) [0..<length rs]"
proof (induction i rs rule: renumber.induct)
  case (2 i r rs)
  have "map (\<lambda>n. i + int n) [0..<Suc (length rs)] = i # map (\<lambda>n. i + 1 + int n) [0..<length rs]"
    by (simp add: map_upt_Suc del: upt_Suc)
  with 2 show ?case by simp
qed simp

lemma renumber_other: "map (\<lambda>r. r\<lparr>order := 0\<rparr>) (renumber i rs) = map (\<lambda>r. r\<lparr>order := 0\<rparr>) rs"
  by (induction i rs rule: renumber.induct) auto

text \<open>
  The reading order is a permutation: \<open>assign_reading_order\<close> returns every region it was given
  exactly once, with nothing but its \<open>order\<close> changed, and the orders count 0, 1, 2, \<open>\<dots>\<close> along the
  list, for any boxes and any page width.
\<close>

theorem reading_order_permutation:
  "mset (map (\<lambda>r. r\<lparr>order := 0\<rparr>) (assign_reading_order rs w)) = mset (map (\<lambda>r. r\<lparr>order := 0\<rparr>) rs)
   \<and> map order (assign_reading_order rs w) = map int [0..<length rs]"
proof (cases "rs = []")
  case True
  then show ?thesis by (simp add: assign_reading_order_def)
next
  case False
  define ys where "ys = xy_cut rs (max (of_int w * (1/100)) 8) 0"
  have m: "mset ys = mset rs" by (simp add: ys_def mset_xy_cut)
  then have l: "length ys = length rs" by (metis size_mset)
  have "mset (map (\<lambda>r. r\<lparr>order := 0\<rparr>) ys) = mset (map (\<lambda>r. r\<lparr>order := 0\<rparr>) rs)"
    using m by simp
  moreover have "assign_reading_order rs w = renumber 0 ys"
    using False by (simp add: assign_reading_order_def ys_def)
  moreover have "map order (renumber 0 ys) = map int [0..<length rs]"
    by (simp add: renumber_order l)
  ultimately show ?thesis by (simp only: renumber_other)
qed

lemma choose_cut_widest:
  assumes "choose_cut rs g = Some (pos, ax)"
  shows "\<exists>w. widest_gap rs ax = Some (w, pos) \<and> g \<le> of_int w"
  using assms
  by (auto simp: choose_cut_def Let_def split: option.splits if_splits prod.splits)

text \<open>A cut puts every region wholly on one side of the gap it was made for.\<close>

lemma centre_side:
  assumes "separates ax a b rs" and "proper rs" and "r \<in> set rs"
    and "pos = (of_int a + of_int b) / 2"
  shows "centre ax r < pos \<longleftrightarrow> hi ax r \<le> a" and "centre ax r \<ge> pos \<longleftrightarrow> b \<le> lo ax r"
proof -
  have ab: "a < b" and side: "hi ax r \<le> a \<or> b \<le> lo ax r"
    using assms(1,3) by (auto simp: separates_def list_all_iff)
  have lh: "lo ax r \<le> hi ax r" using proper_axis [OF assms(2,3)] .
  have "centre ax r < pos \<longleftrightarrow> lo ax r + hi ax r < a + b"
    unfolding centre_def assms(4) by (simp flip: of_int_add add: divide_less_cancel)
  with ab side lh show 1: "centre ax r < pos \<longleftrightarrow> hi ax r \<le> a" by linarith
  then show "centre ax r \<ge> pos \<longleftrightarrow> b \<le> lo ax r" using ab side lh by linarith
qed

text \<open>
  On boxes that are not inside out the "degenerate split" exit of the XY-cut is dead code: a
  chosen cut always leaves regions on both sides, every region on the near side ends before the
  cut and every region on the far side begins after it.
\<close>

theorem xy_cut_splits_cleanly:
  assumes "proper rs" and "choose_cut rs g = Some (pos, ax)"
  shows "filter (\<lambda>r. centre ax r < pos) rs \<noteq> [] \<and> filter (\<lambda>r. centre ax r \<ge> pos) rs \<noteq> []
    \<and> list_all (\<lambda>r. of_int (hi ax r) < pos) (filter (\<lambda>r. centre ax r < pos) rs)
    \<and> list_all (\<lambda>r. pos < of_int (lo ax r)) (filter (\<lambda>r. centre ax r \<ge> pos) rs)"
proof -
  obtain a b where sep: "separates ax a b rs" and pos: "pos = (of_int a + of_int b) / 2"
    using choose_cut_widest [OF assms(2)] widest_gap_separates by blast
  note side = centre_side [OF sep assms(1) _ pos]
  have ab: "of_int a < pos" "pos < of_int b"
    using sep by (simp_all add: separates_def pos)
  have "\<exists>r\<in>set rs. centre ax r < pos" "\<exists>r\<in>set rs. centre ax r \<ge> pos"
    using sep side by (auto simp: separates_def list_ex_iff)
  moreover have "of_int (hi ax r) < pos" if "r \<in> set rs" "centre ax r < pos" for r
    using side(1) [OF that(1)] that(2) ab(1) by (meson of_int_le_iff le_less_trans)
  moreover have "pos < of_int (lo ax r)" if "r \<in> set rs" "centre ax r \<ge> pos" for r
    using side(2) [OF that(1)] that(2) ab(2) by (meson of_int_le_iff less_le_trans)
  ultimately show ?thesis
    by (auto simp: filter_empty_conv list_all_iff)
qed

definition box_region :: "int \<Rightarrow> int \<Rightarrow> int \<Rightarrow> int \<Rightarrow> region" where
  "box_region x0 y0 x1 y1 = \<lparr>bbox = (x0, y0, x1, y1), cls = lit ''text'', order = 0, score = 1\<rparr>"

text \<open>
  C33. Columns are read one after the other. If an empty vertical band \<open>[a, b]\<close>, at least the
  minimum gap wide, divides the page, and it is wider than every other empty vertical band and
  no empty horizontal band is wider, then the XY-cut emits all regions left of the band before
  all regions right of it.
\<close>

theorem columns_read_in_turn:
  assumes "proper rs" and "separates X_axis a b rs" and "g \<le> of_int (b - a)"
    and other: "\<And>a' b'. separates X_axis a' b' rs \<Longrightarrow> (a', b') \<noteq> (a, b) \<Longrightarrow> b' - a' < b - a"
    and horiz: "\<And>a' b'. separates Y_axis a' b' rs \<Longrightarrow> b' - a' \<le> b - a"
  shows "\<exists>left right. xy_cut rs g 0 = left @ right
     \<and> mset left = mset (filter (\<lambda>r. hi X_axis r \<le> a) rs)
     \<and> mset right = mset (filter (\<lambda>r. b \<le> lo X_axis r) rs)"
proof -
  obtain w c where w: "widest_gap rs X_axis = Some (w, c)" "b - a \<le> w"
    using widest_gap_widest [OF assms(1,2)] by blast
  obtain a' b' where "separates X_axis a' b' rs" "w = b' - a'" "c = (of_int a' + of_int b') / 2"
    using widest_gap_separates [OF w(1)] by blast
  with other w(2) have wc: "w = b - a" "c = (of_int a + of_int b) / 2"
    by (metis Pair_inject not_less)+
  have wy: "w' \<le> w" if "widest_gap rs Y_axis = Some (w', c')" for w' c'
    using widest_gap_separates [OF that] horiz wc(1) by blast
  have cut: "choose_cut rs g = Some (c, X_axis)"
    using w(1) wc(1) wy assms(3)
    by (auto simp: choose_cut_def Let_def split: option.splits prod.splits)
  let ?n = "filter (\<lambda>r. centre X_axis r < c) rs" and ?f = "filter (\<lambda>r. centre X_axis r \<ge> c) rs"
  have nf: "?n = filter (\<lambda>r. hi X_axis r \<le> a) rs" "?f = filter (\<lambda>r. b \<le> lo X_axis r) rs"
    using centre_side [OF assms(2,1) _ wc(2)] by (auto intro!: filter_cong)
  have ne: "?n \<noteq> []" "?f \<noteq> []"
    unfolding nf using assms(2) by (auto simp: separates_def list_ex_iff filter_empty_conv)
  have "length rs = length ?n + length ?f"
    using sum_length_filter_compl [of "\<lambda>r. centre X_axis r < c" rs] by (simp add: not_less)
  then have "\<not> length rs \<le> 1" using ne by (cases ?n; cases ?f) auto
  then have "xy_cut rs g 0 = xy_cut ?n g (Suc 0) @ xy_cut ?f g (Suc 0)"
    using cut ne by (simp add: xy_cut.simps [of rs g 0] Let_def)
  then show ?thesis
    using mset_xy_cut nf by metis
qed

section \<open>Concrete pages\<close>

lemma widest_gap_correct_witness:
  "case widest_gap [box_region 0 0 10 10, box_region 30 0 40 10] X_axis of
     None \<Rightarrow> \<not> separates X_axis 12 20 [box_region 0 0 10 10, box_region 30 0 40 10]
   | Some (w, c) \<Rightarrow>
       (\<exists>a' b'. separates X_axis a' b' [box_region 0 0 10 10, box_region 30 0 40 10]
          \<and> w = b' - a' \<and> c = (of_int a' + of_int b') / 2) \<and>
       (separates X_axis 12 20 [box_region 0 0 10 10, box_region 30 0 40 10] \<longrightarrow> 20 - 12 \<le> w)"
  by (rule widest_gap_correct) (simp add: proper_def box_region_def)

lemma two_columns_cut:
  "choose_cut [box_region 0 0 10 10, box_region 30 0 40 10] 8 = Some (20, X_axis)"
  by code_simp

lemma xy_cut_splits_cleanly_witness:
  "filter (\<lambda>r. centre X_axis r < 20) [box_region 0 0 10 10, box_region 30 0 40 10] \<noteq> []
   \<and> filter (\<lambda>r. centre X_axis r \<ge> 20) [box_region 0 0 10 10, box_region 30 0 40 10] \<noteq> []
   \<and> list_all (\<lambda>r. of_int (hi X_axis r) < (20 :: rat))
       (filter (\<lambda>r. centre X_axis r < 20) [box_region 0 0 10 10, box_region 30 0 40 10])
   \<and> list_all (\<lambda>r. (20 :: rat) < of_int (lo X_axis r))
       (filter (\<lambda>r. centre X_axis r \<ge> 20) [box_region 0 0 10 10, box_region 30 0 40 10])"
  by (rule xy_cut_splits_cleanly [where g = 8])
    (simp add: proper_def box_region_def, rule two_columns_cut)

lemma columns_read_in_turn_witness:
  "\<exists>left right. xy_cut [box_region 30 0 40 10, box_region 0 5 10 10] 8 0 = left @ right
     \<and> mset left = mset (filter (\<lambda>r. hi X_axis r \<le> 10) [box_region 30 0 40 10, box_region 0 5 10 10])
     \<and> mset right = mset (filter (\<lambda>r. 30 \<le> lo X_axis r) [box_region 30 0 40 10, box_region 0 5 10 10])"
proof (rule columns_read_in_turn)
  fix a' b'
  assume "separates X_axis a' b' [box_region 30 0 40 10, box_region 0 5 10 10]"
    and "(a', b') \<noteq> (10, 30)"
  then show "b' - a' < 30 - (10 :: int)" by (auto simp: separates_def box_region_def)
qed (auto simp: proper_def separates_def box_region_def)

end
