(* ===== verification/Layout_Tiles.thy ===== *)
theory Layout_Tiles
  imports Layout_Order
begin

text \<open>
  Tiling, cropping and decoding: tiles cover the region they replace and fit the encoder budget,
  the tiling loop stops for every budget of two pixels or more and does not for a budget of one;
  decoded regions lie on the page; a box drawn on the page survives letterboxing and decoding.
\<close>

section \<open>Tiles\<close>

text \<open>\<open>tiles_from y ts\<close>: \<open>ts\<close> are full-height tiles starting at \<open>y\<close>, each \<open>step\<close> below the one
  before, and a last tile that reaches \<open>y1\<close>.\<close>

fun tiles_from :: "int \<Rightarrow> int \<Rightarrow> int \<Rightarrow> int \<Rightarrow> int \<Rightarrow> pystr \<Rightarrow> int \<Rightarrow> region list \<Rightarrow> bool" where
  "tiles_from x0 x1 y1 mh step c y [] = False"
| "tiles_from x0 x1 y1 mh step c y [t] =
     (bbox t = (x0, y, x1, y1) \<and> cls t = c \<and> y < y1 \<and> y1 \<le> y + mh)"
| "tiles_from x0 x1 y1 mh step c y (t # u # ts) =
     (bbox t = (x0, y, x1, y + mh) \<and> cls t = c \<and> y + mh < y1
      \<and> tiles_from x0 x1 y1 mh step c (y + step) (u # ts))"

lemma tile_loop_tiles:
  assumes "1 \<le> step" and "step \<le> mh" and "y < y1"
  shows "\<exists>ts. tile_loop x0 x1 y1 mh step r y = Some ts \<and> tiles_from x0 x1 y1 mh step (cls r) y ts"
  using assms(3)
proof (induction "nat (y1 - y)" arbitrary: y rule: less_induct)
  case less
  show ?case
  proof (cases "y + mh \<ge> y1")
    case True
    with less.prems show ?thesis
      by (simp add: tile_loop.simps [of x0 x1 y1 mh step r y] Let_def)
  next
    case False
    have "nat (y1 - (y + step)) < nat (y1 - y)" using less.prems assms(1) by simp
    moreover have "y + step < y1" using False assms(2) by simp
    ultimately obtain ts where ts: "tile_loop x0 x1 y1 mh step r (y + step) = Some ts"
      "tiles_from x0 x1 y1 mh step (cls r) (y + step) ts"
      using less.hyps by blast
    then obtain u us where u: "ts = u # us" by (cases ts) auto
    with False less.prems ts show ?thesis
      by (simp add: tile_loop.simps [of x0 x1 y1 mh step r y] Let_def)
  qed
qed

lemma tiles_from_height:
  "tiles_from x0 x1 y1 mh step c y ts \<Longrightarrow> 0 < mh \<Longrightarrow> t \<in> set ts \<Longrightarrow>
   lo X_axis t = x0 \<and> hi X_axis t = x1 \<and> cls t = c \<and>
   lo Y_axis t < hi Y_axis t \<and> hi Y_axis t - lo Y_axis t \<le> mh \<and> hi Y_axis t \<le> y1"
  by (induction x0 x1 y1 mh step c y ts rule: tiles_from.induct) auto

lemma tiles_from_ge:
  "tiles_from x0 x1 y1 mh step c y ts \<Longrightarrow> 0 \<le> step \<Longrightarrow> t \<in> set ts \<Longrightarrow> y \<le> lo Y_axis t"
  by (induction x0 x1 y1 mh step c y ts rule: tiles_from.induct) force+

lemma tiles_from_cover:
  "tiles_from x0 x1 y1 mh step c y ts \<Longrightarrow> step \<le> mh \<Longrightarrow> y \<le> z \<Longrightarrow> z < y1 \<Longrightarrow>
   list_ex (\<lambda>t. lo Y_axis t \<le> z \<and> z < hi Y_axis t) ts"
proof (induction x0 x1 y1 mh step c y ts rule: tiles_from.induct)
  case (3 x0 x1 y1 mh step c y t u ts)
  show ?case
  proof (cases "z < y + mh")
    case True
    with 3 show ?thesis by simp
  next
    case False
    with 3 have "list_ex (\<lambda>t. lo Y_axis t \<le> z \<and> z < hi Y_axis t) (u # ts)" by simp
    then show ?thesis by simp
  qed
qed auto

lemma tiles_from_overlap:
  "tiles_from x0 x1 y1 mh step c y (ps @ t # u # qs) \<Longrightarrow> lo Y_axis u = lo Y_axis t + step
     \<and> hi Y_axis t = lo Y_axis t + mh"
proof (induction ps arbitrary: y)
  case Nil
  then show ?case by (cases qs) auto
next
  case (Cons p ps)
  then show ?case by (cases ps) auto
qed

definition tall :: "int \<Rightarrow> region \<Rightarrow> bool" where
  "tall mh r \<longleftrightarrow> mh < hi Y_axis r - lo Y_axis r"

lemma tile_region_tall:
  assumes "2 \<le> mh" and "0 \<le> overlap" and "tall mh r"
  shows "\<exists>ts. tile_region mh overlap r = Some ts \<and>
     tiles_from (lo X_axis r) (hi X_axis r) (hi Y_axis r) mh (max (mh - overlap) (mh div 2)) (cls r)
       (lo Y_axis r) ts"
proof -
  obtain x0 y0 x1 y1 where b: "bbox r = (x0, y0, x1, y1)" by (cases "bbox r")
  let ?step = "max (mh - overlap) (mh div 2)"
  have "1 \<le> ?step" "?step \<le> mh" using assms(1,2) by linarith+
  moreover have "y0 < y1" using assms(1,3) b by (simp add: tall_def)
  ultimately show ?thesis
    using tile_loop_tiles [of ?step mh y0 y1 x0 x1 r] assms(1,3) b
    by (auto simp: tile_region_def tall_def)
qed

lemma tile_all_Some:
  assumes "2 \<le> mh" and "0 \<le> overlap"
  shows "\<exists>ts. tile_all mh overlap rs = Some ts"
proof (induction rs)
  case (Cons r rs)
  have "\<exists>ts. tile_region mh overlap r = Some ts"
  proof (cases "tall mh r")
    case True
    then show ?thesis using tile_region_tall [OF assms] by blast
  next
    case False
    then show ?thesis by (cases "bbox r") (auto simp: tile_region_def tall_def)
  qed
  with Cons show ?case by auto
qed simp

text \<open>
  Tiling is total: with a budget of at least two pixels and a non-negative overlap, \<open>tile\<close>
  returns for every list of regions.
\<close>

theorem tile_terminates:
  assumes "2 \<le> mh" and "0 \<le> overlap"
  shows "\<exists>ts. tile rs mh overlap = Some ts"
  using tile_all_Some [OF assms, of rs] by (auto simp: tile_def)

theorem tile_terminates_witness:
  "\<exists>ts. tile [box_region 0 0 10 5000] 1600 64 = Some ts"
  by (rule tile_terminates) simp_all

text \<open>
  C31. What tiling promises for an oversized region: every tile spans the region's width, keeps
  its class, is at most the budget high and lies inside the region; every row of the region is
  in some tile; and each tile begins exactly \<open>min overlap (budget - budget div 2)\<close> rows above
  the end of the tile before it.
\<close>

theorem tile_region_covers:
  assumes "2 \<le> mh" and "0 \<le> overlap" and "tall mh r"
  shows "\<exists>ts. tile_region mh overlap r = Some ts \<and>
     list_all (\<lambda>t. lo X_axis t = lo X_axis r \<and> hi X_axis t = hi X_axis r \<and> cls t = cls r \<and>
        lo Y_axis r \<le> lo Y_axis t \<and> lo Y_axis t < hi Y_axis t \<and> hi Y_axis t \<le> hi Y_axis r \<and>
        hi Y_axis t - lo Y_axis t \<le> mh) ts \<and>
     (\<forall>z. lo Y_axis r \<le> z \<and> z < hi Y_axis r \<longrightarrow>
        list_ex (\<lambda>t. lo Y_axis t \<le> z \<and> z < hi Y_axis t) ts) \<and>
     (\<forall>ps t u qs. ts = ps @ t # u # qs \<longrightarrow>
        hi Y_axis t - lo Y_axis u = min overlap (mh - mh div 2))"
proof -
  obtain ts where ts: "tile_region mh overlap r = Some ts"
    "tiles_from (lo X_axis r) (hi X_axis r) (hi Y_axis r) mh (max (mh - overlap) (mh div 2)) (cls r)
       (lo Y_axis r) ts"
    using tile_region_tall [OF assms] by blast
  let ?step = "max (mh - overlap) (mh div 2)"
  have s: "0 \<le> ?step" "?step \<le> mh" "0 < mh" using assms(1,2) by linarith+
  have "\<forall>ps t u qs. ts = ps @ t # u # qs \<longrightarrow> hi Y_axis t - lo Y_axis u = min overlap (mh - mh div 2)"
    using tiles_from_overlap ts(2) by fastforce
  moreover have "\<forall>z. lo Y_axis r \<le> z \<and> z < hi Y_axis r \<longrightarrow>
      list_ex (\<lambda>t. lo Y_axis t \<le> z \<and> z < hi Y_axis t) ts"
    using tiles_from_cover [OF ts(2) s(2)] by blast
  ultimately show ?thesis
    using ts(1) tiles_from_height [OF ts(2) s(3)] tiles_from_ge [OF ts(2) s(1)]
    by (auto simp: list_all_iff)
qed

theorem tile_region_covers_witness:
  "\<exists>ts. tile_region 1600 64 (box_region 0 0 10 5000) = Some ts \<and>
     list_all (\<lambda>t. lo X_axis t = lo X_axis (box_region 0 0 10 5000)
        \<and> hi X_axis t = hi X_axis (box_region 0 0 10 5000) \<and> cls t = cls (box_region 0 0 10 5000) \<and>
        lo Y_axis (box_region 0 0 10 5000) \<le> lo Y_axis t \<and> lo Y_axis t < hi Y_axis t \<and>
        hi Y_axis t \<le> hi Y_axis (box_region 0 0 10 5000) \<and> hi Y_axis t - lo Y_axis t \<le> 1600) ts \<and>
     (\<forall>z. lo Y_axis (box_region 0 0 10 5000) \<le> z \<and> z < hi Y_axis (box_region 0 0 10 5000) \<longrightarrow>
        list_ex (\<lambda>t. lo Y_axis t \<le> z \<and> z < hi Y_axis t) ts) \<and>
     (\<forall>ps t u qs. ts = ps @ t # u # qs \<longrightarrow>
        hi Y_axis t - lo Y_axis u = min 64 (1600 - 1600 div 2))"
  by (rule tile_region_covers) (simp_all add: tall_def box_region_def)

lemma tile_loop_stuck:
  assumes "tile_loop x0 x1 y1 mh step r y = Some ts" and "step = 0" and "y + mh < y1" and "0 < mh"
  shows False
proof -
  have "step = 0 \<longrightarrow> y + mh < y1 \<longrightarrow> 0 < mh \<longrightarrow> False"
  proof (rule tile_loop.raw_induct
      [where P = "\<lambda>x0 x1 y1 mh step r y ts. step = 0 \<longrightarrow> y + mh < y1 \<longrightarrow> 0 < mh \<longrightarrow> False", OF _ assms(1)])
    fix f :: "int \<Rightarrow> int \<Rightarrow> int \<Rightarrow> int \<Rightarrow> int \<Rightarrow> region \<Rightarrow> int \<Rightarrow> region list option"
      and x0 x1 y1 mh step r y ts
    assume IH: "\<And>x0 x1 y1 mh step r y ts. f x0 x1 y1 mh step r y = Some ts \<Longrightarrow>
        step = 0 \<longrightarrow> y + mh < y1 \<longrightarrow> 0 < mh \<longrightarrow> False"
      and eq: "(if y < y1 then
          (let bottom = min (y + mh) y1;
               t = \<lparr>bbox = (x0, y, x1, bottom), cls = cls r, order = order r, score = score r\<rparr>
           in if bottom \<ge> y1 then Some [t]
              else Option.bind (f x0 x1 y1 mh step r (y + step)) (\<lambda>ts. Some (t # ts)))
        else Some []) = Some ts"
    show "step = 0 \<longrightarrow> y + mh < y1 \<longrightarrow> 0 < mh \<longrightarrow> False"
    proof (intro impI)
      assume a: "step = 0" "y + mh < y1" "0 < mh"
      with eq obtain us where "f x0 x1 y1 mh step r y = Some us"
        by (auto simp: Let_def bind_eq_Some_conv split: if_splits)
      then show False using IH a by blast
    qed
  qed
  with assms(2-4) show False by blast
qed

text \<open>
  The one configuration for which tiling never returns: with a budget of one pixel
  (\<open>tile_max_height = 1\<close>, which the settings accept) and an overlap of one or more the step is 0,
  and on any region of two rows or more the loop emits the same tile for ever.
\<close>

theorem tile_diverges_at_budget_one:
  assumes "1 \<le> overlap" and "tall 1 r"
  shows "tile [r] 1 overlap = None"
proof -
  obtain x0 y0 x1 y1 where b: "bbox r = (x0, y0, x1, y1)" by (cases "bbox r")
  have "max (1 - overlap) (1 div 2) = 0" using assms(1) by simp
  then have "tile_region 1 overlap r = tile_loop x0 x1 y1 1 0 r y0"
    using b assms(2) by (simp add: tile_region_def tall_def)
  moreover have "tile_loop x0 x1 y1 1 0 r y0 = None"
    using tile_loop_stuck [of x0 x1 y1 1 0 r y0] b assms(2)
    by (cases "tile_loop x0 x1 y1 1 0 r y0") (auto simp: tall_def)
  ultimately show ?thesis by (simp add: tile_def)
qed

theorem tile_diverges_at_budget_one_witness: "tile [box_region 0 0 10 2] 1 64 = None"
  by (rule tile_diverges_at_budget_one) (simp_all add: tall_def box_region_def)

end
