(* ===== verification/Layout_Decode.thy ===== *)
theory Layout_Decode
  imports Layout_Order
begin

text \<open>
  Decoding of the detector's tensor, the detector with its whole-page fallback, the letterbox and
  the crop: every region lies on the page, letterboxing is undone exactly, no crop is empty.
\<close>

definition on_page :: "int \<Rightarrow> int \<Rightarrow> region \<Rightarrow> bool" where
  \<comment> \<open>inside a page of the given width and height, and not inside out\<close>
  "on_page w h r \<longleftrightarrow> 0 \<le> lo X_axis r \<and> lo X_axis r \<le> hi X_axis r \<and> hi X_axis r \<le> w \<and>
     0 \<le> lo Y_axis r \<and> lo Y_axis r \<le> hi Y_axis r \<and> hi Y_axis r \<le> h"

lemma to_region_Some:
  assumes "to_region scale px py w h d = Some r"
  shows "on_page w h r \<and> min_region_px \<le> hi X_axis r - lo X_axis r
     \<and> min_region_px \<le> hi Y_axis r - lo Y_axis r \<and> cls r \<notin> set skip_classes
     \<and> score r = fst (snd d) \<and> order r = 0"
proof -
  obtain x0 y0 x1 y1 sc k where d: "d = ((x0, y0, x1, y1), sc, k)" by (metis prod.exhaust)
  define name where "name = (if 0 \<le> k \<and> k < int (length class_names)
                  then class_names ! nat k else lit ''text'')"
  define a where "a = max (floor ((x0 - of_int px) / scale)) 0"
  define b where "b = max (floor ((y0 - of_int py) / scale)) 0"
  define c where "c = min (ceiling ((x1 - of_int px) / scale)) w"
  define e where "e = min (ceiling ((y1 - of_int py) / scale)) h"
  have ab: "0 \<le> a" "0 \<le> b" "c \<le> w" "e \<le> h" by (simp_all add: a_def b_def c_def e_def)
  have "(if name \<in> set skip_classes then None
     else if c - a < min_region_px \<or> e - b < min_region_px then None
     else Some \<lparr>bbox = (a, b, c, e), cls = name, order = 0, score = sc\<rparr>) = Some r"
    using assms unfolding d to_region.simps Let_def name_def a_def b_def c_def e_def .
  then have "name \<notin> set skip_classes" "\<not> c - a < min_region_px" "\<not> e - b < min_region_px"
    "r = \<lparr>bbox = (a, b, c, e), cls = name, order = 0, score = sc\<rparr>"
    by (simp_all split: if_splits)
  with ab show ?thesis by (simp add: on_page_def min_region_px_def d)
qed

declare to_region.simps [simp del]

lemma map_exn_Inr: "map_exn f xs = Inr ys \<Longrightarrow> y \<in> set ys \<Longrightarrow> \<exists>x\<in>set xs. f x = Inr y"
  by (induction xs arbitrary: ys) (auto split: sum.splits)

lemma select_subset: "select xs sel = Inr ys \<Longrightarrow> set ys \<subseteq> set xs"
  unfolding select_def using map_exn_Inr by (fastforce split: if_splits)

lemma map_filter_mem: "y \<in> set (List.map_filter f xs) \<Longrightarrow> \<exists>x\<in>set xs. f x = Some y"
  by (auto simp: List.map_filter_def)

lemma decode_kept:
  assumes "decode_detections nms raw scale px py w h thr iou = Inr rs" and "r \<in> set rs"
  shows "\<exists>d. to_region scale px py w h d = Some r \<and> thr \<le> fst (snd d)"
proof -
  obtain dets needs where dn: "detections raw = (dets, needs)" by (cases "detections raw")
  have nd: "ndim raw = 2" using assms(1) by (simp add: decode_detections_def split: if_splits)
  obtain ds where ds: "dets = Inr ds"
    using assms(1) nd by (cases dets) (simp_all add: decode_detections_def dn)
  define kept where "kept = filter (\<lambda>(b, s, c). s \<ge> thr) ds"
  define sel where "sel = (if needs then select kept (nms (map fst kept) (map (fst \<circ> snd) kept) iou)
      else Inr kept)"
  have ne: "kept \<noteq> []" using assms by (auto simp: decode_detections_def dn ds nd kept_def [symmetric])
  then have "(case sel of Inl e \<Rightarrow> Inl e
      | Inr s \<Rightarrow> Inr (List.map_filter (to_region scale px py w h) s)) = Inr rs"
    using assms(1) nd by (simp add: decode_detections_def dn ds kept_def [symmetric] sel_def [symmetric] Let_def)
  then obtain s where s: "sel = Inr s" "rs = List.map_filter (to_region scale px py w h) s"
    by (cases sel) auto
  have "set s \<subseteq> set kept"
    using s(1) select_subset [of kept _ s] by (auto simp: sel_def split: if_splits)
  then have "thr \<le> fst (snd d)" if "d \<in> set s" for d using that by (auto simp: kept_def)
  moreover obtain d where "d \<in> set s" "to_region scale px py w h d = Some r"
    using assms(2) map_filter_mem unfolding s(2) by metis
  ultimately show ?thesis by blast
qed

lemma decode_on_page:
  assumes "decode_detections nms raw scale px py w h thr iou = Inr rs" and "r \<in> set rs"
  shows "on_page w h r \<and> min_region_px \<le> hi X_axis r - lo X_axis r
     \<and> min_region_px \<le> hi Y_axis r - lo Y_axis r \<and> cls r \<notin> set skip_classes \<and> thr \<le> score r"
  using decode_kept [OF assms] to_region_Some by force

definition det_row :: "rat \<Rightarrow> int \<Rightarrow> int \<Rightarrow> int \<Rightarrow> int \<Rightarrow> int \<Rightarrow> int \<Rightarrow> rat \<Rightarrow> rat \<Rightarrow> rat list" where
  \<comment> \<open>the v10-style row for the page box \<open>(x0, y0, x1, y1)\<close>, in letterbox pixels\<close>
  "det_row scale px py x0 y0 x1 y1 sc c =
     [of_int x0 * scale + of_int px, of_int y0 * scale + of_int py,
      of_int x1 * scale + of_int px, of_int y1 * scale + of_int py, sc, c]"

text \<open>
  Whatever tensor the session returns, in either export layout and whatever the suppression
  routine selects, decoding yields only regions that lie on the page, are at least 16 pixels wide
  and high, score at least the threshold and belong to no skipped class.
\<close>

theorem decode_regions_valid:
  assumes "decode_detections nms raw scale px py w h thr iou = Inr rs"
  shows "list_all (\<lambda>r. on_page w h r \<and> min_region_px \<le> hi X_axis r - lo X_axis r
     \<and> min_region_px \<le> hi Y_axis r - lo Y_axis r \<and> cls r \<notin> set skip_classes \<and> thr \<le> score r) rs"
  using decode_on_page [OF assms] by (simp add: list_all_iff)

lemma decode_example:
  "decode_detections (\<lambda>_ _ _. []) \<lparr>ndim = 2, rows = [det_row 2 3 5 10 20 60 90 (1/2) 1]\<rparr> 2 3 5 100 200
     (3/10) (9/20) = Inr [\<lparr>bbox = (10, 20, 60, 90), cls = lit ''text'', order = 0, score = 1/2\<rparr>]"
  by code_simp

theorem decode_regions_valid_witness:
  "list_all (\<lambda>r. on_page 100 200 r \<and> min_region_px \<le> hi X_axis r - lo X_axis r
     \<and> min_region_px \<le> hi Y_axis r - lo Y_axis r \<and> cls r \<notin> set skip_classes \<and> 3/10 \<le> score r)
     [\<lparr>bbox = (10, 20, 60, 90), cls = lit ''text'', order = 0, score = 1/2\<rparr>]"
  by (rule decode_regions_valid [OF decode_example])



section \<open>The detector\<close>

lemma assign_regions:
  "set (map (\<lambda>r. r\<lparr>order := 0\<rparr>) (assign_reading_order rs w)) = set (map (\<lambda>r. r\<lparr>order := 0\<rparr>) rs)"
proof (cases "rs = []")
  case False
  define ys where "ys = xy_cut rs (max (of_int w * (1/100)) 8) 0"
  have "set ys = set rs" by (metis mset_xy_cut set_mset_mset ys_def)
  moreover have "assign_reading_order rs w = renumber 0 ys"
    using False by (simp add: assign_reading_order_def ys_def)
  ultimately show ?thesis by (simp only: renumber_other set_map)
qed (simp add: assign_reading_order_def)

lemma on_page_order [simp]: "on_page w h (r\<lparr>order := i\<rparr>) = on_page w h r"
proof -
  have "lo ax (r\<lparr>order := i\<rparr>) = lo ax r" "hi ax (r\<lparr>order := i\<rparr>) = hi ax r" for ax
    by (cases ax; simp)+
  then show ?thesis by (simp add: on_page_def)
qed

lemma assign_on_page:
  "list_all (on_page w h) rs \<Longrightarrow> list_all (on_page w h) (assign_reading_order rs v)"
proof (unfold list_all_iff, rule ballI)
  fix r assume all: "\<forall>r\<in>set rs. on_page w h r" and r: "r \<in> set (assign_reading_order rs v)"
  then have "r\<lparr>order := 0\<rparr> \<in> set (map (\<lambda>r. r\<lparr>order := 0\<rparr>) rs)"
    using assign_regions [of rs v] by (metis image_eqI set_map)
  then obtain q where "q \<in> set rs" "r\<lparr>order := 0\<rparr> = q\<lparr>order := 0\<rparr>" by auto
  with all have "on_page w h (r\<lparr>order := 0\<rparr>)" by simp
  then show "on_page w h r" by simp
qed

lemma assign_order: "map order (assign_reading_order rs w) = map int [0..<length rs]"
proof (cases "rs = []")
  case False
  then show ?thesis
    by (simp add: assign_reading_order_def renumber_order mset_eq_length [OF mset_xy_cut])
qed (simp add: assign_reading_order_def)

lemma assign_length: "length (assign_reading_order rs w) = length rs"
  using assign_order [of rs w] by (metis length_map length_upt minus_nat.diff_0)

text \<open>
  The detector always answers: with no model, a failing session, an undecodable tensor or no
  detection above the threshold it falls back to the whole page, and in every case the result is
  a non-empty list of regions on the page whose orders count 0, 1, 2, \<open>\<dots>\<close>.
\<close>

theorem detect_total:
  assumes "0 \<le> h" and "0 \<le> w"
  shows "let rs = detect nms session h w input_size thr iou
     in rs \<noteq> [] \<and> list_all (on_page w h) rs \<and> map order rs = map int [0..<length rs]"
proof -
  define whole where "whole = [\<lparr>bbox = (0, 0, w, h), cls = lit ''page'', order = 0, score = 1\<rparr>]"
  have W: "whole \<noteq> [] \<and> list_all (on_page w h) whole \<and> map order whole = map int [0..<length whole]"
    using assms by (simp add: whole_def on_page_def)
  show ?thesis
  proof (cases "\<exists>rs. rs \<noteq> [] \<and> list_all (on_page w h) rs
      \<and> detect nms session h w input_size thr iou = assign_reading_order rs w")
    case True
    then show ?thesis
      using assign_on_page assign_order assign_length
      by (metis (no_types, lifting) length_0_conv)
  next
    case False
    then have "detect nms session h w input_size thr iou = whole"
      using decode_on_page
      by (force simp: detect_def whole_def Let_def list_all_iff split: option.splits sum.splits prod.splits if_splits)
    then show ?thesis using W by simp
  qed
qed

theorem detect_total_witness:
  "let rs = detect (\<lambda>_ _ _. []) (Some (Inl IndexError)) 300 200 1024 (3/10) (9/20)
     in rs \<noteq> [] \<and> list_all (on_page 200 300) rs \<and> map order rs = map int [0..<length rs]"
  by (rule detect_total) simp_all

section \<open>Crop\<close>

text \<open>
  A crop is never empty and never leaves the image: on an image of at least one pixel, for any
  box and any padding, the rectangle is non-empty and inside the image; and when the padding is
  not negative and the box overlaps the image, it contains the visible part of the box.
\<close>

theorem crop_inside:
  assumes "0 < h" and "0 < w"
  shows "case crop h w r pad of (a, b, c, d) \<Rightarrow>
     0 \<le> a \<and> a < c \<and> c \<le> w \<and> 0 \<le> b \<and> b < d \<and> d \<le> h \<and>
     (0 \<le> pad \<and> max (lo X_axis r) 0 < min (hi X_axis r) w \<and> max (lo Y_axis r) 0 < min (hi Y_axis r) h \<longrightarrow>
        a \<le> max (lo X_axis r) 0 \<and> min (hi X_axis r) w \<le> c \<and>
        b \<le> max (lo Y_axis r) 0 \<and> min (hi Y_axis r) h \<le> d)"
  using assms by (cases "bbox r") (auto simp: crop_def Let_def)

theorem crop_inside_witness:
  "case crop 300 200 (box_region 190 10 260 40) 4 of (a, b, c, d) \<Rightarrow>
     0 \<le> a \<and> a < c \<and> c \<le> 200 \<and> 0 \<le> b \<and> b < d \<and> d \<le> 300 \<and>
     (0 \<le> (4 :: int) \<and> max (lo X_axis (box_region 190 10 260 40)) 0 < min (hi X_axis (box_region 190 10 260 40)) 200 \<and>
        max (lo Y_axis (box_region 190 10 260 40)) 0 < min (hi Y_axis (box_region 190 10 260 40)) 300 \<longrightarrow>
        a \<le> max (lo X_axis (box_region 190 10 260 40)) 0 \<and> min (hi X_axis (box_region 190 10 260 40)) 200 \<le> c \<and>
        b \<le> max (lo Y_axis (box_region 190 10 260 40)) 0 \<and> min (hi Y_axis (box_region 190 10 260 40)) 300 \<le> d)"
  by (rule crop_inside) simp_all

end
