(* ===== verification/Ratelimit.thy ===== *)
theory Ratelimit
  imports Py_Effects
begin

text \<open>
  \<open>common/ratelimit.py\<close>: the token bucket that runs as a Lua script inside Redis, the rate limiter
  that calls it and fails open, and the tenants' daily page quota. Clock readings are arguments,
  in milliseconds; the script's numbers are exact rationals (the code's are doubles).

  Redis keeps a bucket under a key that expires. The interface \<open>expiring_store\<close> states what the
  code relies on: what is put under a key is read back until its time to live is over and is gone
  afterwards, and other keys are not touched. \<open>memory_store\<close> is the instance the examples run on.
\<close>

section \<open>The script\<close>

record bucket =
  tokens :: rat
  ts :: int

record bucket_reply =
  allowed :: bool
  left :: int
  retry_after_ms :: int

definition refill :: "rat \<Rightarrow> rat \<Rightarrow> int \<Rightarrow> bucket option \<Rightarrow> rat" where
  \<comment> \<open>the tokens after the elapsed time has been credited; a missing bucket is a full one\<close>
  "refill rate burst now state =
     (let (tokens, ts) = (case state of None \<Rightarrow> (burst, now) | Some b \<Rightarrow> (tokens b, ts b));
          elapsed = of_int (max 0 (now - ts)) / 1000
      in min burst (tokens + elapsed * rate))"

definition bucket_lua :: "rat \<Rightarrow> rat \<Rightarrow> int \<Rightarrow> rat \<Rightarrow> bucket option \<Rightarrow> bucket_reply \<times> bucket \<times> int" where
  \<comment> \<open>the reply, the bucket written back and the key's time to live in milliseconds\<close>
  "bucket_lua rate burst now cost state =
     (let tokens = refill rate burst now state;
          ok = (tokens \<ge> cost);
          tokens' = (if ok then tokens - cost else tokens);
          retry_after = (if ok then 0 else \<lceil>((cost - tokens) / rate) * 1000\<rceil>)
      in (\<lparr>allowed = ok, left = \<lfloor>tokens'\<rfloor>, retry_after_ms = retry_after\<rparr>,
          \<lparr>tokens = tokens', ts = now\<rparr>,
          \<lceil>(burst / rate) * 1000\<rceil> + 1000))"

record 's bucket_store =
  read_bucket :: "pystr \<Rightarrow> int \<Rightarrow> 's \<Rightarrow> bucket option"
  write_bucket :: "pystr \<Rightarrow> bucket \<Rightarrow> int \<Rightarrow> int \<Rightarrow> 's \<Rightarrow> 's"

definition run_script ::
  "'s bucket_store \<Rightarrow> pystr \<Rightarrow> rat \<Rightarrow> rat \<Rightarrow> int \<Rightarrow> rat \<Rightarrow> 's \<Rightarrow> bucket_reply \<times> 's" where
  "run_script S key rate burst now cost s =
     (case bucket_lua rate burst now cost (read_bucket S key now s) of
        (reply, b, ttl) \<Rightarrow> (reply, write_bucket S key b ttl now s))"

section \<open>The limiter\<close>

record limit_decision =
  ok :: bool
  remaining :: int
  retry_after_s :: rat
  reason :: pystr

definition open_decision :: limit_decision where
  "open_decision = \<lparr>ok = True, remaining = 0, retry_after_s = 0, reason = []\<rparr>"

definition limiter_check ::
  "(pystr \<Rightarrow> rat \<Rightarrow> rat \<Rightarrow> int \<Rightarrow> rat \<Rightarrow> ('w, bucket_reply) prog) \<Rightarrow>
   rat \<Rightarrow> rat \<Rightarrow> int \<Rightarrow> pystr \<Rightarrow> rat \<Rightarrow> ('w, limit_decision) prog" where
  \<comment> \<open>the script call is a program that may raise; any exception admits the request\<close>
  "limiter_check script rate burst now key cost =
     (if rate \<le> 0 then retE open_decision
      else catchE
        (bindE (script (lit ''rl:'' @ key) rate burst now cost) (\<lambda>r. retE \<lparr>ok = allowed r, remaining = left r,
            retry_after_s = py_round_n (of_int (retry_after_ms r) / 1000) 2,
            reason = (if allowed r then [] else lit ''rate_limit'')\<rparr>))
        (\<lambda>e. retE open_decision))"

definition retry_after_header :: "limit_decision \<Rightarrow> int" where
  \<comment> \<open>the \<open>Retry-After\<close> header the gateway sends with a 429 (gateway/auth.py), in seconds\<close>
  "retry_after_header d = max \<lfloor>retry_after_s d\<rfloor> 1"

section \<open>The page quota\<close>

definition quota_key :: "pystr \<Rightarrow> pystr \<Rightarrow> pystr" where
  \<comment> \<open>the second argument is the current UTC day, \<open>%Y%m%d\<close>\<close>
  "quota_key tenant day = lit ''quota:'' @ tenant @ lit '':'' @ day"

definition quota_used :: "(pystr \<Rightarrow> ('w, pystr option) prog) \<Rightarrow> pystr \<Rightarrow> pystr \<Rightarrow> ('w, int) prog" where
  "quota_used get tenant day =
     catchE
       (bindE (get (quota_key tenant day)) (\<lambda>v.
          case v of None \<Rightarrow> retE 0
          | Some t \<Rightarrow> if t = [] then retE 0
              else (case parse_int t of Some n \<Rightarrow> retE n | None \<Rightarrow> raiseE (ValueError t))))
       (\<lambda>e. retE 0)"

definition quota_check ::
  "(pystr \<Rightarrow> ('w, pystr option) prog) \<Rightarrow> int \<Rightarrow> pystr \<Rightarrow> pystr \<Rightarrow> int \<Rightarrow> ('w, limit_decision) prog" where
  "quota_check get limit tenant day pages =
     (if limit \<le> 0 then retE open_decision
      else bindE (quota_used get tenant day) (\<lambda>used.
        if used + pages > limit
        then retE \<lparr>ok = False, remaining = max (limit - used) 0, retry_after_s = 0, reason = lit ''quota''\<rparr>
        else retE \<lparr>ok = True, remaining = limit - used - pages, retry_after_s = 0, reason = []\<rparr>))"

definition quota_consume ::
  "(pystr \<Rightarrow> int \<Rightarrow> int \<Rightarrow> ('w, int) prog) \<Rightarrow> int \<Rightarrow> pystr \<Rightarrow> pystr \<Rightarrow> int \<Rightarrow> ('w, int) prog" where
  \<comment> \<open>\<open>incr key n ttl\<close> is the transaction \<open>INCRBY; EXPIRE\<close>\<close>
  "quota_consume incr limit tenant day pages =
     (if limit \<le> 0 \<or> pages \<le> 0 then retE 0
      else catchE (incr (quota_key tenant day) pages 172800) (\<lambda>e. retE 0))"

section \<open>The store\<close>

text \<open>Requests on one key, at the given clock readings: the replies.\<close>

primrec serve ::
  "'s bucket_store \<Rightarrow> pystr \<Rightarrow> rat \<Rightarrow> rat \<Rightarrow> rat \<Rightarrow> int list \<Rightarrow> 's \<Rightarrow> bucket_reply list" where
  "serve S key rate burst cost [] s = []"
| "serve S key rate burst cost (now # nows) s =
     (case run_script S key rate burst now cost s of
        (r, s') \<Rightarrow> r # serve S key rate burst cost nows s')"

locale expiring_store =
  fixes S :: "'s bucket_store"
  assumes read_written: "t \<le> t' \<Longrightarrow>
      read_bucket S k' t' (write_bucket S k b ttl t s) =
        (if k' = k then (if t' < t + ttl then Some b else None) else read_bucket S k' t' s)"

type_synonym memory = "(pystr \<times> bucket \<times> int) list"

definition memory_store :: "memory bucket_store" where
  "memory_store =
     \<lparr>read_bucket = (\<lambda>k now s. case map_of s k of None \<Rightarrow> None
        | Some (b, deadline) \<Rightarrow> if now < deadline then Some b else None),
      write_bucket = (\<lambda>k b ttl now s. (k, b, now + ttl) # s)\<rparr>"

interpretation mem: expiring_store memory_store
  by unfold_locales (auto simp: memory_store_def)

section \<open>The bucket without expiry\<close>

text \<open>The specification: one bucket that is never forgotten. \<open>spec_run\<close> folds the script over the
  clock readings of the requests and returns the replies.\<close>

fun spec_run :: "rat \<Rightarrow> rat \<Rightarrow> rat \<Rightarrow> int list \<Rightarrow> bucket option \<Rightarrow> bucket_reply list" where
  "spec_run rate burst cost [] b = []"
| "spec_run rate burst cost (now # nows) b =
     (case bucket_lua rate burst now cost b of (r, b', _) \<Rightarrow> r # spec_run rate burst cost nows (Some b'))"

definition bucket_ok :: "rat \<Rightarrow> bucket \<Rightarrow> bool" where
  "bucket_ok burst b \<longleftrightarrow> 0 \<le> tokens b \<and> tokens b \<le> burst"

lemma refill_le: "refill rate burst now b \<le> burst"
  by (simp add: refill_def Let_def split: option.splits)

lemma refill_nonneg:
  "0 \<le> rate \<Longrightarrow> 0 \<le> burst \<Longrightarrow> (\<And>b'. b = Some b' \<Longrightarrow> bucket_ok burst b') \<Longrightarrow> 0 \<le> refill rate burst now b"
  by (auto simp: refill_def Let_def bucket_ok_def split: option.splits)

lemma refill_ge:
  "0 \<le> rate \<Longrightarrow> b = Some b' \<Longrightarrow> bucket_ok burst b' \<Longrightarrow> tokens b' \<le> refill rate burst now b"
  by (auto simp: refill_def Let_def bucket_ok_def)

lemma refill_elapsed:
  assumes "0 \<le> rate" and "ts b \<le> now"
  shows "refill rate burst now (Some b) \<le> tokens b + of_int (now - ts b) / 1000 * rate"
  using assms by (simp add: refill_def)

lemma refill_empty [simp]: "refill rate burst now None = burst"
  by (simp add: refill_def)

lemma bucket_lua_ok:
  assumes "0 \<le> rate" "0 \<le> burst" "0 \<le> cost" and "\<And>b'. b = Some b' \<Longrightarrow> bucket_ok burst b'"
  shows "bucket_ok burst (fst (snd (bucket_lua rate burst now cost b)))"
  using refill_nonneg [OF assms(1,2) assms(4)] refill_le [of rate burst now b] assms(3)
  by (auto simp: bucket_lua_def Let_def bucket_ok_def)

text \<open>Once the key's time to live is over, the bucket would have been full again anyway.\<close>

lemma expired_is_full:
  assumes "0 < rate" and "bucket_ok burst b" and "ts b + \<lceil>(burst / rate) * 1000\<rceil> + 1000 \<le> now"
  shows "refill rate burst now (Some b) = burst"
proof -
  have "(burst / rate) * 1000 \<le> of_int \<lceil>(burst / rate) * 1000\<rceil>" by simp
  also have "\<dots> \<le> of_int (now - ts b)" using assms(3) by (simp only: of_int_le_iff)
  finally have "burst / rate \<le> of_int (now - ts b) / 1000" by simp
  then have "burst \<le> of_int (now - ts b) / 1000 * rate"
    using assms(1) by (simp add: divide_le_eq)
  moreover have "0 \<le> now - ts b"
  proof -
    have "0 \<le> (burst / rate) * 1000" using assms(1,2) by (simp add: bucket_ok_def)
    then have "0 \<le> \<lceil>(burst / rate) * 1000\<rceil>" by linarith
    then show ?thesis using assms(3) by linarith
  qed
  ultimately show ?thesis
    using assms(2) by (simp add: refill_def bucket_ok_def)
qed


lemma bucket_lua_cong:
  "refill rate burst now b = refill rate burst now b' \<Longrightarrow>
   bucket_lua rate burst now cost b = bucket_lua rate burst now cost b'"
  by (simp add: bucket_lua_def)

lemma ts_bucket_lua [simp]: "ts (fst (snd (bucket_lua rate burst now cost b))) = now"
  by (simp add: bucket_lua_def Let_def)

lemma ttl_bucket_lua [simp]:
  "snd (snd (bucket_lua rate burst now cost b)) = \<lceil>(burst / rate) * 1000\<rceil> + 1000"
  by (simp add: bucket_lua_def Let_def)

lemma allowed_bucket_lua [simp]:
  "allowed (fst (bucket_lua rate burst now cost b)) \<longleftrightarrow> cost \<le> refill rate burst now b"
  by (simp add: bucket_lua_def Let_def)

lemma tokens_bucket_lua [simp]:
  "tokens (fst (snd (bucket_lua rate burst now cost b))) =
     (if cost \<le> refill rate burst now b then refill rate burst now b - cost
      else refill rate burst now b)"
  by (simp add: bucket_lua_def Let_def)

section \<open>Expiry is not observable\<close>

definition holds_until :: "'s bucket_store \<Rightarrow> pystr \<Rightarrow> int \<Rightarrow> 's \<Rightarrow> bucket \<Rightarrow> int \<Rightarrow> bool" where
  \<comment> \<open>the store answers with bucket \<open>b\<close> up to the deadline and with nothing from then on\<close>
  "holds_until S k from_t s b ttl \<longleftrightarrow>
     (\<forall>t\<ge>from_t. read_bucket S k t s = (if t < from_t + ttl then Some b else None))"

context expiring_store
begin

lemma holds_until_write: "holds_until S k t (write_bucket S k b ttl t s) b ttl"
  by (simp add: holds_until_def read_written)

lemma serve_live:
  assumes "0 < rate" "0 \<le> burst" "0 \<le> cost"
    and "bucket_ok burst b" and "sorted (ts b # nows)"
    and "holds_until S key (ts b) s b (\<lceil>(burst / rate) * 1000\<rceil> + 1000)"
  shows "serve S key rate burst cost nows s = spec_run rate burst cost nows (Some b)"
  using assms(4-6)
proof (induction nows arbitrary: b s)
  case (Cons now nows)
  let ?ttl = "\<lceil>(burst / rate) * 1000\<rceil> + 1000"
  let ?live = "bucket_lua rate burst now cost (read_bucket S key now s)"
  have "refill rate burst now (read_bucket S key now s) = refill rate burst now (Some b)"
  proof (cases "now < ts b + ?ttl")
    case False
    then show ?thesis
      using Cons.prems expired_is_full [OF assms(1) Cons.prems(1), of now]
      by (simp add: holds_until_def)
  qed (use Cons.prems in \<open>simp add: holds_until_def\<close>)
  then have eq: "?live = bucket_lua rate burst now cost (Some b)" by (rule bucket_lua_cong)
  obtain r b' ttl where lua: "bucket_lua rate burst now cost (Some b) = (r, b', ttl)"
    by (cases "bucket_lua rate burst now cost (Some b)") auto
  have b': "bucket_ok burst b'" "ts b' = now" "ttl = ?ttl"
    using bucket_lua_ok [of rate burst cost "Some b" now] assms(1-3) Cons.prems(1)
      ts_bucket_lua [of rate burst now cost "Some b"] ttl_bucket_lua [of rate burst now cost "Some b"]
    unfolding lua by auto
  have "serve S key rate burst cost nows (write_bucket S key b' ttl now s) =
      spec_run rate burst cost nows (Some b')"
    using Cons.prems b' holds_until_write [of key now b' ?ttl s] by (intro Cons.IH) auto
  then show ?case using eq lua by (simp add: run_script_def)
qed simp

lemma serve_fresh:
  assumes "0 < rate" "0 \<le> burst" "0 \<le> cost" and "sorted nows"
    and "\<forall>t. read_bucket S key t s = None"
  shows "serve S key rate burst cost nows s = spec_run rate burst cost nows None"
proof (cases nows)
  case (Cons now nows')
  obtain r b ttl where lua: "bucket_lua rate burst now cost None = (r, b, ttl)"
    by (cases "bucket_lua rate burst now cost None") auto
  have b: "bucket_ok burst b" "ts b = now" "ttl = \<lceil>(burst / rate) * 1000\<rceil> + 1000"
    using bucket_lua_ok [of rate burst cost None now] assms(1-3)
      ts_bucket_lua [of rate burst now cost None] ttl_bucket_lua [of rate burst now cost None]
    unfolding lua by auto
  have "serve S key rate burst cost nows' (write_bucket S key b ttl now s) =
      spec_run rate burst cost nows' (Some b)"
    using b assms(4) Cons holds_until_write [of key now b ttl s]
    by (intro serve_live assms(1-3)) auto
  then show ?thesis using lua assms(5) Cons by (simp add: run_script_def)
qed simp

end

section \<open>The admission bound\<close>

definition admitted :: "bucket_reply list \<Rightarrow> nat" where
  "admitted rs = length (filter allowed rs)"

lemma length_spec_run [simp]: "length (spec_run rate burst cost nows b) = length nows"
  by (induction nows arbitrary: b) (auto split: prod.splits)

text \<open>What is spent never exceeds what the bucket held plus what the elapsed time put in.\<close>

lemma spec_run_spent:
  assumes "0 \<le> rate" "0 \<le> burst" "0 \<le> cost"
    and "bucket_ok burst b" and "sorted (ts b # nows)"
  shows "cost * of_nat (admitted (spec_run rate burst cost nows (Some b))) \<le>
    tokens b + of_int (last (ts b # nows) - ts b) / 1000 * rate"
  using assms(4,5)
proof (induction nows arbitrary: b)
  case Nil
  then show ?case by (simp add: admitted_def bucket_ok_def)
next
  case (Cons now nows)
  obtain r b' ttl where lua: "bucket_lua rate burst now cost (Some b) = (r, b', ttl)"
    by (cases "bucket_lua rate burst now cost (Some b)") auto
  let ?T = "refill rate burst now (Some b)"
  have r: "bucket_ok burst b'" "ts b' = now" "allowed r \<longleftrightarrow> cost \<le> ?T"
    "tokens b' = (if cost \<le> ?T then ?T - cost else ?T)"
    using bucket_lua_ok [of rate burst cost "Some b" now] assms(1-3) Cons.prems(1)
      ts_bucket_lua [of rate burst now cost "Some b"] allowed_bucket_lua [of rate burst now cost "Some b"]
      tokens_bucket_lua [of rate burst now cost "Some b"]
    unfolding lua by auto
  have T: "?T \<le> tokens b + of_int (now - ts b) / 1000 * rate"
    using refill_elapsed assms(1) Cons.prems(2) by auto
  have IH: "cost * of_nat (admitted (spec_run rate burst cost nows (Some b'))) \<le>
      tokens b' + of_int (last (now # nows) - now) / 1000 * rate"
    using Cons.IH [of b'] r Cons.prems(2) by auto
  have "of_int (last (now # nows) - ts b) / 1000 * rate =
      of_int (last (now # nows) - now) / 1000 * rate + of_int (now - ts b) / (1000 :: rat) * rate"
    by (simp add: field_simps)
  moreover have "cost * of_nat (admitted (spec_run rate burst cost (now # nows) (Some b))) =
      (if allowed r then cost else 0) + cost * of_nat (admitted (spec_run rate burst cost nows (Some b')))"
    using lua by (simp add: admitted_def distrib_left)
  moreover have "(if allowed r then cost else 0) + tokens b' = ?T" using r(3,4) by simp
  moreover have "\<And>A B C X k n tk :: rat. A = B + C \<Longrightarrow> X = k + n \<Longrightarrow> k + tk = ?T \<Longrightarrow> n \<le> tk + B \<Longrightarrow>
      ?T \<le> tokens b + C \<Longrightarrow> X \<le> tokens b + A" by linarith
  moreover have "last (ts b # now # nows) = last (now # nows)" by simp
  ultimately show ?case using IH T by metis
qed

text \<open>A window of requests, whatever state the bucket is in when the window starts.\<close>

definition state_ok :: "rat \<Rightarrow> bucket option \<Rightarrow> bool" where
  "state_ok burst b \<longleftrightarrow> (\<forall>b'. b = Some b' \<longrightarrow> bucket_ok burst b')"

lemma spec_run_window:
  assumes "0 \<le> rate" "0 \<le> burst" "0 \<le> cost" and "state_ok burst b" and "sorted (t # nows)"
  shows "cost * of_nat (admitted (spec_run rate burst cost (t # nows) b)) \<le>
    burst + of_int (last (t # nows) - t) / 1000 * rate"
proof -
  define c where "c = \<lparr>tokens = refill rate burst t b, ts = t\<rparr>"
  have c: "bucket_ok burst c" "ts c = t" "tokens c \<le> burst"
    using refill_nonneg [OF assms(1,2)] assms(4) refill_le [of rate burst t b]
    by (auto simp: c_def bucket_ok_def state_ok_def)
  have "spec_run rate burst cost (t # nows) b = spec_run rate burst cost (t # nows) (Some c)"
    using bucket_lua_cong [of rate burst t b "Some c" cost] refill_le [of rate burst t b]
    by (simp add: refill_def c_def)
  then show ?thesis
    using spec_run_spent [of rate burst cost c "t # nows"] assms c by simp
qed

lemma spec_run_split:
  assumes "0 \<le> rate" "0 \<le> burst" "0 \<le> cost" and "state_ok burst b"
  shows "\<exists>b'. state_ok burst b' \<and>
    (\<forall>ys. spec_run rate burst cost (xs @ ys) b = spec_run rate burst cost xs b @ spec_run rate burst cost ys b')"
  using assms(4)
proof (induction xs arbitrary: b)
  case (Cons x xs)
  obtain r b' ttl where lua: "bucket_lua rate burst x cost b = (r, b', ttl)"
    by (cases "bucket_lua rate burst x cost b") auto
  then have "state_ok burst (Some b')"
    using bucket_lua_ok [OF assms(1-3), of b x] Cons.prems by (auto simp: state_ok_def)
  from Cons.IH [OF this] show ?case using lua by auto
qed auto

lemma take_spec_run [simp]:
  "take (length ys) (spec_run rate burst cost (ys @ zs) b) = spec_run rate burst cost ys b"
  by (induction ys arbitrary: b) (auto split: prod.splits)



text \<open>
  C37. Letting the key expire changes no answer: over any store that keeps a key for its time to
  live, the replies are those of one bucket that is never forgotten, for every traffic whose clock
  readings do not run backwards.
\<close>

theorem expiry_unobservable:
  assumes "expiring_store S" and "0 < rate" "0 \<le> burst" "0 \<le> cost" and "sorted nows"
    and "\<forall>t. read_bucket S key t s = None"
  shows "serve S key rate burst cost nows s = spec_run rate burst cost nows None"
  by (rule expiring_store.serve_fresh [OF assms])

lemma expiry_unobservable_witness:
  "serve memory_store (lit ''k'') 2 3 1 [0, 1, 9000] [] = spec_run 2 3 1 [0, 1, 9000] None"
  using expiry_unobservable [OF mem.expiring_store_axioms, of 2 3 1 "[0, 1, 9000]" "lit ''k''" "[]"]
  by (simp add: memory_store_def)

section \<open>Retrying\<close>

lemma denied_reply:
  assumes "bucket_lua rate burst now cost b = (r, b', ttl)" and "\<not> allowed r"
  shows "b' = \<lparr>tokens = refill rate burst now b, ts = now\<rparr>"
    and "retry_after_ms r = \<lceil>((cost - refill rate burst now b) / rate) * 1000\<rceil>"
    and "refill rate burst now b < cost"
  using assms by (auto simp: bucket_lua_def Let_def split: if_splits)

lemma waited_refill:
  assumes "0 < rate" "cost \<le> burst" "0 \<le> d"
    and "bucket_lua rate burst now cost b = (r, b', ttl)" and "\<not> allowed r"
  shows "cost \<le> refill rate burst (now + d) (Some b') \<longleftrightarrow> retry_after_ms r \<le> d"
proof -
  let ?T = "refill rate burst now b"
  note den = denied_reply [OF assms(4,5)]
  have "refill rate burst (now + d) (Some b') = min burst (?T + of_int d / 1000 * rate)"
    using assms(3) by (simp add: refill_def den(1))
  then have "cost \<le> refill rate burst (now + d) (Some b') \<longleftrightarrow> cost \<le> ?T + of_int d / 1000 * rate"
    using assms(2) by simp
  also have "\<dots> \<longleftrightarrow> ((cost - ?T) / rate) * 1000 \<le> of_int d"
    using assms(1) by (simp add: field_simps)
  also have "\<dots> \<longleftrightarrow> retry_after_ms r \<le> d"
    using den(2) by (simp add: ceiling_le_iff)
  finally show ?thesis .
qed

text \<open>
  \<open>retry_after\<close> is exact. When the script turns down a request the bucket could ever serve
  (\<open>cost \<le> burst\<close>), the same request made \<open>d\<close> milliseconds later, with no other request of that
  client in between, is admitted if and only if \<open>d\<close> is at least the \<open>retry_after\<close> of the reply.
\<close>

theorem retry_after_exact:
  assumes "0 < rate" "cost \<le> burst" "0 \<le> d"
    and "bucket_lua rate burst now cost b = (r, b', ttl)" and "\<not> allowed r"
  shows "allowed (fst (bucket_lua rate burst (now + d) cost (Some b'))) \<longleftrightarrow> retry_after_ms r \<le> d"
  using waited_refill [OF assms] by simp

lemma retry_after_exact_witness:
  "allowed (fst (bucket_lua 2 1 (0 + 500) 1 (Some \<lparr>tokens = 0, ts = 0\<rparr>))) \<longleftrightarrow> (500 :: int) \<le> 500"
  using retry_after_exact [of 2 1 1 500 0 "Some \<lparr>tokens = 0, ts = 0\<rparr>"
      "\<lparr>allowed = False, left = 0, retry_after_ms = 500\<rparr>" "\<lparr>tokens = 0, ts = 0\<rparr>" 1500]
  by (simp add: bucket_lua_def refill_def)

text \<open>
  The \<open>Retry-After\<close> header of a 429 is not that bound: it rounds the wait down to whole
  seconds. Whenever the script asks for a wait with a fraction of a second of at least ten
  milliseconds, a client that waits exactly as long as the header says is turned down again.
\<close>

theorem retry_after_header_too_short:
  assumes "0 < rate" "cost \<le> burst"
    and "bucket_lua rate burst now cost b = (r, b', ttl)" and "\<not> allowed r"
    and "1000 < retry_after_ms r" and "10 \<le> retry_after_ms r mod 1000" "retry_after_ms r mod 1000 < 995"
    and "limiter_check (\<lambda>k rt bt t c w. (Inr r, w)) rate burst now key cost w = (Inr d, w')"
  shows "\<not> ok d \<and> \<not> allowed (fst (bucket_lua rate burst (now + retry_after_header d * 1000) cost (Some b')))"
proof -
  let ?ms = "retry_after_ms r"
  have d: "retry_after_s d = py_round_n (of_int ?ms / 1000) 2" "ok d = allowed r"
    using assms(1,8) by (auto simp: limiter_check_def prog_defs)
  have "\<not> ok d" using d(2) assms(4) by simp
  have "of_int (py_round (of_int ?ms / 1000 * 100)) \<le> (of_int ?ms / 10 + 1/2 :: rat)"
    using py_round_bounds(1) [of "of_int ?ms / 10"] by simp
  moreover have "(of_int ?ms :: rat) < of_int (?ms div 1000) * 1000 + 995"
    using assms(7) by (metis (no_types, lifting) div_mult_mod_eq of_int_add of_int_less_iff of_int_mult of_int_numeral add_strict_left_mono)
  ultimately have "retry_after_s d < of_int (?ms div 1000) + 1"
    by (simp add: d(1) py_round_n_def)
  then have "\<lfloor>retry_after_s d\<rfloor> \<le> ?ms div 1000" by linarith
  moreover have "1 \<le> ?ms div 1000" using zdiv_mono1 [of 1000 ?ms 1000] assms(5) by simp
  ultimately have "retry_after_header d \<le> ?ms div 1000" by (simp add: retry_after_header_def)
  then have lt: "retry_after_header d * 1000 < ?ms" using assms(6) div_mult_mod_eq [of ?ms 1000] by linarith
  have nn: "0 \<le> retry_after_header d * 1000" by (simp add: retry_after_header_def)
  have "\<not> cost \<le> refill rate burst (now + retry_after_header d * 1000) (Some b')"
    unfolding waited_refill [OF assms(1,2) nn assms(3,4)] using lt by (simp only: not_le)
  then show ?thesis using \<open>\<not> ok d\<close> by (simp only: allowed_bucket_lua simp_thms)
qed

lemma retry_after_header_too_short_witness:
  "\<exists>d. limiter_check (\<lambda>k rt bt t c w. (Inr \<lparr>allowed = False, left = 0, retry_after_ms = 1500\<rparr>, w))
        (1/2) 1 0 (lit ''k'') 1 () = (Inr d, ()) \<and> retry_after_header d = 1 \<and>
      \<not> allowed (fst (bucket_lua (1/2) 1 (0 + retry_after_header d * 1000) 1 (Some \<lparr>tokens = 1/4, ts = 0\<rparr>)))"
proof -
  let ?r = "\<lparr>allowed = False, left = 0, retry_after_ms = 1500\<rparr>"
  let ?d = "\<lparr>ok = False, remaining = 0, retry_after_s = 3/2, reason = lit ''rate_limit''\<rparr>"
  have check: "limiter_check (\<lambda>k rt bt t c w. (Inr ?r, w)) (1/2) 1 0 (lit ''k'') 1 () = (Inr ?d, ())"
    by (simp add: limiter_check_def prog_defs py_round_n_def py_round_def Let_def)
  have "bucket_lua (1/2) 1 0 1 (Some \<lparr>tokens = 1/4, ts = 0\<rparr>) =
      (?r, \<lparr>tokens = 1/4, ts = 0\<rparr>, 3000)"
    by (simp add: bucket_lua_def refill_def Let_def floor_eq_iff)
  from retry_after_header_too_short [OF _ _ this _ _ _ _ check]
  show ?thesis using check by (auto simp: retry_after_header_def floor_eq_iff)
qed

section \<open>Clocks that disagree\<close>

text \<open>
  The bound needs that. The script stores \<open>ts = now\<close> even when \<open>now\<close> lies before the stored
  reading, so two gateways whose clocks differ by one second, taking turns, are given a new token
  at every other request: at one token per second and a burst of one, all of \<open>n\<close> rounds between
  the readings 0 and 1000 admit a request.
\<close>

theorem skewed_clocks_break_the_bound:
  "admitted (spec_run 1 1 1 (0 # concat (replicate n [1000, 0])) None) = Suc n"
proof -
  have "admitted (spec_run 1 1 1 (concat (replicate n [1000, 0])) (Some \<lparr>tokens = 0, ts = 0\<rparr>)) = n"
    by (induction n) (auto simp: admitted_def bucket_lua_def refill_def)
  then show ?thesis by (simp add: admitted_def bucket_lua_def refill_def)
qed

section \<open>The quota over a counter store\<close>

text \<open>What the quota relies on: \<open>GET\<close> answers the decimal text of the key's counter or nothing when it
  was never incremented, and \<open>INCRBY\<close> adds to that counter and to no other.\<close>

locale counter_store =
  fixes get :: "pystr \<Rightarrow> ('w, pystr option) prog"
    and incr :: "pystr \<Rightarrow> int \<Rightarrow> int \<Rightarrow> ('w, int) prog"
    and count :: "'w \<Rightarrow> pystr \<Rightarrow> int"
  assumes get_count: "get k w = (Inr None, w) \<and> count w k = 0 \<or> get k w = (Inr (Some (show_int (count w k))), w)"
    and incr_count: "\<exists>w'. incr k n ttl w = (Inr (count w k + n), w') \<and> count w' = (count w)(k := count w k + n)"
begin

lemma quota_used_count: "quota_used get tenant day w = (Inr (count w (quota_key tenant day)), w)"
  using get_count [of "quota_key tenant day" w]
  by (auto simp: quota_used_def prog_defs)

lemma quota_check_count:
  "0 < limit \<Longrightarrow> \<exists>d. quota_check get limit tenant day pages w = (Inr d, w) \<and>
     (ok d \<longleftrightarrow> count w (quota_key tenant day) + pages \<le> limit)"
  by (simp add: quota_check_def bindE_def quota_used_count) (simp add: prog_defs)

lemma quota_consume_count:
  assumes "0 < limit" "0 \<le> pages"
  shows "\<exists>w' n. quota_consume incr limit tenant day pages w = (Inr n, w') \<and>
    count w' = (count w)(quota_key tenant day := count w (quota_key tenant day) + pages)"
proof (cases "pages = 0")
  case False
  then show ?thesis
    using incr_count [of "quota_key tenant day" pages 172800 w] assms
    by (auto simp: quota_consume_def catchE_def)
qed (auto simp: quota_consume_def prog_defs)

end

text \<open>One tenant's documents of a day, one after the other: the gateway checks the page count, the
  worker charges the pages it sent to the engine. The result says which were admitted.\<close>

primrec quota_day ::
  "(pystr \<Rightarrow> ('w, pystr option) prog) \<Rightarrow> (pystr \<Rightarrow> int \<Rightarrow> int \<Rightarrow> ('w, int) prog) \<Rightarrow>
   int \<Rightarrow> pystr \<Rightarrow> pystr \<Rightarrow> (int \<times> int) list \<Rightarrow> ('w, bool list) prog" where
  "quota_day get incr limit tenant day [] = retE []"
| "quota_day get incr limit tenant day (doc # docs) =
     bindE (quota_check get limit tenant day (fst doc)) (\<lambda>d.
     bindE (if ok d then quota_consume incr limit tenant day (snd doc) else retE 0) (\<lambda>_.
     bindE (quota_day get incr limit tenant day docs) (\<lambda>oks. retE (ok d # oks))))"

definition memory_get :: "pystr \<Rightarrow> ((pystr \<times> int) list, pystr option) prog" where
  "memory_get k = getE (\<lambda>s. map_option show_int (map_of s k))"

definition memory_incr :: "pystr \<Rightarrow> int \<Rightarrow> int \<Rightarrow> ((pystr \<times> int) list, int) prog" where
  "memory_incr k n ttl =
     bindE (getE (\<lambda>s. (case map_of s k of None \<Rightarrow> 0 | Some m \<Rightarrow> m) + n)) (\<lambda>m.
     bindE (modE (\<lambda>s. (k, m) # s)) (\<lambda>_. retE m))"

definition memory_count :: "(pystr \<times> int) list \<Rightarrow> pystr \<Rightarrow> int" where
  "memory_count s k = (case map_of s k of None \<Rightarrow> 0 | Some m \<Rightarrow> m)"

interpretation memq: counter_store memory_get memory_incr memory_count
  by unfold_locales
    (auto simp: memory_get_def memory_incr_def memory_count_def prog_defs fun_eq_iff split: option.splits)

text \<open>
  The daily quota is kept. Over any counter store that does not fail, a tenant whose
  documents of one day are handled one after the other, each charged at most the pages it was
  checked with, never has more than \<open>limit\<close> pages charged on that day.
\<close>

theorem quota_kept:
  assumes "counter_store get incr count" and "0 < limit" and "count w (quota_key tenant day) \<le> limit"
    and "\<forall>doc\<in>set docs. 0 \<le> snd doc \<and> snd doc \<le> fst doc"
  shows "\<exists>oks w'. quota_day get incr limit tenant day docs w = (Inr oks, w') \<and>
    count w' (quota_key tenant day) \<le> limit"
  using assms(3,4)
proof (induction docs arbitrary: w)
  case (Cons doc docs)
  obtain d where d: "quota_check get limit tenant day (fst doc) w = (Inr d, w)"
    "ok d \<longleftrightarrow> count w (quota_key tenant day) + fst doc \<le> limit"
    using counter_store.quota_check_count [OF assms(1,2)] by metis
  have "\<exists>w' n. (if ok d then quota_consume incr limit tenant day (snd doc) else retE 0) w = (Inr n, w') \<and>
      count w' (quota_key tenant day) \<le> limit"
  proof (cases "ok d")
    case True
    obtain w' n where "quota_consume incr limit tenant day (snd doc) w = (Inr n, w')"
      "count w' = (count w)(quota_key tenant day := count w (quota_key tenant day) + snd doc)"
      using counter_store.quota_consume_count [OF assms(1,2)] Cons.prems(2) by fastforce
    moreover have "snd doc \<le> fst doc" using Cons.prems(2) by simp
    ultimately show ?thesis using True d(2) by simp
  qed (use Cons.prems(1) in \<open>simp add: prog_defs\<close>)
  then obtain w' n where w': "(if ok d then quota_consume incr limit tenant day (snd doc) else retE 0) w = (Inr n, w')"
    "count w' (quota_key tenant day) \<le> limit" by metis
  obtain oks w'' where "quota_day get incr limit tenant day docs w' = (Inr oks, w'')"
    "count w'' (quota_key tenant day) \<le> limit"
    using Cons.IH [OF w'(2)] Cons.prems(2) by auto
  then show ?case using d(1) w'(1) by (simp add: bindE_def retE_def)
qed (simp add: prog_defs)

lemma quota_kept_witness:
  "\<exists>oks s. quota_day memory_get memory_incr 10 (lit ''acme'') (lit ''20250101'') [(6, 6), (5, 5), (4, 3)] [] =
      (Inr oks, s) \<and> memory_count s (quota_key (lit ''acme'') (lit ''20250101'')) \<le> 10"
  by (rule quota_kept [OF memq.counter_store_axioms]) (simp_all add: memory_count_def)

text \<open>
  The budget is per calendar day, not a rolling 24 hours as the class and the settings document
  it: a tenant that has used up one day's budget has the whole budget again as soon as the UTC date
  changes, so \<open>2 * limit\<close> pages are admitted and charged within any span that holds midnight.
\<close>

theorem quota_restarts_at_midnight:
  assumes "counter_store get incr count" and "0 < limit" and "day \<noteq> day'"
    and "count w (quota_key tenant day) = 0" "count w (quota_key tenant day') = 0"
  shows "\<exists>w1 w2. quota_day get incr limit tenant day [(limit, limit), (1, 1)] w = (Inr [True, False], w1) \<and>
    quota_day get incr limit tenant day' [(limit, limit)] w1 = (Inr [True], w2) \<and>
    count w2 (quota_key tenant day) + count w2 (quota_key tenant day') = 2 * limit"
proof -
  have ne: "quota_key tenant day \<noteq> quota_key tenant day'" using assms(3) by (simp add: quota_key_def)
  have lim: "0 \<le> limit" using assms(2) by simp
  note check = counter_store.quota_check_count [OF assms(1,2)]
  note consume = counter_store.quota_consume_count [OF assms(1,2) lim]
  obtain d1 where d1: "quota_check get limit tenant day limit w = (Inr d1, w)" "ok d1"
    using check [of tenant day limit w] assms(4) by auto
  obtain w1 n1 where w1: "quota_consume incr limit tenant day limit w = (Inr n1, w1)"
    "count w1 = (count w)(quota_key tenant day := limit)"
    using consume [of tenant day w] assms(4) by auto
  obtain d2 where d2: "quota_check get limit tenant day 1 w1 = (Inr d2, w1)" "\<not> ok d2"
    using check [of tenant day 1 w1] w1(2) by auto
  obtain d3 where d3: "quota_check get limit tenant day' limit w1 = (Inr d3, w1)" "ok d3"
    using check [of tenant day' limit w1] w1(2) assms(5) ne by auto
  obtain w2 n2 where w2: "quota_consume incr limit tenant day' limit w1 = (Inr n2, w2)"
    "count w2 = (count w1)(quota_key tenant day' := limit)"
    using consume [of tenant day' w1] w1(2) assms(5) ne by auto
  have "quota_day get incr limit tenant day [(limit, limit), (1, 1)] w = (Inr [True, False], w1)"
    using d1 w1(1) d2 by (simp add: bindE_def retE_def)
  moreover have "quota_day get incr limit tenant day' [(limit, limit)] w1 = (Inr [True], w2)"
    using d3 w2(1) by (simp add: bindE_def retE_def)
  ultimately show ?thesis using w1(2) w2(2) ne by auto
qed

lemma quota_restarts_at_midnight_witness:
  "\<exists>w1 w2. quota_day memory_get memory_incr 10 (lit ''acme'') (lit ''20250101'') [(10, 10), (1, 1)] [] =
      (Inr [True, False], w1) \<and>
    quota_day memory_get memory_incr 10 (lit ''acme'') (lit ''20250102'') [(10, 10)] w1 = (Inr [True], w2) \<and>
    memory_count w2 (quota_key (lit ''acme'') (lit ''20250101'')) +
      memory_count w2 (quota_key (lit ''acme'') (lit ''20250102'')) = 2 * 10"
  by (rule quota_restarts_at_midnight [OF memq.counter_store_axioms]) (simp_all add: memory_count_def)

end
