(* ===== verification/Py_Json.thy ===== *)
theory Py_Json
  imports Py_Effects
begin

text \<open>
  The values \<open>json.loads\<close> produces and what the source does with them: truth value, \<open>dict.get\<close>,
  indexing. An operation on a value of the wrong type raises, with Python's exception class.
\<close>

datatype json =
    JNull
  | JBool bool
  | JInt int
  | JFloat rat
  | JStr pystr
  | JList "json list"
  | JObj "(pystr \<times> json) list"

fun truthy :: "json \<Rightarrow> bool" where
  "truthy JNull = False"
| "truthy (JBool b) = b"
| "truthy (JInt n) = (n \<noteq> 0)"
| "truthy (JFloat x) = (x \<noteq> 0)"
| "truthy (JStr s) = (s \<noteq> [])"
| "truthy (JList xs) = (xs \<noteq> [])"
| "truthy (JObj kvs) = (kvs \<noteq> [])"

definition attribute_error :: exn where
  "attribute_error = OtherError (lit ''AttributeError'') (lit ''object has no attribute get'')"

fun jget :: "json \<Rightarrow> pystr \<Rightarrow> json \<Rightarrow> exn + json" where
  \<comment> \<open>\<open>value.get(key, default)\<close>; later keys of a JSON object win\<close>
  "jget (JObj kvs) k d = Inr (case map_of (rev kvs) k of Some v \<Rightarrow> v | None \<Rightarrow> d)"
| "jget _ k d = Inl attribute_error"

fun jfirst :: "json \<Rightarrow> exn + json" where
  \<comment> \<open>\<open>value[0]\<close>\<close>
  "jfirst (JList (x # xs)) = Inr x"
| "jfirst (JList []) = Inl IndexError"
| "jfirst (JStr (c # cs)) = Inr (JStr [c])"
| "jfirst (JStr []) = Inl IndexError"
| "jfirst (JObj kvs) = Inl (KeyError (lit ''0''))"
| "jfirst _ = Inl (TypeError (lit ''object is not subscriptable''))"

fun bindX :: "'e + 'a \<Rightarrow> ('a \<Rightarrow> 'e + 'b) \<Rightarrow> 'e + 'b" where
  "bindX (Inl e) k = Inl e"
| "bindX (Inr a) k = k a"

lemma bindX_Inr_iff: "bindX r k = Inr b \<longleftrightarrow> (\<exists>a. r = Inr a \<and> k a = Inr b)"
  by (cases r) simp_all

section \<open>Writing JSON\<close>

definition hex_digit :: "nat \<Rightarrow> nat" where
  "hex_digit d = (if d < 10 then 48 + d else 87 + d)"

definition escape1 :: "nat \<Rightarrow> pystr" where
  \<comment> \<open>one character of a string as \<open>json.dumps(_, ensure_ascii=False)\<close> writes it\<close>
  "escape1 c = (if c = 34 then [92, 34] else if c = 92 then [92, 92] else if c = 10 then [92, 110]
     else if c = 13 then [92, 114] else if c = 9 then [92, 116] else if c = 8 then [92, 98]
     else if c = 12 then [92, 102]
     else if c < 32 then [92, 117, 48, 48, hex_digit (c div 16), hex_digit (c mod 16)] else [c])"

definition json_str :: "pystr \<Rightarrow> pystr" where
  "json_str s = [34] @ concat (map escape1 s) @ [34]"

fun dumps :: "(rat \<Rightarrow> pystr) \<Rightarrow> json \<Rightarrow> pystr" where
  \<comment> \<open>the first argument prints a float\<close>
  "dumps sf JNull = lit ''null''"
| "dumps sf (JBool b) = (if b then lit ''true'' else lit ''false'')"
| "dumps sf (JInt n) = show_int n"
| "dumps sf (JFloat x) = sf x"
| "dumps sf (JStr s) = json_str s"
| "dumps sf (JList xs) = [91] @ join (lit '', '') (map (dumps sf) xs) @ [93]"
| "dumps sf (JObj kvs) = [123] @ join (lit '', '') (map (\<lambda>(k, v). json_str k @ lit '': '' @ dumps sf v) kvs) @ [125]"

definition u_escape :: "nat \<Rightarrow> pystr" where
  "u_escape c = [92, 117, hex_digit (c div 4096), hex_digit (c div 256 mod 16), hex_digit (c div 16 mod 16), hex_digit (c mod 16)]"

definition ascii1 :: "nat \<Rightarrow> pystr" where
  "ascii1 c = (if c < 127 then [c] else if c < 65536 then u_escape c
     else u_escape (55296 + (c - 65536) div 1024) @ u_escape (56320 + (c - 65536) mod 1024))"

definition dumps_ascii :: "(rat \<Rightarrow> pystr) \<Rightarrow> json \<Rightarrow> pystr" where
  \<comment> \<open>\<open>json.dumps\<close> by default: what is not ASCII, which occurs inside strings only, is escaped too\<close>
  "dumps_ascii sf v = concat (map ascii1 (dumps sf v))"

text \<open>The text of a JSON value has no control character, so it is one line.\<close>

definition printable :: "pystr \<Rightarrow> bool" where
  "printable s \<longleftrightarrow> (\<forall>c\<in>set s. 32 \<le> c)"

lemma printable_simps [simp]: "printable []" "printable (c # s) \<longleftrightarrow> 32 \<le> c \<and> printable s"
  "printable (s @ t) \<longleftrightarrow> printable s \<and> printable t"
  by (auto simp: printable_def)

lemma printable_escape: "printable (escape1 c)"
  by (simp add: escape1_def hex_digit_def)

lemma printable_json_str [simp]: "printable (json_str s)"
  using printable_escape by (auto simp: json_str_def printable_def)

lemma printable_join: "printable sep \<Longrightarrow> \<forall>s\<in>set ss. printable s \<Longrightarrow> printable (join sep ss)"
  by (induction sep ss rule: join.induct) auto

lemma printable_show_nat [simp]: "printable (show_nat n)"
  using show_nat_digits [of n] by (auto simp: printable_def is_digit_def list_all_iff)

lemma printable_show_int [simp]: "printable (show_int n)"
  by (simp add: show_int_def)

lemma printable_dumps: "(\<And>x. printable (sf x)) \<Longrightarrow> printable (dumps sf v)"
  by (induction sf v rule: dumps.induct) (auto simp: lit_def intro!: printable_join)

text \<open>The reader of a JSON string, from behind its opening quote: the text and the rest.\<close>

definition hex_value :: "nat \<Rightarrow> nat" where
  "hex_value c = (if c < 58 then c - 48 else c - 87)"

definition unescape :: "nat \<Rightarrow> nat" where
  "unescape c = (if c = 110 then 10 else if c = 114 then 13 else if c = 116 then 9
     else if c = 98 then 8 else if c = 102 then 12 else c)"

fun read_str :: "pystr \<Rightarrow> (pystr \<times> pystr) option" where
  "read_str [] = None"
| "read_str (c # s) =
     (if c = 34 then Some ([], s)
      else if c \<noteq> 92 then map_option (apfst ((#) c)) (read_str s)
      else (case s of
          [] \<Rightarrow> None
        | e # r \<Rightarrow> if e = 117 then (case r of
              h1 # h2 # h3 # h4 # t \<Rightarrow> map_option (apfst ((#)
                (((hex_value h1 * 16 + hex_value h2) * 16 + hex_value h3) * 16 + hex_value h4))) (read_str t)
            | _ \<Rightarrow> None)
          else map_option (apfst ((#) (unescape e))) (read_str r)))"

lemma read_escape1: "read_str (escape1 c @ s) = map_option (apfst ((#) c)) (read_str s)"
proof -
  consider "c = 34" | "c = 92" | "c \<in> {10, 13, 9, 8, 12}" | "c < 32" "c \<notin> {10, 13, 9, 8, 12}" | "c \<ge> 32" "c \<noteq> 34" "c \<noteq> 92"
    by linarith
  then show ?thesis
  proof cases
    case 4
    then have "hex_value (hex_digit (c div 16)) = c div 16" "hex_value (hex_digit (c mod 16)) = c mod 16"
      by (auto simp: hex_value_def hex_digit_def)
    moreover have "c div 16 * 16 + c mod 16 = c" by simp
    ultimately show ?thesis using 4 by (simp add: escape1_def hex_value_def [of 48])
  next
    case 5
    then show ?thesis by (simp add: escape1_def)
  qed (auto simp: escape1_def unescape_def)
qed

lemma read_json_str: "read_str (tl (json_str t) @ s) = Some (t, s)"
proof -
  have "read_str (concat (map escape1 t) @ 34 # s) = Some (t, s)"
    by (induction t) (simp_all add: read_escape1)
  then show ?thesis by (simp add: json_str_def)
qed

end
