(* ===== verification/Engine.thy ===== *)
theory Engine
  imports Py_Json Filetype
begin

text \<open>
  \<open>common/engine.py\<close>: the streaming client of the OCR engine. One HTTP exchange is a value
  (\<open>reply\<close>): whether it connects, its status, the lines of its body with the clock reading at which each
  is read, and the exception that breaks it off after them, if any. \<open>json.loads\<close> is the parameter
  \<open>loads\<close>; the theorems hold for every decoder. The callback \<open>on_delta\<close> is a program over the caller's
  world; the client's own mutable \<open>StreamStats\<close> is the first component of the state, so what an
  exception leaves in it is there afterwards. Prometheus counters and log records are not modelled.
\<close>

section \<open>The request\<close>

definition b64_digit :: "nat \<Rightarrow> nat" where
  "b64_digit n = (if n < 26 then 65 + n else if n < 52 then 71 + n else if n < 62 then n - 4
     else if n = 62 then 43 else 47)"

fun b64encode :: "nat list \<Rightarrow> pystr" where
  "b64encode [] = []"
| "b64encode [a] = [b64_digit (a div 4), b64_digit (a mod 4 * 16), 61, 61]"
| "b64encode [a, b] = [b64_digit (a div 4), b64_digit (a mod 4 * 16 + b div 16), b64_digit (b mod 16 * 4), 61]"
| "b64encode (a # b # c # bs) =
     [b64_digit (a div 4), b64_digit (a mod 4 * 16 + b div 16), b64_digit (b mod 16 * 4 + c div 64),
      b64_digit (c mod 64)] @ b64encode bs"

definition png_to_data_uri :: "byte list \<Rightarrow> pystr" where
  "png_to_data_uri png = lit ''data:image/png;base64,'' @ b64encode (List.map unat png)"

record ocr_client =
  model :: pystr
  max_tokens :: int
  max_retries :: int
  client_prompt :: pystr

definition payload :: "ocr_client \<Rightarrow> byte list \<Rightarrow> bool \<Rightarrow> pystr option \<Rightarrow> json" where
  "payload c png stream prompt =
     JObj ([(lit ''model'', JStr (model c)), (lit ''temperature'', JInt 0),
        (lit ''max_tokens'', JInt (max_tokens c)), (lit ''stream'', JBool stream),
        (lit ''messages'', JList [JObj [(lit ''role'', JStr (lit ''user'')),
           (lit ''content'', JList
             [JObj [(lit ''type'', JStr (lit ''image_url'')),
                    (lit ''image_url'', JObj [(lit ''url'', JStr (png_to_data_uri png))])],
              JObj [(lit ''type'', JStr (lit ''text'')),
                    (lit ''text'', JStr (case prompt of Some p \<Rightarrow> if p = [] then client_prompt c else p
                                         | None \<Rightarrow> client_prompt c))]])]])]
       @ (if stream then [(lit ''stream_options'', JObj [(lit ''include_usage'', JBool True)])] else []))"

section \<open>One exchange\<close>

record reply =
  refused :: "exn option"                \<comment> \<open>raised before a response arrives\<close>
  status_code :: nat
  body :: "(rat \<times> pystr) list"           \<comment> \<open>clock reading, line\<close>
  broken :: "exn option"                 \<comment> \<open>raised by the line iterator after the last line\<close>
  started :: rat                         \<comment> \<open>\<open>perf_counter\<close> at the start and at the end of the attempt\<close>
  ended :: rat

record stream_stats =
  ttft_s :: rat
  e2e_s :: rat
  completion_tokens :: int
  prompt_tokens :: int
  out :: pystr
  error :: "pystr option"
  attempts :: int

definition new_stats :: stream_stats where
  "new_stats = \<lparr>ttft_s = 0, e2e_s = 0, completion_tokens = 0, prompt_tokens = 0, out = [],
     error = None, attempts = 1\<rparr>"

definition tokens_per_s :: "stream_stats \<Rightarrow> rat" where
  "tokens_per_s s = (let gen = e2e_s s - ttft_s s in
     if gen > 0 \<and> completion_tokens s \<noteq> 0 then of_int (completion_tokens s) / gen else 0)"

definition count_or :: "json \<Rightarrow> int \<Rightarrow> exn + int" where
  \<comment> \<open>\<open>usage.get(..) or old\<close>; a count that is neither an integer nor falsy is not represented\<close>
  "count_or v old = (if \<not> truthy v then Inr old
     else case v of JInt n \<Rightarrow> Inr n | _ \<Rightarrow> Inl (TypeError (lit ''count'')))"

definition take_usage :: "json \<Rightarrow> int \<Rightarrow> int \<Rightarrow> exn + (int \<times> int)" where
  "take_usage chunk ct pt =
     bindX (jget chunk (lit ''usage'') JNull) (\<lambda>usage.
       if \<not> truthy usage then Inr (ct, pt)
       else bindX (jget usage (lit ''completion_tokens'') JNull) (\<lambda>c.
            bindX (count_or c ct) (\<lambda>ct'.
            bindX (jget usage (lit ''prompt_tokens'') JNull) (\<lambda>p.
            bindX (count_or p pt) (\<lambda>pt'. Inr (ct', pt'))))))"

definition take_delta :: "json \<Rightarrow> exn + json" where
  "take_delta chunk =
     bindX (jget chunk (lit ''choices'') JNull) (\<lambda>choices.
       if \<not> truthy choices then Inr JNull
       else bindX (jfirst choices) (\<lambda>choice.
            bindX (jget choice (lit ''delta'') (JObj [])) (\<lambda>delta.
            jget delta (lit ''content'') JNull)))"

definition liftS :: "('w, 'a) prog \<Rightarrow> ('s \<times> 'w, 'a) prog" where
  \<comment> \<open>a program over the caller's world, run beside the client's own state\<close>
  "liftS m = (\<lambda>(s, w). case m w of (r, w') \<Rightarrow> (r, (s, w')))"

definition modS :: "('s \<Rightarrow> 's) \<Rightarrow> ('s \<times> 'w, unit) prog" where
  "modS f = (\<lambda>(s, w). (Inr (), (f s, w)))"

definition getS :: "('s \<Rightarrow> 'a) \<Rightarrow> ('s \<times> 'w, 'a) prog" where
  "getS f = (\<lambda>(s, w). (Inr (f s), (s, w)))"

lemmas stats_prog_defs = prog_defs liftS_def modS_def getS_def

definition emit ::
  "(pystr \<Rightarrow> ('w, unit) prog) option \<Rightarrow> rat \<Rightarrow> rat \<Rightarrow> bool \<Rightarrow> pystr \<Rightarrow> (stream_stats \<times> 'w, unit) prog" where
  \<comment> \<open>what happens with one content delta read at clock reading \<open>now\<close>\<close>
  "emit on_delta start now emitted delta =
     bindE (if emitted then retE () else modS (\<lambda>s. s\<lparr>ttft_s := now - start\<rparr>)) (\<lambda>_.
     bindE (modS (\<lambda>s. s\<lparr>out := out s @ delta\<rparr>)) (\<lambda>_.
     bindE (modS (\<lambda>s. if prompt_tokens s = 0
                  then s\<lparr>completion_tokens := completion_tokens s + 1\<rparr> else s)) (\<lambda>_.
     case on_delta of None \<Rightarrow> retE () | Some f \<Rightarrow> liftS (f delta))))"

fun consume_lines ::
  "(pystr \<Rightarrow> exn + json) \<Rightarrow> (pystr \<Rightarrow> ('w, unit) prog) option \<Rightarrow> rat \<Rightarrow> exn option \<Rightarrow>
   (rat \<times> pystr) list \<Rightarrow> bool \<Rightarrow> (stream_stats \<times> 'w, bool) prog" where
  "consume_lines loads on_delta start cut_off [] emitted =
     (case cut_off of None \<Rightarrow> retE emitted | Some e \<Rightarrow> raiseE e)"
| "consume_lines loads on_delta start cut_off ((now, line) # rest) emitted =
     (if \<not> startswith line (lit ''data:'') then consume_lines loads on_delta start cut_off rest emitted
      else let data = strip (drop 5 line) in
        if data = lit ''[DONE]'' then retE emitted
        else
          bindE (ofE (loads data)) (\<lambda>chunk.
          bindE (getS (\<lambda>s. take_usage chunk (completion_tokens s) (prompt_tokens s))) (\<lambda>usage.
          bindE (ofE usage) (\<lambda>(ct, pt).
          bindE (modS (\<lambda>s. s\<lparr>completion_tokens := ct, prompt_tokens := pt\<rparr>)) (\<lambda>_.
          bindE (ofE (take_delta chunk)) (\<lambda>delta.
            if \<not> truthy delta then consume_lines loads on_delta start cut_off rest emitted
            else case delta of
                JStr d \<Rightarrow> bindE (emit on_delta start now emitted d) (\<lambda>_.
                  consume_lines loads on_delta start cut_off rest True)
              | _ \<Rightarrow> bindE (if emitted then retE () else modS (\<lambda>s. s\<lparr>ttft_s := now - start\<rparr>))
                  (\<lambda>_. raiseE (TypeError (lit ''can only concatenate str'')))))))))"

definition consume_stream ::
  "(pystr \<Rightarrow> exn + json) \<Rightarrow> (pystr \<Rightarrow> ('w, unit) prog) option \<Rightarrow> reply \<Rightarrow> (stream_stats \<times> 'w, bool) prog" where
  "consume_stream loads on_delta r =
     (case refused r of
        Some e \<Rightarrow> raiseE e
      | None \<Rightarrow>
          if 200 \<le> status_code r \<and> status_code r < 300
          then consume_lines loads on_delta (started r) (broken r) (body r) False
          else raiseE (HTTPStatusError (status_code r) (lit ''error response'')))"

section \<open>Retries\<close>

definition RETRY_STATUS :: "nat set" where
  "RETRY_STATUS = {408, 425, 429, 500, 502, 503, 504}"

fun retryable :: "exn \<Rightarrow> bool" where
  "retryable (HTTPStatusError c _) = (c \<in> RETRY_STATUS)"
| "retryable (TransportError _) = True"
| "retryable (TimeoutError _) = True"
| "retryable _ = False"

fun attempt_loop ::
  "(pystr \<Rightarrow> exn + json) \<Rightarrow> (pystr \<Rightarrow> ('w, unit) prog) option \<Rightarrow> (int \<Rightarrow> reply) \<Rightarrow> int \<Rightarrow> nat \<Rightarrow> int \<Rightarrow>
   stream_stats \<times> 'w \<Rightarrow> stream_stats \<times> 'w" where
  \<comment> \<open>\<open>n\<close> attempts are left, the next one is number \<open>attempt\<close>; \<open>replies\<close> gives each attempt's exchange\<close>
  "attempt_loop loads on_delta replies retries 0 attempt sw = sw"
| "attempt_loop loads on_delta replies retries (Suc n) attempt (s, w) =
     (let r = replies attempt in
      case consume_stream loads on_delta r (s\<lparr>attempts := attempt\<rparr>, w) of
        (Inr emitted, (s', w')) \<Rightarrow> (s'\<lparr>e2e_s := ended r - started r, error := None\<rparr>, w')
      | (Inl e, (s', w')) \<Rightarrow>
          let s' = s'\<lparr>e2e_s := ended r - started r, error := Some (exn_text e)\<rparr>;
              \<comment> \<open>\<open>emitted\<close> is only assigned by a call that returns, so it is \<open>False\<close> here\<close>
              emitted = False;
              again = (retryable e \<and> \<not> emitted)
          in if \<not> again \<or> attempt > retries then (s', w')
             else attempt_loop loads on_delta replies retries n (attempt + 1)
               (s'\<lparr>out := [], completion_tokens := 0, ttft_s := 0\<rparr>, w'))"

definition ocr_page_stream ::
  "(pystr \<Rightarrow> exn + json) \<Rightarrow> ocr_client \<Rightarrow> (pystr \<Rightarrow> ('w, unit) prog) option \<Rightarrow> (int \<Rightarrow> reply) \<Rightarrow>
   'w \<Rightarrow> stream_stats \<times> 'w" where
  "ocr_page_stream loads c on_delta replies w =
     attempt_loop loads on_delta replies (max_retries c) (nat (max_retries c + 1)) 1 (new_stats, w)"

section \<open>What a stream amounts to\<close>

text \<open>The specification of one exchange, without state: the content deltas that arrive and how it ends.\<close>

fun lines_result :: "(pystr \<Rightarrow> exn + json) \<Rightarrow> exn option \<Rightarrow> (rat \<times> pystr) list \<Rightarrow> pystr list \<times> exn option" where
  "lines_result loads cut_off [] = ([], cut_off)"
| "lines_result loads cut_off ((now, line) # rest) =
     (if \<not> startswith line (lit ''data:'') then lines_result loads cut_off rest
      else let data = strip (drop 5 line) in
        if data = lit ''[DONE]'' then ([], None)
        else case loads data of Inl e \<Rightarrow> ([], Some e) | Inr chunk \<Rightarrow>
          (case take_usage chunk 0 0 of Inl e \<Rightarrow> ([], Some e) | Inr _ \<Rightarrow>
          (case take_delta chunk of Inl e \<Rightarrow> ([], Some e) | Inr delta \<Rightarrow>
             if \<not> truthy delta then lines_result loads cut_off rest
             else case delta of
                 JStr d \<Rightarrow> (case lines_result loads cut_off rest of (ds, e) \<Rightarrow> (d # ds, e))
               | _ \<Rightarrow> ([], Some (TypeError (lit ''can only concatenate str''))))))"

definition reply_result :: "(pystr \<Rightarrow> exn + json) \<Rightarrow> reply \<Rightarrow> pystr list \<times> exn option" where
  "reply_result loads r =
     (case refused r of Some e \<Rightarrow> ([], Some e)
      | None \<Rightarrow> if 200 \<le> status_code r \<and> status_code r < 300 then lines_result loads (broken r) (body r)
          else ([], Some (HTTPStatusError (status_code r) (lit ''error response''))))"

abbreviation content :: "(pystr \<Rightarrow> exn + json) \<Rightarrow> reply \<Rightarrow> pystr list" where
  "content loads r \<equiv> fst (reply_result loads r)"

abbreviation failure :: "(pystr \<Rightarrow> exn + json) \<Rightarrow> reply \<Rightarrow> exn option" where
  "failure loads r \<equiv> snd (reply_result loads r)"

definition recorder :: "pystr \<Rightarrow> (pystr list, unit) prog" where
  \<comment> \<open>a callback that keeps every delta it is given\<close>
  "recorder d = modE (\<lambda>w. w @ [d])"

definition no_usage :: "(pystr \<Rightarrow> exn + json) \<Rightarrow> bool" where
  \<comment> \<open>an engine that never reports usage\<close>
  "no_usage loads \<longleftrightarrow>
     (\<forall>t chunk v. loads t = Inr chunk \<longrightarrow> jget chunk (lit ''usage'') JNull = Inr v \<longrightarrow> \<not> truthy v)"

definition counted :: "stream_stats \<Rightarrow> stream_stats \<Rightarrow> pystr list \<Rightarrow> bool" where
  "counted s s' ds \<longleftrightarrow> prompt_tokens s' = 0 \<and> completion_tokens s' = completion_tokens s + int (length ds)"

lemma no_usage_take:
  "no_usage loads \<Longrightarrow> loads t = Inr chunk \<Longrightarrow> take_usage chunk a b = Inr p \<Longrightarrow> p = (a, b)"
  by (auto simp: no_usage_def take_usage_def bindX_Inr_iff split: if_splits)

lemma count_or_error: "count_or v a = Inl e \<Longrightarrow> count_or v b = Inl e"
  by (auto simp: count_or_def split: json.splits if_splits)

lemma take_usage_cases:
  "(\<exists>e. \<forall>a b. take_usage c a b = Inl e) \<or> (\<forall>a b. \<exists>p. take_usage c a b = Inr p)"
proof (cases "jget c (lit ''usage'') JNull")
  case (Inr usage)
  show ?thesis
  proof (cases "truthy usage")
    case True
    show ?thesis
    proof (cases usage)
      case (JObj kvs)
      define x where "x = (case map_of (rev kvs) (lit ''completion_tokens'') of Some v \<Rightarrow> v | None \<Rightarrow> JNull)"
      define y where "y = (case map_of (rev kvs) (lit ''prompt_tokens'') of Some v \<Rightarrow> v | None \<Rightarrow> JNull)"
      have eq: "take_usage c a b =
          bindX (count_or x a) (\<lambda>ct. bindX (count_or y b) (\<lambda>pt. Inr (ct, pt)))" for a b
        using Inr True JObj by (simp add: take_usage_def x_def y_def)
      show ?thesis
        unfolding eq by (auto simp: count_or_def split: json.splits)
    qed (use Inr True in \<open>auto simp: take_usage_def\<close>)
  qed (use Inr in \<open>auto simp: take_usage_def\<close>)
qed (auto simp: take_usage_def)

lemma take_usage_Inl: "take_usage c a b = Inl e \<Longrightarrow> take_usage c 0 0 = Inl e"
  using take_usage_cases [of c] by (metis Inl_Inr_False Inl_inject sum.sel(1))

lemma take_usage_Inr: "take_usage c a b = Inr p \<Longrightarrow> \<exists>q. take_usage c 0 0 = Inr q"
  using take_usage_cases [of c] by (metis Inl_Inr_False)

lemma emit_recorder:
  "\<exists>s1. emit (Some recorder) start now emitted d (s, w) = (Inr (), s1, w @ [d]) \<and>
     out s1 = out s @ d \<and> attempts s1 = attempts s \<and> (prompt_tokens s = 0 \<longrightarrow> counted s s1 [d])"
  by (cases emitted) (simp_all add: emit_def recorder_def counted_def stats_prog_defs)

text \<open>The client's loop over the lines computes that, and hands every delta to the callback.\<close>

lemma consume_lines_result:
  "\<exists>s' b. consume_lines loads (Some recorder) start cut_off lines emitted (s, w) =
     ((case snd (lines_result loads cut_off lines) of None \<Rightarrow> Inr b | Some e \<Rightarrow> Inl e),
      s', w @ fst (lines_result loads cut_off lines)) \<and>
     out s' = out s @ concat (fst (lines_result loads cut_off lines)) \<and> attempts s' = attempts s \<and>
     (no_usage loads \<longrightarrow> prompt_tokens s = 0 \<longrightarrow> counted s s' (fst (lines_result loads cut_off lines)))"
proof (induction lines arbitrary: s w emitted)
  case Nil
  then show ?case by (cases cut_off) (auto simp: counted_def prog_defs)
next
  case (Cons x rest)
  obtain now line where x: "x = (now, line)" by (cases x)
  let ?data = "strip (drop 5 line)"
  show ?case
  proof (cases "\<not> startswith line (lit ''data:'') \<or> ?data = lit ''[DONE]''")
    case True
    then show ?thesis using Cons.IH [of emitted s w] by (auto simp: x counted_def prog_defs)
  next
    case False
    show ?thesis
    proof (cases "loads ?data")
      case (Inl e)
      then show ?thesis using False by (auto simp: x counted_def stats_prog_defs)
    next
      case (Inr chunk)
      note chunk = this
      show ?thesis
      proof (cases "take_usage chunk (completion_tokens s) (prompt_tokens s)")
        case (Inl e)
        then show ?thesis
          using False chunk take_usage_Inl [OF Inl] by (auto simp: x counted_def stats_prog_defs)
      next
        case (Inr p)
        obtain ct pt where p: "p = (ct, pt)" by (cases p)
        obtain q where q: "take_usage chunk 0 0 = Inr q" using take_usage_Inr [OF Inr] by blast
        have nu: "no_usage loads \<Longrightarrow> ct = completion_tokens s \<and> pt = prompt_tokens s"
          using chunk Inr p by (auto dest: no_usage_take)
        note base = False chunk Inr [unfolded p] q nu
        show ?thesis
        proof (cases "take_delta chunk")
          case (Inl e)
          then show ?thesis using base by (auto simp: x counted_def stats_prog_defs)
        next
          case (Inr delta)
          let ?s = "s\<lparr>completion_tokens := ct, prompt_tokens := pt\<rparr>"
          show ?thesis
          proof (cases "truthy delta")
            case False
            then show ?thesis
              using base Inr Cons.IH [of emitted ?s w] by (auto simp: x counted_def stats_prog_defs)
          next
            case True
            show ?thesis
            proof (cases delta)
              case (JStr d)
              obtain s1 where s1: "emit (Some recorder) start now emitted d (?s, w) = (Inr (), s1, w @ [d])"
                "out s1 = out s @ d" "attempts s1 = attempts s" "prompt_tokens ?s = 0 \<longrightarrow> counted ?s s1 [d]"
                using emit_recorder [of start now emitted d ?s w] by auto
              show ?thesis
                using base Inr True JStr s1 Cons.IH [of True s1 "w @ [d]"]
                by (auto simp: x counted_def stats_prog_defs split: prod.splits)
            qed (use base Inr True in \<open>auto simp: x counted_def stats_prog_defs\<close>)
          qed
        qed
      qed
    qed
  qed
qed

lemma consume_stream_result:
  "\<exists>s' b. consume_stream loads (Some recorder) r (s, w) =
     ((case failure loads r of None \<Rightarrow> Inr b | Some e \<Rightarrow> Inl e), s', w @ content loads r) \<and>
     out s' = out s @ concat (content loads r) \<and> attempts s' = attempts s \<and>
     (no_usage loads \<longrightarrow> prompt_tokens s = 0 \<longrightarrow> counted s s' (content loads r))"
  using consume_lines_result [of loads "started r" "broken r" "body r" False s w]
  by (auto simp: consume_stream_def reply_result_def counted_def prog_defs split: option.splits)

section \<open>Retries, properties\<close>

lemma attempt_loop_result:
  assumes "int n = retries + 2 - a" "0 < n" "out s = []"
    and "attempt_loop loads (Some recorder) replies retries n a (s, w) = (s', w')"
  shows "a \<le> attempts s' \<and> attempts s' \<le> retries + 1 \<and>
    (\<forall>b. a \<le> b \<and> b < attempts s' \<longrightarrow> (\<exists>e. failure loads (replies b) = Some e \<and> retryable e)) \<and>
    (\<forall>e. failure loads (replies (attempts s')) = Some e \<longrightarrow> retryable e \<longrightarrow> attempts s' = retries + 1) \<and>
    error s' = map_option exn_text (failure loads (replies (attempts s'))) \<and>
    out s' = concat (content loads (replies (attempts s'))) \<and>
    w' = w @ concat (List.map (\<lambda>b. content loads (replies b)) [a..attempts s']) \<and>
    (no_usage loads \<longrightarrow> prompt_tokens s = 0 \<longrightarrow> completion_tokens s = 0 \<longrightarrow>
       completion_tokens s' = int (length (content loads (replies (attempts s')))))"
  using assms
proof (induction n arbitrary: a s w)
  case (Suc n)
  obtain s1 b where c: "consume_stream loads (Some recorder) (replies a) (s\<lparr>attempts := a\<rparr>, w) =
      ((case failure loads (replies a) of None \<Rightarrow> Inr b | Some e \<Rightarrow> Inl e), s1, w @ content loads (replies a))"
    and s1: "out s1 = concat (content loads (replies a))" "attempts s1 = a"
      "no_usage loads \<longrightarrow> prompt_tokens s = 0 \<longrightarrow> counted s s1 (content loads (replies a))"
    using consume_stream_result [of loads "replies a" "s\<lparr>attempts := a\<rparr>" w] Suc.prems(3)
    by (auto simp: counted_def)
  have le: "a \<le> retries + 1" using Suc.prems(1) by simp
  show ?case
  proof (cases "\<exists>e. failure loads (replies a) = Some e \<and> retryable e \<and> a \<le> retries")
    case False
    then have "s' = s1\<lparr>e2e_s := ended (replies a) - started (replies a),
        error := map_option exn_text (failure loads (replies a))\<rparr>" "w' = w @ content loads (replies a)"
      using Suc.prems(4) c by (auto simp: Let_def split: option.splits if_splits)
    then show ?thesis using s1 le False by (auto simp: not_le counted_def)
  next
    case True
    then obtain e where e: "failure loads (replies a) = Some e" "retryable e" "a \<le> retries" by blast
    let ?s = "s1\<lparr>e2e_s := ended (replies a) - started (replies a), error := Some (exn_text e),
        out := [], completion_tokens := 0, ttft_s := 0\<rparr>"
    have loop: "attempt_loop loads (Some recorder) replies retries n (a + 1) (?s, w @ content loads (replies a)) = (s', w')"
      using Suc.prems(4) c e by (simp add: Let_def)
    have "int n = retries + 2 - (a + 1)" "0 < n" "out ?s = []"
      using Suc.prems(1) e(3) by auto
    note IH = Suc.IH [OF this loop]
    have "[a..attempts s'] = a # [a + 1..attempts s']" using IH by (simp add: upto_rec1)
    moreover have "\<exists>e. failure loads (replies b) = Some e \<and> retryable e"
      if "a \<le> b" "b < attempts s'" for b
      using IH e that by (cases "b = a") auto
    moreover have "no_usage loads \<longrightarrow> prompt_tokens s = 0 \<longrightarrow> prompt_tokens ?s = 0"
      using s1(3) by (simp add: counted_def)
    ultimately show ?thesis using IH by auto
  qed
qed simp

lemma ocr_page_stream_result:
  assumes "0 \<le> max_retries c" and "ocr_page_stream loads c (Some recorder) replies w = (s, w')"
  shows "1 \<le> attempts s \<and> attempts s \<le> max_retries c + 1 \<and>
    (\<forall>b. 1 \<le> b \<and> b < attempts s \<longrightarrow> (\<exists>e. failure loads (replies b) = Some e \<and> retryable e)) \<and>
    (\<forall>e. failure loads (replies (attempts s)) = Some e \<longrightarrow> retryable e \<longrightarrow> attempts s = max_retries c + 1) \<and>
    error s = map_option exn_text (failure loads (replies (attempts s))) \<and>
    out s = concat (content loads (replies (attempts s))) \<and>
    w' = w @ concat (List.map (\<lambda>b. content loads (replies b)) [1..attempts s]) \<and>
    (no_usage loads \<longrightarrow> completion_tokens s = int (length (content loads (replies (attempts s)))))"
  using attempt_loop_result [of "nat (max_retries c + 1)" "max_retries c" 1 new_stats loads replies w s w'] assms
  by (auto simp: ocr_page_stream_def new_stats_def)



text \<open>A decoder and exchanges for the examples: the data of a line is itself the content delta.\<close>

definition echo_loads :: "pystr \<Rightarrow> exn + json" where
  "echo_loads t = Inr (JObj [(lit ''choices'', JList [JObj [(lit ''delta'', JObj [(lit ''content'', JStr t)])]])])"

definition echo_reply :: "string list \<Rightarrow> exn option \<Rightarrow> reply" where
  "echo_reply ds e = \<lparr>refused = None, status_code = 200,
     body = List.map (\<lambda>d. (0, lit (''data: '' @ d))) ds, broken = e, started = 0, ended = 1\<rparr>"

definition echo_client :: ocr_client where
  "echo_client = \<lparr>model = [], max_tokens = 512, max_retries = 2, client_prompt = []\<rparr>"

definition cut_then_whole :: "int \<Rightarrow> reply" where
  "cut_then_whole a = (if a = 1 then echo_reply [''ab''] (Some (TransportError []))
     else echo_reply [''ab'', ''c'', ''[DONE]''] None)"

lemma cut_then_whole_results:
  "reply_result echo_loads (cut_then_whole 1) = ([lit ''ab''], Some (TransportError []))"
  "reply_result echo_loads (cut_then_whole 2) = ([lit ''ab'', lit ''c''], None)"
  by (simp_all add: reply_result_def cut_then_whole_def echo_reply_def echo_loads_def take_usage_def
      take_delta_def startswith_def strip_def lstrip_def rstrip_def is_ws_def lit_def)

lemma cut_then_whole_runs:
  "\<exists>s. ocr_page_stream echo_loads echo_client (Some recorder) cut_then_whole [] =
     (s, [lit ''ab'', lit ''ab'', lit ''c'']) \<and> attempts s = 2 \<and> error s = None \<and> out s = lit ''abc''"
proof -
  obtain s w where run: "ocr_page_stream echo_loads echo_client (Some recorder) cut_then_whole [] = (s, w)"
    by (cases "ocr_page_stream echo_loads echo_client (Some recorder) cut_then_whole []")
  have c: "max_retries echo_client = 2" by (simp add: echo_client_def)
  have res: "1 \<le> attempts s"
    "\<forall>b. 1 \<le> b \<and> b < attempts s \<longrightarrow> (\<exists>e. failure echo_loads (cut_then_whole b) = Some e \<and> retryable e)"
    "\<forall>e. failure echo_loads (cut_then_whole (attempts s)) = Some e \<longrightarrow> retryable e \<longrightarrow> attempts s = 3"
    "error s = map_option exn_text (failure echo_loads (cut_then_whole (attempts s)))"
    "out s = concat (content echo_loads (cut_then_whole (attempts s)))"
    "w = concat (List.map (\<lambda>b. content echo_loads (cut_then_whole b)) [1..attempts s])"
    using ocr_page_stream_result [OF _ run] c by auto
  have "attempts s \<noteq> 1" using res(3) cut_then_whole_results(1) by auto
  moreover have "\<not> 2 < attempts s"
    using res(2) [rule_format, of 2] cut_then_whole_results(2) by auto
  ultimately have k: "attempts s = 2" using res(1) by linarith
  have "[1..2] = [1, 2 :: int]" by (simp add: upto_rec1)
  then show ?thesis using run res(4-6) k cut_then_whole_results by (simp add: lit_def)
qed

lemma echo_no_usage: "no_usage echo_loads"
  by (auto simp: no_usage_def echo_loads_def lit_inject)



text \<open>
  Tokens can be relayed twice. The flag that should forbid a retry after the first token,
  \<open>emitted\<close>, is the return value of a call that raised, so it is never set: when a stream breaks
  off with a retryable exception after it delivered text and the second exchange succeeds, the
  client retries, and what it relayed is not the text it returns.
\<close>

theorem retry_repeats_tokens:
  assumes "1 \<le> max_retries c"
    and "failure loads (replies 1) = Some e" "retryable e" and "concat (content loads (replies 1)) \<noteq> []"
    and "failure loads (replies 2) = None"
    and "ocr_page_stream loads c (Some recorder) replies [] = (s, w')"
  shows "attempts s = 2 \<and> error s = None \<and> w' = content loads (replies 1) @ content loads (replies 2) \<and>
    concat w' \<noteq> out s"
proof -
  have *: "1 \<le> attempts s"
    "\<forall>b. 1 \<le> b \<and> b < attempts s \<longrightarrow> (\<exists>e. failure loads (replies b) = Some e \<and> retryable e)"
    "\<forall>e. failure loads (replies (attempts s)) = Some e \<longrightarrow> retryable e \<longrightarrow> attempts s = max_retries c + 1"
    "error s = map_option exn_text (failure loads (replies (attempts s)))"
    "out s = concat (content loads (replies (attempts s)))"
    "w' = concat (List.map (\<lambda>b. content loads (replies b)) [1..attempts s])"
    using ocr_page_stream_result [OF _ assms(6)] assms(1) by auto
  have "attempts s \<noteq> 1" using *(3) assms(1-3) by auto
  moreover have "\<not> 2 < attempts s" using *(2) [rule_format, of 2] assms(5) by auto
  ultimately have k: "attempts s = 2" using *(1) by linarith
  have "[1..2] = [1, 2 :: int]" by (simp add: upto_rec1)
  then have w': "w' = content loads (replies 1) @ content loads (replies 2)" using *(6) k by simp
  show ?thesis using w' *(4,5) k assms(4,5) by simp
qed

lemma retry_repeats_tokens_witness:
  "\<exists>s. ocr_page_stream echo_loads echo_client (Some recorder) cut_then_whole [] =
     (s, [lit ''ab'', lit ''ab'', lit ''c'']) \<and> out s \<noteq> lit ''ababc''"
proof -
  obtain s where run: "ocr_page_stream echo_loads echo_client (Some recorder) cut_then_whole [] =
     (s, [lit ''ab'', lit ''ab'', lit ''c''])" using cut_then_whole_runs by blast
  have "1 \<le> max_retries echo_client" "lit ''ab'' @ lit ''ab'' @ lit ''c'' = lit ''ababc''"
    by (simp_all add: echo_client_def lit_def)
  then show ?thesis
    using retry_repeats_tokens [OF _ _ _ _ _ run] run cut_then_whole_results by auto
qed

end
