(* ===== verification/Interfaces.thy ===== *)
theory Interfaces
  imports Py_Effects
begin

text \<open>
  Services seen from their client. A service's state is reached through an abstraction \<open>view\<close> of the
  world; \<open>outcome view m c\<close> says that program \<open>m\<close>, when it returns, has had the effect \<open>c\<close> on it, and
  when it raises has had the effect or none. The interfaces of the development (Redis, the file
  system) state the laws of their operations with it. \<open>keeps\<close>, \<open>quiet\<close> and \<open>returns\<close> are what the
  proofs about clients need of a program: the properties of the view it keeps, that it does not
  raise the worker's own exception, that it raises nothing.
\<close>

section \<open>Effects\<close>

definition does_nothing :: "'s \<Rightarrow> 'a \<Rightarrow> 's \<Rightarrow> bool" where
  "does_nothing s a s' \<longleftrightarrow> s' = s"

definition outcome :: "('w \<Rightarrow> 's) \<Rightarrow> ('w, 'a) prog \<Rightarrow> ('s \<Rightarrow> 'a \<Rightarrow> 's \<Rightarrow> bool) \<Rightarrow> bool" where
  "outcome view m c \<longleftrightarrow> (\<forall>w. case m w of
       (Inr a, w') \<Rightarrow> c (view w) a (view w')
     | (Inl e, w') \<Rightarrow> view w' = view w \<or> (\<exists>a. c (view w) a (view w')))"

definition quiet :: "('w, 'a) prog \<Rightarrow> bool" where
  \<comment> \<open>never raises \<open>JobCancelled\<close>, an exception of the worker's own\<close>
  "quiet m \<longleftrightarrow> tri (\<lambda>_. True) m (\<lambda>_ _. True) (\<lambda>e _. e \<noteq> JobCancelled)"

lemma quietD: "quiet m \<Longrightarrow> m w = (Inl e, w') \<Longrightarrow> e \<noteq> JobCancelled"
  unfolding quiet_def by (drule tri_InlD [where w = w]) simp_all

definition effect :: "('w \<Rightarrow> 's) \<Rightarrow> ('w, 'a) prog \<Rightarrow> ('s \<Rightarrow> 'a \<Rightarrow> 's \<Rightarrow> bool) \<Rightarrow> bool" where
  "effect view m c \<longleftrightarrow> outcome view m c \<and> quiet m"

lemma effect_outcome: "effect view m c \<Longrightarrow> outcome view m c"
  by (simp add: effect_def)

lemma effect_quiet: "effect view m c \<Longrightarrow> quiet m"
  by (simp add: effect_def)

lemma outcome_InrD: "outcome view m c \<Longrightarrow> m w = (Inr a, w') \<Longrightarrow> c (view w) a (view w')"
  unfolding outcome_def by (drule spec [of _ w]) simp

lemma outcome_InlD:
  "outcome view m c \<Longrightarrow> m w = (Inl e, w') \<Longrightarrow> view w' = view w \<or> (\<exists>a. c (view w) a (view w'))"
  unfolding outcome_def by (drule spec [of _ w]) simp

text \<open>The triple of a command: its effect on a return, its effect or none on an exception.\<close>

lemma tri_effect:
  assumes "outcome view m c"
  shows "tri (\<lambda>w. (\<forall>a s'. c (view w) a s' \<longrightarrow> Q a s' \<and> (\<forall>e. E e s')) \<and> (\<forall>e. E e (view w)))
    m (\<lambda>a w. Q a (view w)) (\<lambda>e w. E e (view w))"
  by (rule triI) (use outcome_InrD [OF assms] outcome_InlD [OF assms] in metis)+

text \<open>A command keeps every property of the view that its effect keeps.\<close>

lemma tri_effect_inv:
  assumes "outcome view m c" and "\<And>s a s'. I s \<Longrightarrow> c s a s' \<Longrightarrow> I s'"
  shows "tri (\<lambda>w. I (view w)) m (\<lambda>a w. I (view w)) (\<lambda>e w. I (view w))"
  by (rule triI) (use outcome_InrD [OF assms(1)] outcome_InlD [OF assms(1)] assms(2) in metis)+

definition returns :: "('w, 'a) prog \<Rightarrow> bool" where
  "returns m \<longleftrightarrow> (\<forall>w. \<exists>a w'. m w = (Inr a, w'))"

lemma returnsD: "returns m \<Longrightarrow> \<exists>a w'. m w = (Inr a, w')"
  by (simp add: returns_def)

section \<open>Properties kept\<close>

definition keeps :: "('w \<Rightarrow> 's) \<Rightarrow> ('s \<Rightarrow> bool) \<Rightarrow> ('w, 'a) prog \<Rightarrow> bool" where
  "keeps view I m \<longleftrightarrow> tri (\<lambda>w. I (view w)) m (\<lambda>a w. I (view w)) (\<lambda>e w. I (view w))"

named_theorems keeps_rules "programs that keep a property of the store"

lemma keeps_outcome: "outcome view m c \<Longrightarrow> (\<And>s a s'. I s \<Longrightarrow> c s a s' \<Longrightarrow> I s') \<Longrightarrow> keeps view I m"
  unfolding keeps_def by (rule tri_effect_inv)

lemmas keeps_effect = keeps_outcome [OF effect_outcome]

lemma keeps_nothing: "effect view m does_nothing \<Longrightarrow> keeps view I m"
  by (rule keeps_effect [where c = does_nothing]) (simp_all add: does_nothing_def)

lemma keeps_retE [keeps_rules]: "keeps view I (retE a)"
  by (simp add: keeps_def tri_def prog_defs)

lemma keeps_raiseE [keeps_rules]: "keeps view I (raiseE e)"
  by (simp add: keeps_def tri_def prog_defs)

lemma keeps_ofE [keeps_rules]: "keeps view I (ofE r)"
  by (simp add: keeps_def tri_def prog_defs split: sum.splits)

lemma keeps_bindE [keeps_rules]:
  "keeps view I m \<Longrightarrow> (\<And>a. keeps view I (k a)) \<Longrightarrow> keeps view I (bindE m k)"
  unfolding keeps_def by (rule tri_bindE)

lemma keeps_catchE [keeps_rules]:
  "keeps view I m \<Longrightarrow> (\<And>e. keeps view I (h e)) \<Longrightarrow> keeps view I (catchE m h)"
  unfolding keeps_def by (rule tri_catchE)

lemma keeps_if [keeps_rules]: "keeps view I m \<Longrightarrow> keeps view I n \<Longrightarrow> keeps view I (if b then m else n)"
  by simp

lemma keeps_seqE [keeps_rules]: "(\<And>m. m \<in> set ms \<Longrightarrow> keeps view I m) \<Longrightarrow> keeps view I (seqE ms)"
  unfolding keeps_def by (rule tri_seqE)

lemma keeps_disj: "keeps view I m \<Longrightarrow> keeps view J m \<Longrightarrow> keeps view (\<lambda>s. I s \<or> J s) m"
  unfolding keeps_def tri_def by (fastforce split: prod.splits sum.splits)

lemma keeps_conj: "keeps view I m \<Longrightarrow> keeps view J m \<Longrightarrow> keeps view (\<lambda>s. I s \<and> J s) m"
  unfolding keeps_def tri_def by (fastforce split: prod.splits sum.splits)

section \<open>Quiet programs\<close>

named_theorems quiet_rules "programs that never raise JobCancelled"

lemma quiet_retE [quiet_rules]: "quiet (retE a)"
  by (simp add: quiet_def tri_def prog_defs)

lemma quiet_raiseE: "e \<noteq> JobCancelled \<Longrightarrow> quiet (raiseE e)"
  by (simp add: quiet_def tri_def prog_defs)

lemma quiet_bindE [quiet_rules]: "quiet m \<Longrightarrow> (\<And>a. quiet (k a)) \<Longrightarrow> quiet (bindE m k)"
  unfolding quiet_def by (rule tri_bindE)

lemma quiet_catch_all [quiet_rules]: "(\<And>e. quiet (h e)) \<Longrightarrow> quiet (catchE m h)"
  unfolding quiet_def tri_def catchE_def by (fastforce split: prod.splits sum.splits)

lemma quiet_if [quiet_rules]: "quiet m \<Longrightarrow> quiet n \<Longrightarrow> quiet (if b then m else n)"
  by simp

lemma quiet_seqE [quiet_rules]: "(\<And>m. m \<in> set ms \<Longrightarrow> quiet m) \<Longrightarrow> quiet (seqE ms)"
  by (induction ms rule: seqE.induct) (auto intro: quiet_rules)

lemma effect_raiseE: "e \<noteq> JobCancelled \<Longrightarrow> effect view (raiseE e) c"
  by (simp add: effect_def quiet_raiseE) (simp add: outcome_def raiseE_def)

section \<open>Programs that return\<close>

lemma map_sum_iff:
  "Inr b = map_sum f g r \<longleftrightarrow> (\<exists>a. r = Inr a \<and> b = g a)" "Inl e = map_sum f g r \<longleftrightarrow> (\<exists>d. r = Inl d \<and> e = f d)"
  by (cases r; auto)+

lemma bindE_Inr_iff:
  "bindE m k w = (Inr b, w') \<longleftrightarrow> (\<exists>a w1. m w = (Inr a, w1) \<and> k a w1 = (Inr b, w'))"
  by (auto simp: bindE_def split: prod.splits sum.splits)

lemma retE_Inr_iff [simp]: "retE a w = (Inr b, w') \<longleftrightarrow> b = a \<and> w' = w"
  by (auto simp: retE_def)

lemma raiseE_not_Inr [simp]: "raiseE e w \<noteq> (Inr b, w')"
  by (simp add: raiseE_def)

named_theorems returns_rules "programs that always return"

lemma returns_retE [returns_rules]: "returns (retE a)"
  by (simp add: returns_def)

lemma returns_bindE [returns_rules]: "returns m \<Longrightarrow> (\<And>a. returns (k a)) \<Longrightarrow> returns (bindE m k)"
  unfolding returns_def
proof
  fix w assume "\<forall>w. \<exists>a w'. m w = (Inr a, w')" and k: "\<And>a. \<forall>w. \<exists>b w'. k a w = (Inr b, w')"
  then obtain a w1 where "m w = (Inr a, w1)" by blast
  then show "\<exists>b w'. bindE m k w = (Inr b, w')" using k by (simp add: bindE_def)
qed

lemma returns_catchE [returns_rules]: "(\<And>e. returns (h e)) \<Longrightarrow> returns (catchE m h)"
  unfolding returns_def
proof
  fix w assume h: "\<And>e. \<forall>w. \<exists>a w'. h e w = (Inr a, w')"
  obtain r w1 where "m w = (r, w1)" by (cases "m w")
  then show "\<exists>a w'. catchE m h w = (Inr a, w')"
    using h by (cases r) (auto simp: catchE_def)
qed

lemma returns_catchE_body: "returns m \<Longrightarrow> returns (catchE m h)"
  unfolding returns_def
proof
  fix w assume "\<forall>w. \<exists>a w'. m w = (Inr a, w')"
  then obtain a w1 where "m w = (Inr a, w1)" by blast
  then show "\<exists>a w'. catchE m h w = (Inr a, w')" by (simp add: catchE_def)
qed

lemma returns_if [returns_rules]: "returns m \<Longrightarrow> returns n \<Longrightarrow> returns (if b then m else n)"
  by simp

lemma returns_seqE [returns_rules]: "(\<And>m. m \<in> set ms \<Longrightarrow> returns m) \<Longrightarrow> returns (seqE ms)"
  by (induction ms rule: seqE.induct) (auto intro: returns_rules)

end
