(* ===== verification/Redis_Api.thy ===== *)
theory Redis_Api
  imports Interfaces "HOL-Library.Product_Lexorder"
begin

text \<open>
  Redis as the pipeline uses it. \<open>redis\<close> is the record of the client's operations, each a program
  that may raise; the theory assumes no implementation of them. What the code relies on is the
  interface \<open>redis_server\<close>: through an abstraction \<open>view\<close> of the server's data (\<open>store\<close>: hashes, flag
  keys, streams, and of each stream's consumer group the last delivered id and the pending
  entries), a command that returns has had its documented effect, and a command that raises has
  had it or has had none, so a lost connection leaves it open whether the server ran the command.
  Times to live are not part of the view: no key expires while a handler runs.

  \<open>reliable_redis\<close> extends it: no command raises. \<open>mem_redis\<close> is an instance that keeps the store in
  memory and fails as a script of faults tells it to; it is what the examples run on.
\<close>

section \<open>The data of the server\<close>

type_synonym sid = "nat \<times> nat"          \<comment> \<open>the stream id \<open>ms-seq\<close>, ordered as Redis orders ids\<close>
type_synonym entry = "sid \<times> dict"

datatype cursor = From_id sid | From_now | Bad_id pystr   \<comment> \<open>an id, \<open>$\<close>, or text that is neither\<close>

record store =
  s_hash :: "pystr \<Rightarrow> dict"               \<comment> \<open>the empty dict when there is no such key\<close>
  s_value :: "pystr \<Rightarrow> pystr option"     \<comment> \<open>the string keys\<close>
  s_stream :: "pystr \<Rightarrow> entry list"
  s_cursor :: "pystr \<Rightarrow> sid"
  s_pend :: "pystr \<Rightarrow> sid set"

record 'w redis =
  hgetall :: "pystr \<Rightarrow> ('w, dict) prog"
  hset :: "pystr \<Rightarrow> dict \<Rightarrow> ('w, unit) prog"
  hset_expire :: "pystr \<Rightarrow> dict \<Rightarrow> int \<Rightarrow> ('w, unit) prog"    \<comment> \<open>\<open>MULTI; HSET; EXPIRE; EXEC\<close>\<close>
  hincrby :: "pystr \<Rightarrow> string \<Rightarrow> int \<Rightarrow> ('w, int) prog"
  expire_key :: "pystr \<Rightarrow> int \<Rightarrow> ('w, unit) prog"
  setex :: "pystr \<Rightarrow> int \<Rightarrow> pystr \<Rightarrow> ('w, unit) prog"
  get_key :: "pystr \<Rightarrow> ('w, pystr option) prog"
  exists_key :: "pystr \<Rightarrow> ('w, bool) prog"
  xadd :: "pystr \<Rightarrow> dict \<Rightarrow> nat option \<Rightarrow> ('w, sid) prog"      \<comment> \<open>the bound is approximate\<close>
  xread :: "pystr \<Rightarrow> cursor \<Rightarrow> nat \<Rightarrow> ('w, entry list) prog"
  xgroup_create :: "pystr \<Rightarrow> ('w, unit) prog"
  xreadgroup :: "pystr \<Rightarrow> nat \<Rightarrow> ('w, entry list) prog"
  xautoclaim :: "pystr \<Rightarrow> nat \<Rightarrow> ('w, (sid \<times> dict option) list) prog"
  xack :: "pystr \<Rightarrow> sid \<Rightarrow> ('w, unit) prog"
  xdel :: "pystr \<Rightarrow> sid \<Rightarrow> ('w, unit) prog"
  xlen :: "pystr \<Rightarrow> ('w, int) prog"
  xpending :: "pystr \<Rightarrow> ('w, int) prog"                   \<comment> \<open>the group's \<open>pending\<close> of \<open>XINFO GROUPS\<close>\<close>

section \<open>Effects of the commands\<close>

type_synonym 'a command = "store \<Rightarrow> 'a \<Rightarrow> store \<Rightarrow> bool"

definition does_hgetall :: "pystr \<Rightarrow> dict command" where
  "does_hgetall k s a s' \<longleftrightarrow> a = s_hash s k \<and> s' = s"

definition does_hset :: "pystr \<Rightarrow> dict \<Rightarrow> unit command" where
  "does_hset k d s a s' \<longleftrightarrow> s' = s\<lparr>s_hash := (s_hash s)(k := dict_update (s_hash s k) d)\<rparr>"

definition hash_int :: "dict \<Rightarrow> string \<Rightarrow> int" where
  "hash_int h f = (case dget h f of None \<Rightarrow> 0 | Some t \<Rightarrow> (case parse_int t of None \<Rightarrow> 0 | Some n \<Rightarrow> n))"

definition does_hincrby :: "pystr \<Rightarrow> string \<Rightarrow> int \<Rightarrow> int command" where
  \<comment> \<open>on a field that holds no integer the command answers with an error, so it does not return\<close>
  "does_hincrby k f n s a s' \<longleftrightarrow> a = hash_int (s_hash s k) f + n \<and>
     s' = s\<lparr>s_hash := (s_hash s)(k := dict_update (s_hash s k) [(f, show_int a)])\<rparr>"

definition does_setex :: "pystr \<Rightarrow> pystr \<Rightarrow> unit command" where
  "does_setex k v s a s' \<longleftrightarrow> s' = s\<lparr>s_value := (s_value s)(k \<mapsto> v)\<rparr>"

definition does_get :: "pystr \<Rightarrow> pystr option command" where
  "does_get k s a s' \<longleftrightarrow> a = s_value s k \<and> s' = s"

definition does_exists :: "pystr \<Rightarrow> bool command" where
  "does_exists k s a s' \<longleftrightarrow> a = (s_value s k \<noteq> None) \<and> s' = s"

definition does_xadd :: "pystr \<Rightarrow> dict \<Rightarrow> nat option \<Rightarrow> sid command" where
  \<comment> \<open>the new entry is last and its id larger than all; a bounded stream may lose entries at its old end\<close>
  "does_xadd k d bound s a s' \<longleftrightarrow> (\<forall>e\<in>set (s_stream s k). fst e < a) \<and> s_cursor s k < a \<and>
     (\<exists>n. (bound = None \<longrightarrow> n = 0) \<and> n \<le> length (s_stream s k) \<and>
       s' = s\<lparr>s_stream := (s_stream s)(k := drop n (s_stream s k) @ [(a, d)])\<rparr>)"

definition does_xread :: "pystr \<Rightarrow> cursor \<Rightarrow> nat \<Rightarrow> entry list command" where
  \<comment> \<open>the first \<open>n\<close> entries after the given id; none when the block times out; \<open>$\<close> waits for entries
     appended while the command runs, of which there are none as long as nobody else writes\<close>
  "does_xread k c n s a s' \<longleftrightarrow> (case c of From_id i \<Rightarrow> a = take n (filter (\<lambda>e. i < fst e) (s_stream s k)) \<and> s' = s
     | From_now \<Rightarrow> a = [] \<and> s' = s | Bad_id t \<Rightarrow> False)"

definition does_xreadgroup :: "pystr \<Rightarrow> nat \<Rightarrow> entry list command" where
  "does_xreadgroup k n s a s' \<longleftrightarrow> a = take n (filter (\<lambda>e. s_cursor s k < fst e) (s_stream s k)) \<and>
     s' = (if a = [] then s else
       s\<lparr>s_cursor := (s_cursor s)(k := fst (last a)), s_pend := (s_pend s)(k := s_pend s k \<union> fst ` set a)\<rparr>)"

definition does_xautoclaim :: "pystr \<Rightarrow> nat \<Rightarrow> (sid \<times> dict option) list command" where
  \<comment> \<open>some of the pending entries, those idle for long enough; entries deleted from the stream may
     be dropped from the pending list\<close>
  "does_xautoclaim k n s a s' \<longleftrightarrow> length a \<le> n \<and> distinct (List.map fst a) \<and>
     (\<forall>(i, f)\<in>set a. i \<in> s_pend s k \<and> f = map_of (s_stream s k) i) \<and>
     (\<exists>D. (\<forall>i\<in>D. map_of (s_stream s k) i = None) \<and>
       s' = s\<lparr>s_pend := (s_pend s)(k := s_pend s k - D)\<rparr>)"

definition does_xack :: "pystr \<Rightarrow> sid \<Rightarrow> unit command" where
  "does_xack k i s a s' \<longleftrightarrow> s' = s\<lparr>s_pend := (s_pend s)(k := s_pend s k - {i})\<rparr>"

definition does_xdel :: "pystr \<Rightarrow> sid \<Rightarrow> unit command" where
  "does_xdel k i s a s' \<longleftrightarrow> s' = s\<lparr>s_stream := (s_stream s)(k := filter (\<lambda>e. fst e \<noteq> i) (s_stream s k))\<rparr>"

definition does_xlen :: "pystr \<Rightarrow> int command" where
  "does_xlen k s a s' \<longleftrightarrow> a = int (length (s_stream s k)) \<and> s' = s"

definition does_xpending :: "pystr \<Rightarrow> int command" where
  "does_xpending k s a s' \<longleftrightarrow> a = int (card (s_pend s k)) \<and> s' = s"

lemmas command_defs = does_hgetall_def does_hset_def does_hincrby_def does_setex_def does_get_def does_exists_def
  does_xadd_def does_xread_def does_xreadgroup_def does_xautoclaim_def does_xack_def does_xdel_def
  does_nothing_def does_xlen_def does_xpending_def

section \<open>The interface\<close>

locale redis_server =
  fixes view :: "'w \<Rightarrow> store" and R :: "'w redis"
  assumes hgetall_effect: "effect view (hgetall R k) (does_hgetall k)"
    and hset_effect: "effect view (hset R k d) (does_hset k d)"
    and hset_expire_effect: "effect view (hset_expire R k d ttl) (does_hset k d)"
    and hincrby_effect: "effect view (hincrby R k f n) (does_hincrby k f n)"
    and expire_effect: "effect view (expire_key R k ttl) does_nothing"
    and setex_effect: "effect view (setex R k ttl v) (does_setex k v)"
    and get_effect: "effect view (get_key R k) (does_get k)"
    and exists_effect: "effect view (exists_key R k) (does_exists k)"
    and xadd_effect: "effect view (xadd R k d bound) (does_xadd k d bound)"
    and xread_effect: "effect view (xread R k c m) (does_xread k c m)"
    and xgroup_create_effect: "effect view (xgroup_create R k) does_nothing"
    and xreadgroup_effect: "effect view (xreadgroup R k m) (does_xreadgroup k m)"
    and xautoclaim_effect: "effect view (xautoclaim R k m) (does_xautoclaim k m)"
    and xack_effect: "effect view (xack R k i) (does_xack k i)"
    and xdel_effect: "effect view (xdel R k i) (does_xdel k i)"
    and xlen_effect: "effect view (xlen R k) (does_xlen k)"
    and xpending_effect: "effect view (xpending R k) (does_xpending k)"

locale reliable_redis = redis_server +
  assumes no_fault: "returns (hgetall R k)" "returns (hset R k d)" "returns (hset_expire R k d ttl)"
    "returns (expire_key R k ttl)" "returns (setex R k ttl v)" "returns (get_key R k)"
    "returns (exists_key R k)" "returns (xadd R k d bound)" "returns (xread R k (From_id i) m)"
    "returns (xreadgroup R k m)" "returns (xautoclaim R k m)"
    "returns (xack R k i)" "returns (xdel R k i)" "returns (xlen R k)" "returns (xpending R k)"
    and no_fault_hincrby: "dget (s_hash (view w) k) f = None \<or> dget (s_hash (view w) k) f = Some (show_int old) \<Longrightarrow>
      \<exists>a w'. hincrby R k f n w = (Inr a, w')"

section \<open>An instance in memory\<close>

datatype fault = Fine | Before pystr | After pystr   \<comment> \<open>the message of the connection error\<close>

record memory_db =
  db :: store
  faults :: "fault list"
  clock :: nat

definition run_command :: "(store \<Rightarrow> nat \<Rightarrow> 'a \<times> store) \<Rightarrow> ('z memory_db_scheme, 'a) prog" where
  \<comment> \<open>the next fault of the script decides; an exhausted script means no fault\<close>
  "run_command f = (\<lambda>w.
     let w1 = w\<lparr>faults := tl (faults w), clock := Suc (clock w)\<rparr>;
         (a, s') = f (db w) (clock w)
     in case faults w of
          Before m # _ \<Rightarrow> (Inl (ConnectionError m), w1)
        | After m # _ \<Rightarrow> (Inl (ConnectionError m), w1\<lparr>db := s'\<rparr>)
        | _ \<Rightarrow> (Inr a, w1\<lparr>db := s'\<rparr>))"

definition next_id :: "store \<Rightarrow> pystr \<Rightarrow> sid" where
  "next_id s k = (Suc (fst (foldr max (List.map fst (s_stream s k)) (s_cursor s k))), 0)"

definition mem_redis :: "'z memory_db_scheme redis" where
  "mem_redis = \<lparr>
     hgetall = (\<lambda>k. run_command (\<lambda>s t. (s_hash s k, s))),
     hset = (\<lambda>k d. run_command (\<lambda>s t. ((), s\<lparr>s_hash := (s_hash s)(k := dict_update (s_hash s k) d)\<rparr>))),
     hset_expire = (\<lambda>k d ttl. run_command (\<lambda>s t.
       ((), s\<lparr>s_hash := (s_hash s)(k := dict_update (s_hash s k) d)\<rparr>))),
     hincrby = (\<lambda>k f n. run_command (\<lambda>s t. (hash_int (s_hash s k) f + n,
       s\<lparr>s_hash := (s_hash s)(k := dict_update (s_hash s k) [(f, show_int (hash_int (s_hash s k) f + n))])\<rparr>))),
     expire_key = (\<lambda>k ttl. run_command (\<lambda>s t. ((), s))),
     setex = (\<lambda>k ttl v. run_command (\<lambda>s t. ((), s\<lparr>s_value := (s_value s)(k \<mapsto> v)\<rparr>))),
     get_key = (\<lambda>k. run_command (\<lambda>s t. (s_value s k, s))),
     exists_key = (\<lambda>k. run_command (\<lambda>s t. (s_value s k \<noteq> None, s))),
     xadd = (\<lambda>k d bound. run_command (\<lambda>s t. (next_id s k,
       s\<lparr>s_stream := (s_stream s)(k := s_stream s k @ [(next_id s k, d)])\<rparr>))),
     xread = (\<lambda>k c n. case c of From_id i \<Rightarrow> run_command (\<lambda>s t. (take n (filter (\<lambda>e. i < fst e) (s_stream s k)), s))
       | From_now \<Rightarrow> run_command (\<lambda>s t. ([], s)) | Bad_id t \<Rightarrow> raiseE (ResponseError t)),
     xgroup_create = (\<lambda>k. run_command (\<lambda>s t. ((), s))),
     xreadgroup = (\<lambda>k n. run_command (\<lambda>s t.
       let a = take n (filter (\<lambda>e. s_cursor s k < fst e) (s_stream s k)) in
       (a, if a = [] then s else s\<lparr>s_cursor := (s_cursor s)(k := fst (last a)),
             s_pend := (s_pend s)(k := s_pend s k \<union> fst ` set a)\<rparr>))),
     xautoclaim = (\<lambda>k n. run_command (\<lambda>s t.
       (List.map (\<lambda>i. (i, map_of (s_stream s k) i))
          (take n (remdups (filter (\<lambda>i. i \<in> s_pend s k) (List.map fst (s_stream s k))))), s))),
     xack = (\<lambda>k i. run_command (\<lambda>s t. ((), s\<lparr>s_pend := (s_pend s)(k := s_pend s k - {i})\<rparr>))),
     xdel = (\<lambda>k i. run_command (\<lambda>s t.
       ((), s\<lparr>s_stream := (s_stream s)(k := filter (\<lambda>e. fst e \<noteq> i) (s_stream s k))\<rparr>))),
     xlen = (\<lambda>k. run_command (\<lambda>s t. (int (length (s_stream s k)), s))),
     xpending = (\<lambda>k. run_command (\<lambda>s t. (int (card (s_pend s k)), s)))\<rparr>"

lemma run_command_effect:
  assumes "\<And>s t. c s (fst (f s t)) (snd (f s t))"
  shows "effect db (run_command f) c"
  unfolding effect_def outcome_def quiet_def tri_def run_command_def Let_def
  using assms by (auto split: prod.splits list.splits fault.splits) (metis fst_conv snd_conv)+

lemma foldr_max_ge: "x \<in> set xs \<or> x = m \<Longrightarrow> x \<le> foldr max xs (m :: sid)"
  by (induction xs) (auto simp: le_max_iff_disj)

lemma next_id_greater: "e \<in> set (s_stream s k) \<Longrightarrow> fst e < next_id s k" "s_cursor s k < next_id s k"
proof -
  have below: "x < (Suc (fst y), 0)" if "x \<le> (y :: sid)" for x y
    using that by (cases x; cases y) (auto simp: less_prod_def less_eq_prod_def)
  show "s_cursor s k < next_id s k"
    unfolding next_id_def by (rule below, rule foldr_max_ge) simp
  show "fst e < next_id s k" if "e \<in> set (s_stream s k)"
    unfolding next_id_def by (rule below, rule foldr_max_ge) (use that in auto)
qed

interpretation mem_server: redis_server db mem_redis
proof unfold_locales
  fix k d bound
  show "effect db (xadd mem_redis k d bound) (does_xadd k d bound)"
    unfolding mem_redis_def redis.simps
    by (rule run_command_effect)
      (auto simp: does_xadd_def next_id_greater intro!: exI [of _ "0 :: nat"])
next
  fix k m
  show "effect db (xautoclaim mem_redis k m) (does_xautoclaim k m)"
    unfolding mem_redis_def redis.simps
    by (rule run_command_effect)
      (auto simp: does_xautoclaim_def comp_def distinct_map dest!: in_set_takeD intro!: exI [of _ "{}"])
next
  fix k c m
  show "effect db (xread mem_redis k c m) (does_xread k c m)"
    unfolding mem_redis_def redis.simps
    by (cases c)
      (auto simp: does_xread_def intro!: run_command_effect effect_raiseE)
qed (unfold mem_redis_def redis.simps, (rule run_command_effect; simp add: command_defs Let_def)+)

text \<open>The same server with its fault script erased before every command: it never fails.\<close>

definition calm :: "('z memory_db_scheme, 'a) prog \<Rightarrow> ('z memory_db_scheme, 'a) prog" where
  "calm m = (\<lambda>w. m (w\<lparr>faults := []\<rparr>))"

definition calm_redis :: "'z memory_db_scheme redis" where
  "calm_redis = \<lparr>
     hgetall = (\<lambda>k. calm (hgetall mem_redis k)),
     hset = (\<lambda>k d. calm (hset mem_redis k d)),
     hset_expire = (\<lambda>k d ttl. calm (hset_expire mem_redis k d ttl)),
     hincrby = (\<lambda>k f n. calm (hincrby mem_redis k f n)),
     expire_key = (\<lambda>k ttl. calm (expire_key mem_redis k ttl)),
     setex = (\<lambda>k ttl v. calm (setex mem_redis k ttl v)),
     get_key = (\<lambda>k. calm (get_key mem_redis k)),
     exists_key = (\<lambda>k. calm (exists_key mem_redis k)),
     xadd = (\<lambda>k d b. calm (xadd mem_redis k d b)),
     xread = (\<lambda>k i n. calm (xread mem_redis k i n)),
     xgroup_create = (\<lambda>k. calm (xgroup_create mem_redis k)),
     xreadgroup = (\<lambda>k n. calm (xreadgroup mem_redis k n)),
     xautoclaim = (\<lambda>k n. calm (xautoclaim mem_redis k n)),
     xack = (\<lambda>k i. calm (xack mem_redis k i)),
     xdel = (\<lambda>k i. calm (xdel mem_redis k i)),
     xlen = (\<lambda>k. calm (xlen mem_redis k)),
     xpending = (\<lambda>k. calm (xpending mem_redis k))\<rparr>"

lemma effect_calm:
  assumes "effect db m c"
  shows "effect db (calm m) c"
proof -
  have step: "case m (w\<lparr>faults := []\<rparr>) of (Inr a, w') \<Rightarrow> c (db (w\<lparr>faults := []\<rparr>)) a (db w')
      | (Inl e, w') \<Rightarrow> db w' = db (w\<lparr>faults := []\<rparr>) \<or> (\<exists>a. c (db (w\<lparr>faults := []\<rparr>)) a (db w'))" for w
    using effect_outcome [OF assms] unfolding outcome_def by (rule spec)
  have db: "db (w\<lparr>faults := []\<rparr>) = db w" for w by simp
  from step have "outcome db (calm m) c" unfolding outcome_def calm_def db by (rule allI)
  moreover have "quiet (calm m)"
    unfolding quiet_def calm_def by (rule triI) (auto dest: quietD [OF effect_quiet [OF assms]])
  ultimately show ?thesis by (simp add: effect_def)
qed

lemma returns_calm: "returns (calm (run_command f))"
  by (auto simp: returns_def calm_def run_command_def Let_def split: prod.splits)

interpretation calm_server: reliable_redis db calm_redis
  by unfold_locales
    (unfold calm_redis_def redis.simps,
      (rule effect_calm, rule mem_server.hgetall_effect mem_server.hset_effect mem_server.hset_expire_effect
         mem_server.hincrby_effect mem_server.expire_effect mem_server.setex_effect mem_server.get_effect mem_server.exists_effect
         mem_server.xadd_effect mem_server.xread_effect mem_server.xgroup_create_effect
         mem_server.xreadgroup_effect mem_server.xautoclaim_effect mem_server.xack_effect
         mem_server.xdel_effect mem_server.xlen_effect mem_server.xpending_effect)+,
      unfold mem_redis_def redis.simps cursor.case, (rule returns_calm | rule returnsD [OF returns_calm])+)

end
