(* ===== verification/Schemas.thy ===== *)
theory Schemas
  imports Py_Effects
begin

text \<open>
  \<open>common/schemas.py\<close>: the enumerations and records the gateway and the workers share. An
  enumeration is a datatype with its \<open>value\<close>; \<open>JobStatus(text)\<close> is the partial inverse that raises
  \<open>ValueError\<close>. Timestamps are values of a type parameter \<open>'t\<close>.
\<close>

datatype job_status = Queued | Processing | Completed | Failed | Cancelled

fun status_value :: "job_status \<Rightarrow> pystr" where
  "status_value Queued = lit ''queued''"
| "status_value Processing = lit ''processing''"
| "status_value Completed = lit ''completed''"
| "status_value Failed = lit ''failed''"
| "status_value Cancelled = lit ''cancelled''"

definition statuses :: "job_status list" where
  "statuses = [Queued, Processing, Completed, Failed, Cancelled]"

definition terminal :: "job_status \<Rightarrow> bool" where
  "terminal s \<longleftrightarrow> s \<in> {Completed, Failed, Cancelled}"

datatype event_type = Job_started | Page_started | Token | Page_complete | Progress
  | Job_complete | Job_failed | Job_cancelled

fun event_value :: "event_type \<Rightarrow> pystr" where
  "event_value Job_started = lit ''job_started''"
| "event_value Page_started = lit ''page_started''"
| "event_value Token = lit ''token''"
| "event_value Page_complete = lit ''page_complete''"
| "event_value Progress = lit ''progress''"
| "event_value Job_complete = lit ''job_complete''"
| "event_value Job_failed = lit ''job_failed''"
| "event_value Job_cancelled = lit ''job_cancelled''"

definition event_types :: "event_type list" where
  "event_types = [Job_started, Page_started, Token, Page_complete, Progress, Job_complete,
     Job_failed, Job_cancelled]"

definition event_terminal :: "event_type \<Rightarrow> bool" where
  "event_terminal t \<longleftrightarrow> t \<in> {Job_complete, Job_failed, Job_cancelled}"

definition enum_of_value :: "('e \<Rightarrow> pystr) \<Rightarrow> 'e list \<Rightarrow> pystr \<Rightarrow> exn + 'e" where
  \<comment> \<open>calling an enumeration class on a value\<close>
  "enum_of_value val es t =
     (case List.find (\<lambda>e. val e = t) es of Some e \<Rightarrow> Inr e | None \<Rightarrow> Inl (ValueError (t @ lit '' is not a valid value'')))"

definition parse_status :: "pystr \<Rightarrow> exn + job_status" where
  "parse_status = enum_of_value status_value statuses"

definition parse_event_type :: "pystr \<Rightarrow> exn + event_type" where
  "parse_event_type = enum_of_value event_value event_types"

lemma parse_status_value [simp]: "parse_status (status_value s) = Inr s"
  by (cases s) (simp_all add: parse_status_def enum_of_value_def statuses_def)

lemma parse_event_value [simp]: "parse_event_type (event_value t) = Inr t"
  by (cases t) (simp_all add: parse_event_type_def enum_of_value_def event_types_def)

lemma status_value_inject [simp]: "status_value s = status_value t \<longleftrightarrow> s = t"
  by (metis parse_status_value Inr_inject)

lemma parse_status_iff: "parse_status t = Inr s \<longleftrightarrow> t = status_value s"
proof
  assume "parse_status t = Inr s"
  then have "List.find (\<lambda>e. status_value e = t) statuses = Some s"
    by (auto simp: parse_status_def enum_of_value_def split: option.splits)
  then show "t = status_value s" by (auto simp: find_Some_iff)
qed simp

datatype page_source = Ocr | Native | Duplicate | Blank

fun source_value :: "page_source \<Rightarrow> pystr" where
  "source_value Ocr = lit ''ocr''"
| "source_value Native = lit ''native''"
| "source_value Duplicate = lit ''duplicate''"
| "source_value Blank = lit ''blank''"

record page_result =
  pr_index :: int
  pr_text :: pystr
  pr_source :: page_source
  pr_regions :: int
  pr_chars :: int
  pr_duration_ms :: rat
  pr_ttft_s :: "rat option"
  pr_tokens :: int
  pr_dpi :: int
  pr_width :: int
  pr_height :: int
  pr_skew_deg :: rat
  pr_duplicate_of :: "int option"
  pr_error :: "pystr option"

definition new_page :: "int \<Rightarrow> page_result" where
  \<comment> \<open>the defaults of \<open>PageResult\<close>\<close>
  "new_page i = \<lparr>pr_index = i, pr_text = [], pr_source = Ocr, pr_regions = 1, pr_chars = 0, pr_duration_ms = 0,
     pr_ttft_s = None, pr_tokens = 0, pr_dpi = 0, pr_width = 0, pr_height = 0, pr_skew_deg = 0,
     pr_duplicate_of = None, pr_error = None\<rparr>"

definition skipped :: "page_result \<Rightarrow> bool" where
  "skipped p \<longleftrightarrow> pr_source p \<in> {Blank, Duplicate}"

record artifacts =
  json_path :: "pystr option"
  markdown_path :: "pystr option"
  pdf_path :: "pystr option"

record 't job_timings =
  t_queued_at :: "'t option"
  t_started_at :: "'t option"
  t_completed_at :: "'t option"
  t_queue_wait_s :: "rat option"
  t_process_s :: "rat option"

record 't ocr_result =
  r_job_id :: pystr
  r_status :: job_status
  r_filename :: pystr
  r_tenant :: pystr
  r_page_count :: int
  r_pages :: "page_result list"
  r_full_text :: pystr
  r_error :: "pystr option"
  r_model :: pystr
  r_engine :: pystr
  r_attempts :: int
  r_timings :: "'t job_timings"
  r_artifacts :: artifacts

definition ocr_pages :: "'t ocr_result \<Rightarrow> int" where
  "ocr_pages r = int (length (filter (\<lambda>p. pr_source p = Ocr) (r_pages r)))"

record 't stream_event =
  ev_type :: event_type
  ev_job_id :: pystr
  ev_page :: "int option"
  ev_data :: pystr
  ev_seq :: int
  ev_ts :: 't
  ev_id :: "(nat \<times> nat) option"

record 't job_state =
  js_job_id :: pystr
  js_status :: job_status
  js_filename :: pystr
  js_tenant :: pystr
  js_attempts :: int
  js_pages_done :: int
  js_page_count :: int
  js_error :: "pystr option"
  js_created_at :: "'t option"
  js_updated_at :: "'t option"

definition state_progress :: "'t job_state \<Rightarrow> rat" where
  "state_progress s = (if js_page_count s \<noteq> 0
     then py_round_n (of_int (js_pages_done s) / of_int (js_page_count s)) 3 else 0)"

end
