(* ===== verification/Events.thy ===== *)
theory Events
  imports Redis_Api Schemas Config
begin

text \<open>
  \<open>common/events.py\<close>: the job hash and the job's replayable event stream. Every function is a
  program over the world of a Redis client \<open>R\<close>. \<open>time_api\<close> stands for \<open>datetime\<close> and
  \<open>time\<close>: \<open>isoformat\<close>, \<open>fromisoformat\<close>, the current time, the seconds between two times and the
  performance counter are parameters.
\<close>

record ('w, 't) time_api =
  iso :: "'t \<Rightarrow> pystr"
  from_iso :: "pystr \<Rightarrow> exn + 't"
  now_utc :: "('w, 't) prog"
  seconds_since :: "'t \<Rightarrow> 't \<Rightarrow> exn + rat"      \<comment> \<open>\<open>(a - b).total_seconds()\<close>\<close>
  perf :: "('w, rat) prog"

section \<open>Events\<close>

definition event_fields :: "('w, 't) time_api \<Rightarrow> 't stream_event \<Rightarrow> dict" where
  "event_fields T ev =
     [(''type'', event_value (ev_type ev)),
      (''page'', (case ev_page ev of None \<Rightarrow> [] | Some p \<Rightarrow> show_int p)),
      (''data'', ev_data ev),
      (''seq'', show_int (ev_seq ev)),
      (''ts'', iso T (ev_ts ev))]"

definition publish ::
  "'w redis \<Rightarrow> settings \<Rightarrow> ('w, 't) time_api \<Rightarrow> 't stream_event \<Rightarrow> ('w, sid) prog" where
  "publish R S T ev = xadd R (events_stream (ev_job_id ev)) (event_fields T ev) (Some (event_stream_maxlen S))"

definition publish_now ::
  "'w redis \<Rightarrow> settings \<Rightarrow> ('w, 't) time_api \<Rightarrow> event_type \<Rightarrow> pystr \<Rightarrow> pystr \<Rightarrow> ('w, unit) prog" where
  \<comment> \<open>\<open>events.publish(StreamEvent(type=.., job_id=.., data=..))\<close>; the event's time is the current time\<close>
  "publish_now R S T ty job_id text =
     bindE (now_utc T) (\<lambda>now. bindE (publish R S T \<lparr>ev_type = ty, ev_job_id = job_id, ev_page = None,
         ev_data = text, ev_seq = 0, ev_ts = now, ev_id = None\<rparr>) (\<lambda>_. retE ()))"

definition py_int :: "pystr \<Rightarrow> exn + int" where
  \<comment> \<open>\<open>int(text)\<close>\<close>
  "py_int t = (case parse_int t of Some n \<Rightarrow> Inr n | None \<Rightarrow> Inl (ValueError t))"

definition non_empty :: "pystr option \<Rightarrow> pystr option" where
  \<comment> \<open>\<open>value or None\<close>\<close>
  "non_empty v = (case v of Some [] \<Rightarrow> None | _ \<Rightarrow> v)"

definition parse_event ::
  "('w, 't) time_api \<Rightarrow> pystr \<Rightarrow> sid \<Rightarrow> dict \<Rightarrow> ('w, 't stream_event) prog" where
  "parse_event T job_id i flds =
     bindE (ofE (case dget flds ''type'' of None \<Rightarrow> Inl (KeyError (lit ''type'')) | Some t \<Rightarrow> parse_event_type t)) (\<lambda>ty.
     bindE (ofE (case non_empty (dget flds ''page'') of None \<Rightarrow> Inr None
              | Some t \<Rightarrow> map_sum id Some (py_int t))) (\<lambda>page.
     bindE (ofE (case non_empty (dget flds ''seq'') of None \<Rightarrow> Inr 0 | Some t \<Rightarrow> py_int t)) (\<lambda>sq.
     bindE (case non_empty (dget flds ''ts'') of None \<Rightarrow> now_utc T | Some t \<Rightarrow> ofE (from_iso T t)) (\<lambda>ts.
     retE \<lparr>ev_type = ty, ev_job_id = job_id, ev_page = page, ev_data = dget_or flds ''data'' [],
       ev_seq = sq, ev_ts = ts, ev_id = Some i\<rparr>))))"

definition read_events ::
  "'w redis \<Rightarrow> ('w, 't) time_api \<Rightarrow> pystr \<Rightarrow> cursor \<Rightarrow> nat \<Rightarrow> ('w, 't stream_event list) prog" where
  "read_events R T job_id last_id count =
     bindE (xread R (events_stream job_id) last_id count)
       (mapE (\<lambda>(i, flds). parse_event T job_id i flds))"

definition expire_events :: "'w redis \<Rightarrow> settings \<Rightarrow> pystr \<Rightarrow> ('w, unit) prog" where
  "expire_events R S job_id = expire_key R (events_stream job_id) (event_ttl_s S)"

section \<open>Job state\<close>

definition set_status ::
  "'w redis \<Rightarrow> settings \<Rightarrow> ('w, 't) time_api \<Rightarrow> pystr \<Rightarrow> job_status \<Rightarrow> (string \<times> pystr option) list \<Rightarrow>
   ('w, unit) prog" where
  "set_status R S T job_id status flds =
     bindE (now_utc T) (\<lambda>now.
       let mapping = dict_update [(''status'', status_value status), (''updated_at'', iso T now)] (dict_some flds)
       in hset_expire R (job_key job_id) mapping (result_ttl_days S * 86400))"

definition update_job :: "'w redis \<Rightarrow> pystr \<Rightarrow> (string \<times> pystr option) list \<Rightarrow> ('w, unit) prog" where
  "update_job R job_id flds =
     (let payload = dict_some flds
      in if payload \<noteq> [] then hset R (job_key job_id) payload else retE ())"

definition incr_pages_done :: "'w redis \<Rightarrow> pystr \<Rightarrow> int \<Rightarrow> ('w, int) prog" where
  "incr_pages_done R job_id by_n = hincrby R (job_key job_id) ''pages_done'' by_n"

definition get_job :: "'w redis \<Rightarrow> pystr \<Rightarrow> ('w, dict) prog" where
  "get_job R job_id = hgetall R (job_key job_id)"

definition int_field :: "dict \<Rightarrow> string \<Rightarrow> exn + int" where
  \<comment> \<open>\<open>int(raw.get(key) or 0)\<close>\<close>
  "int_field raw k = (case non_empty (dget raw k) of None \<Rightarrow> Inr 0 | Some t \<Rightarrow> py_int t)"

definition time_field :: "('w, 't) time_api \<Rightarrow> dict \<Rightarrow> string \<Rightarrow> exn + 't option" where
  "time_field T raw k =
     (case non_empty (dget raw k) of None \<Rightarrow> Inr None | Some t \<Rightarrow> map_sum id Some (from_iso T t))"

definition parse_state :: "('w, 't) time_api \<Rightarrow> pystr \<Rightarrow> dict \<Rightarrow> ('w, 't job_state) prog" where
  "parse_state T job_id raw =
     bindE (ofE (parse_status (dget_or raw ''status'' (status_value Queued)))) (\<lambda>st.
     bindE (ofE (int_field raw ''attempts'')) (\<lambda>att.
     bindE (ofE (int_field raw ''pages_done'')) (\<lambda>pd.
     bindE (ofE (int_field raw ''page_count'')) (\<lambda>pc.
     bindE (ofE (time_field T raw ''created_at'')) (\<lambda>ca.
     bindE (ofE (time_field T raw ''updated_at'')) (\<lambda>ua.
     retE \<lparr>js_job_id = job_id, js_status = st, js_filename = dget_or raw ''filename'' [],
       js_tenant = dget_or raw ''tenant'' (lit ''default''), js_attempts = att, js_pages_done = pd,
       js_page_count = pc, js_error = dget raw ''error'', js_created_at = ca, js_updated_at = ua\<rparr>))))))"

section \<open>Cancellation\<close>

definition request_cancel :: "'w redis \<Rightarrow> settings \<Rightarrow> pystr \<Rightarrow> ('w, unit) prog" where
  "request_cancel R S job_id = setex R (cancel_key job_id) (event_ttl_s S) (lit ''1'')"

definition is_cancelled :: "'w redis \<Rightarrow> pystr \<Rightarrow> ('w, bool) prog" where
  "is_cancelled R job_id = exists_key R (cancel_key job_id)"

section \<open>What is published is read back\<close>

definition time_ok :: "('w, 't) time_api \<Rightarrow> bool" where
  \<comment> \<open>\<open>fromisoformat\<close> inverts \<open>isoformat\<close>, whose text is never empty\<close>
  "time_ok T \<longleftrightarrow> (\<forall>t. from_iso T (iso T t) = Inr t \<and> iso T t \<noteq> [])"

lemma non_empty_simps [simp]:
  "non_empty None = None" "non_empty (Some []) = None" "t \<noteq> [] \<Longrightarrow> non_empty (Some t) = Some t"
  by (simp_all add: non_empty_def split: list.splits)

lemma py_int_show [simp]: "py_int (show_int n) = Inr n"
  by (simp add: py_int_def)

lemma parse_event_fields:
  assumes "time_ok T"
  shows "parse_event T (ev_job_id ev) i (event_fields T ev) w = (Inr (ev\<lparr>ev_id := Some i\<rparr>), w)"
  using assms
  by (cases "ev_page ev")
    (simp_all add: parse_event_def event_fields_def time_ok_def prog_defs dget_def dget_or_def)

end
