(* ===== verification/Queue.thy ===== *)
theory Queue
  imports Events
begin

text \<open>
  \<open>common/queue.py\<close>: the job queue, a consumer group on a Redis stream. The queue's stream key is
  \<open>queue_stream\<close> of the settings; the group is the one whose cursor and pending list the \<open>store\<close> has.
\<close>

record queued_job =
  qj_entry_id :: sid
  qj_job_id :: pystr
  qj_deliveries :: nat
  qj_fields :: dict

definition enqueue :: "'w redis \<Rightarrow> settings \<Rightarrow> pystr \<Rightarrow> dict \<Rightarrow> ('w, sid) prog" where
  "enqueue R S job_id flds = xadd R (queue_stream S) ((''job_id'', job_id) # flds) None"

definition ensure_group :: "'w redis \<Rightarrow> settings \<Rightarrow> ('w, unit) prog" where
  "ensure_group R S = catchE (xgroup_create R (queue_stream S))
     (\<lambda>e. case e of ResponseError m \<Rightarrow> if contains m (lit ''BUSYGROUP'') then retE () else raiseE e
        | _ \<Rightarrow> raiseE e)"

definition reserve :: "'w redis \<Rightarrow> settings \<Rightarrow> nat \<Rightarrow> ('w, queued_job list) prog" where
  "reserve R S count =
     bindE (xreadgroup R (queue_stream S) count) (\<lambda>entries. retE (List.map_filter
       (\<lambda>(i, f). map_option (\<lambda>j. \<lparr>qj_entry_id = i, qj_job_id = j, qj_deliveries = 1, qj_fields = f\<rparr>)
          (dget f ''job_id'')) entries))"

definition ack :: "'w redis \<Rightarrow> settings \<Rightarrow> sid \<Rightarrow> ('w, unit) prog" where
  "ack R S i = bindE (xack R (queue_stream S) i) (\<lambda>_. xdel R (queue_stream S) i)"

fun reclaim_entries :: "'w redis \<Rightarrow> settings \<Rightarrow> (sid \<times> dict option) list \<Rightarrow> ('w, queued_job list) prog" where
  "reclaim_entries R S [] = retE []"
| "reclaim_entries R S ((i, f) # rest) =
     (case Option.bind f (\<lambda>d. dget d ''job_id'') of
        None \<Rightarrow> bindE (ack R S i) (\<lambda>_. reclaim_entries R S rest)
      | Some j \<Rightarrow> bindE (reclaim_entries R S rest) (\<lambda>jobs.
          retE (\<lparr>qj_entry_id = i, qj_job_id = j, qj_deliveries = 2, qj_fields = the f\<rparr> # jobs)))"

definition reclaim :: "'w redis \<Rightarrow> settings \<Rightarrow> nat \<Rightarrow> ('w, queued_job list) prog" where
  "reclaim R S count =
     bindE (catchE (bindE (xautoclaim R (queue_stream S) count) (\<lambda>es. retE (Some es)))
              (\<lambda>e. case e of ResponseError _ \<Rightarrow> retE None | _ \<Rightarrow> raiseE e))
       (\<lambda>r. case r of None \<Rightarrow> retE [] | Some entries \<Rightarrow> reclaim_entries R S entries)"

definition dead_letter :: "'w redis \<Rightarrow> settings \<Rightarrow> (sid \<Rightarrow> pystr) \<Rightarrow> queued_job \<Rightarrow> pystr \<Rightarrow> ('w, unit) prog" where
  \<comment> \<open>\<open>show_id\<close> prints an entry id\<close>
  "dead_letter R S show_id job reason =
     bindE (xadd R (dead_letter_stream S) [(''job_id'', qj_job_id job), (''reason'', take 500 reason),
         (''entry_id'', show_id (qj_entry_id job))] (Some 1000)) (\<lambda>_.
     ack R S (qj_entry_id job))"

definition catch_response_error :: "('w, 'a) prog \<Rightarrow> ('w, 'a) prog \<Rightarrow> ('w, 'a) prog" where
  "catch_response_error m h = catchE m (\<lambda>e. case e of ResponseError _ \<Rightarrow> h | _ \<Rightarrow> raiseE e)"

definition stats :: "'w redis \<Rightarrow> settings \<Rightarrow> ('w, int \<times> int \<times> int) prog" where
  \<comment> \<open>\<open>(depth, pending, dead)\<close>; an exception in the first block leaves \<open>pending\<close> as far as it was set\<close>
  "stats R S =
     bindE (catch_response_error
        (bindE (xlen R (queue_stream S)) (\<lambda>n.
         bindE (xpending R (queue_stream S)) (\<lambda>p. retE (max (n - p) 0, p))))
        (bindE (xlen R (queue_stream S)) (\<lambda>n. retE (n, 0)))) (\<lambda>(depth, pending).
     bindE (catch_response_error (xlen R (dead_letter_stream S)) (retE 0)) (\<lambda>dead.
     retE (depth, pending, dead)))"

section \<open>Invariant of the queue\<close>

text \<open>Every stream's ids increase, and what is pending has been delivered.\<close>

definition queue_ok :: "pystr \<Rightarrow> store \<Rightarrow> bool" where
  "queue_ok k s \<longleftrightarrow> sorted_wrt (<) (List.map fst (s_stream s k)) \<and> (\<forall>i\<in>s_pend s k. i \<le> s_cursor s k)"

definition waiting :: "pystr \<Rightarrow> store \<Rightarrow> sid set" where
  \<comment> \<open>the entries never delivered\<close>
  "waiting k s = {i \<in> fst ` set (s_stream s k). s_cursor s k < i}"

definition accounted :: "pystr \<Rightarrow> store \<Rightarrow> sid set" where
  \<comment> \<open>the entries some worker will still be given: not delivered yet, or delivered and not acknowledged\<close>
  "accounted k s = waiting k s \<union> s_pend s k"

lemma waiting_not_pending: "queue_ok k s \<Longrightarrow> waiting k s \<inter> s_pend s k = {}"
  by (auto simp: queue_ok_def waiting_def)

lemma sorted_wrt_map_filter: "sorted_wrt P (List.map f xs) \<Longrightarrow> sorted_wrt P (List.map f (filter Q xs))"
  by (induction xs) auto

lemma queue_ok_xadd:
  assumes "queue_ok k s" "does_xadd k' d b s i s'" shows "queue_ok k s'"
proof (cases "k' = k")
  case True
  obtain n where n: "s' = s\<lparr>s_stream := (s_stream s)(k' := drop n (s_stream s k') @ [(i, d)])\<rparr>"
    and i: "\<forall>e\<in>set (s_stream s k'). fst e < i"
    using assms(2) unfolding does_xadd_def by blast
  have "sorted_wrt (<) (List.map fst (drop n (s_stream s k)))"
    using assms(1) by (simp add: queue_ok_def sorted_wrt_drop flip: drop_map)
  then show ?thesis
    using n i assms(1) True by (auto simp: queue_ok_def sorted_wrt_append dest: in_set_dropD)
next
  case False
  then show ?thesis using assms by (auto simp: queue_ok_def does_xadd_def)
qed

lemma queue_ok_xdel: "queue_ok k s \<Longrightarrow> does_xdel k' i s a s' \<Longrightarrow> queue_ok k s'"
  by (auto simp: queue_ok_def does_xdel_def sorted_wrt_map_filter)

lemma queue_ok_xack: "queue_ok k s \<Longrightarrow> does_xack k' i s a s' \<Longrightarrow> queue_ok k s'"
  by (auto simp: queue_ok_def does_xack_def)

lemma queue_ok_xautoclaim: "queue_ok k s \<Longrightarrow> does_xautoclaim k' n s a s' \<Longrightarrow> queue_ok k s'"
  by (auto simp: queue_ok_def does_xautoclaim_def split: if_splits)

text \<open>Delivery moves the first waiting entries to the pending list.\<close>

lemma take_filter_sorted:
  fixes xs :: "entry list"
  assumes "sorted_wrt (<) (List.map fst xs)" and "ys = take n (filter (\<lambda>e. c < fst e) xs)" and "ys \<noteq> []"
  shows "{i \<in> fst ` set xs. c < i} = fst ` set ys \<union> {i \<in> fst ` set xs. fst (last ys) < i}"
    and "\<forall>y\<in>set ys. fst y \<le> fst (last ys) \<and> c < fst y"
proof -
  define rest where "rest = drop n (filter (\<lambda>e. c < fst e) xs)"
  have split: "filter (\<lambda>e. c < fst e) xs = ys @ rest" using assms(2) by (simp add: rest_def)
  have "sorted_wrt (<) (List.map fst (filter (\<lambda>e. c < fst e) xs))"
    using assms(1) by (rule sorted_wrt_map_filter)
  then have s: "sorted_wrt (<) (List.map fst ys)" "\<forall>y\<in>set ys. \<forall>z\<in>set rest. fst y < fst z"
    unfolding split by (auto simp: sorted_wrt_append)
  obtain l zs where ys: "ys = zs @ [l]" using assms(3) by (metis rev_exhaust)
  have le: "\<forall>y\<in>set ys. fst y \<le> fst (last ys)"
    using s(1) unfolding ys by (auto simp: sorted_wrt_append intro: less_imp_le)
  have mem: "set ys \<union> set rest = {e \<in> set xs. c < fst e}"
    using split by (metis set_append set_filter)
  then have c: "\<forall>y\<in>set ys. c < fst y" by blast
  show "\<forall>y\<in>set ys. fst y \<le> fst (last ys) \<and> c < fst y" using le c by blast
  have last: "last ys \<in> set ys" using assms(3) by simp
  have waiting: "{i \<in> fst ` set xs. c < i} = fst ` set ys \<union> fst ` set rest"
    using mem by (auto simp flip: image_Un)
  have "fst ` set rest = {i \<in> fst ` set xs. fst (last ys) < i}"
  proof (intro equalityI subsetI)
    fix i assume "i \<in> fst ` set rest"
    then show "i \<in> {i \<in> fst ` set xs. fst (last ys) < i}" using s(2) last mem by auto
  next
    fix i assume i: "i \<in> {i \<in> fst ` set xs. fst (last ys) < i}"
    then have "i \<in> fst ` set ys \<union> fst ` set rest"
      unfolding waiting [symmetric] using c last by auto
    then show "i \<in> fst ` set rest" using i le by force
  qed
  then show "{i \<in> fst ` set xs. c < i} = fst ` set ys \<union> {i \<in> fst ` set xs. fst (last ys) < i}"
    using waiting by simp
qed

lemma xreadgroup_accounted:
  assumes "queue_ok k s" "does_xreadgroup k n s a s'"
  shows "queue_ok k s' \<and> accounted k s' = accounted k s \<and> fst ` set a \<subseteq> s_pend s' k"
proof (cases "a = []")
  case False
  have sorted: "sorted_wrt (<) (List.map fst (s_stream s k))" using assms(1) by (simp add: queue_ok_def)
  have a: "a = take n (filter (\<lambda>e. s_cursor s k < fst e) (s_stream s k))"
    and s': "s' = s\<lparr>s_cursor := (s_cursor s)(k := fst (last a)), s_pend := (s_pend s)(k := s_pend s k \<union> fst ` set a)\<rparr>"
    using assms(2) False by (auto simp: does_xreadgroup_def)
  note t = take_filter_sorted [OF sorted a False]
  have "s_cursor s k \<le> fst (last a)" using t(2) False by (meson last_in_set less_imp_le)
  then have "queue_ok k s'" using assms(1) t(2) by (auto simp: s' queue_ok_def intro: order_trans)
  moreover have "accounted k s' = accounted k s"
    using t(1) by (auto simp: s' accounted_def waiting_def)
  ultimately show ?thesis by (simp add: s')
qed (use assms in \<open>auto simp: does_xreadgroup_def\<close>)

end
