(* ===== verification/Job_Store.thy ===== *)
theory Job_Store
  imports Queue
begin

text \<open>
  The effect of the functions of \<open>events.py\<close> and \<open>queue.py\<close> when they return, over any Redis server and
  a clock that leaves it alone (\<open>job_store\<close>). Gateway and worker share these lemmas.
\<close>

section \<open>Stores after an operation\<close>

definition put_hash :: "pystr \<Rightarrow> dict \<Rightarrow> store \<Rightarrow> store" where
  "put_hash k d s = s\<lparr>s_hash := (s_hash s)(k := dict_update (s_hash s k) d)\<rparr>"

definition put_entry :: "pystr \<Rightarrow> nat \<Rightarrow> entry \<Rightarrow> store \<Rightarrow> store" where
  "put_entry k n e s = s\<lparr>s_stream := (s_stream s)(k := drop n (s_stream s k) @ [e])\<rparr>"

definition put_value :: "pystr \<Rightarrow> pystr \<Rightarrow> store \<Rightarrow> store" where
  "put_value k v s = s\<lparr>s_value := (s_value s)(k \<mapsto> v)\<rparr>"

definition drop_entry :: "pystr \<Rightarrow> sid \<Rightarrow> store \<Rightarrow> store" where
  "drop_entry k i s = s\<lparr>s_pend := (s_pend s)(k := s_pend s k - {i}),
     s_stream := (s_stream s)(k := filter (\<lambda>e. fst e \<noteq> i) (s_stream s k))\<rparr>"

lemma put_simps [simp]:
  "s_hash (put_hash k d s) = (s_hash s)(k := dict_update (s_hash s k) d)"
  "s_stream (put_hash k d s) = s_stream s" "s_pend (put_hash k d s) = s_pend s"
  "s_hash (put_entry k n e s) = s_hash s" "s_pend (put_entry k n e s) = s_pend s"
  "s_stream (put_entry k n e s) = (s_stream s)(k := drop n (s_stream s k) @ [e])"
  "s_hash (drop_entry k i s) = s_hash s" "s_pend (drop_entry k i s) = (s_pend s)(k := s_pend s k - {i})"
  "s_stream (drop_entry k i s) = (s_stream s)(k := filter (\<lambda>e. fst e \<noteq> i) (s_stream s k))"
  "s_value (put_hash k d s) = s_value s" "s_value (put_entry k n e s) = s_value s"
  "s_cursor (put_hash k d s) = s_cursor s" "s_cursor (put_entry k n e s) = s_cursor s"
  "s_hash (put_value k v s) = s_hash s" "s_stream (put_value k v s) = s_stream s"
  "s_cursor (put_value k v s) = s_cursor s" "s_pend (put_value k v s) = s_pend s"
  "s_value (put_value k v s) = (s_value s)(k \<mapsto> v)"
  by (simp_all add: put_hash_def put_entry_def drop_entry_def put_value_def)

definition status_dict :: "('w, 't) time_api \<Rightarrow> 't \<Rightarrow> job_status \<Rightarrow> (string \<times> pystr option) list \<Rightarrow> dict" where
  "status_dict T now st fs = dict_update [(''status'', status_value st), (''updated_at'', iso T now)] (dict_some fs)"

lemma status_not_in_dict_some: "''status'' \<notin> fst ` set fs \<Longrightarrow> ''status'' \<notin> fst ` set (dict_some fs)"
  by (force simp: dict_some_def)

lemma status_mapping:
  assumes "''status'' \<notin> fst ` set fs"
  shows "dget (dict_update h (dict_update [(''status'', v), (''updated_at'', t)] (dict_some fs))) ''status'' = Some v"
proof -
  have "''status'' \<notin> fst ` set (dict_some fs)" using assms by (rule status_not_in_dict_some)
  then have "dget (dict_update [(''status'', v), (''updated_at'', t)] (dict_some fs)) ''status'' = Some v"
    by (subst dict_update_notin) (simp_all add: dget_def)
  then show ?thesis
    by (subst dget_dict_update_distinct) (simp_all add: distinct_dict_update)
qed

lemma dget_status_dict:
  "''status'' \<notin> fst ` set fs \<Longrightarrow> dget (dict_update h (status_dict T t st fs)) ''status'' = Some (status_value st)"
  unfolding status_dict_def by (rule status_mapping)

section \<open>Operations that return\<close>

locale job_store = redis_server view R for view :: "'w \<Rightarrow> store" and R :: "'w redis" +
  fixes T :: "('w, 't) time_api"
  assumes now_effect: "effect view (now_utc T) does_nothing"
begin

lemma does_nothing_InrD: "effect view m does_nothing \<Longrightarrow> m w = (Inr a, w') \<Longrightarrow> view w' = view w"
  by (drule effect_outcome, drule outcome_InrD) (auto simp: does_nothing_def)

lemma now_InrD: "now_utc T w = (Inr t, w') \<Longrightarrow> view w' = view w"
  by (rule does_nothing_InrD [OF now_effect])

lemma expire_InrD: "expire_events R S j w = (Inr u, w') \<Longrightarrow> view w' = view w"
  unfolding expire_events_def by (rule does_nothing_InrD [OF expire_effect])

lemma set_status_InrD:
  assumes "set_status R S T j st fs w = (Inr u, w')"
  shows "\<exists>t. view w' = put_hash (job_key j) (status_dict T t st fs) (view w)"
proof -
  obtain t w1 where "now_utc T w = (Inr t, w1)"
    and "hset_expire R (job_key j) (status_dict T t st fs) (result_ttl_days S * 86400) w1 = (Inr u, w')"
    using assms by (auto simp: set_status_def Let_def bindE_Inr_iff status_dict_def)
  from now_InrD [OF this(1)] outcome_InrD [OF effect_outcome [OF hset_expire_effect] this(2)]
  have "view w' = put_hash (job_key j) (status_dict T t st fs) (view w)"
    by (simp add: does_hset_def put_hash_def)
  then show ?thesis ..
qed

lemma xadd_InrD:
  "xadd R k d b w = (Inr i, w') \<Longrightarrow> \<exists>n. view w' = put_entry k n (i, d) (view w) \<and> (b = None \<longrightarrow> n = 0)"
  by (drule outcome_InrD [OF effect_outcome [OF xadd_effect]]) (auto simp: does_xadd_def put_entry_def)

lemma publish_now_InrD:
  assumes "publish_now R S T ty j txt w = (Inr u, w')"
  shows "\<exists>n i d. view w' = put_entry (events_stream j) n (i, d) (view w) \<and>
    dget d ''type'' = Some (event_value ty) \<and> dget d ''data'' = Some txt"
proof -
  obtain t w1 i where now: "now_utc T w = (Inr t, w1)"
    and pub: "publish R S T \<lparr>ev_type = ty, ev_job_id = j, ev_page = None, ev_data = txt, ev_seq = 0,
       ev_ts = t, ev_id = None\<rparr> w1 = (Inr i, w')"
    using assms by (auto simp: publish_now_def bindE_Inr_iff)
  from pub obtain n where "view w' = put_entry (events_stream j) n (i, event_fields T
      \<lparr>ev_type = ty, ev_job_id = j, ev_page = None, ev_data = txt, ev_seq = 0, ev_ts = t, ev_id = None\<rparr>) (view w1)"
    unfolding publish_def by (auto dest!: xadd_InrD)
  then show ?thesis
    unfolding now_InrD [OF now] by (intro exI conjI, assumption) (simp_all add: event_fields_def dget_def)
qed

lemma ack_InrD: "ack R S i w = (Inr u, w') \<Longrightarrow> view w' = drop_entry (queue_stream S) i (view w)"
  by (auto simp: ack_def bindE_Inr_iff does_xack_def does_xdel_def drop_entry_def
      dest!: outcome_InrD [OF effect_outcome [OF xack_effect]] outcome_InrD [OF effect_outcome [OF xdel_effect]])

lemma hincrby_InrD:
  "hincrby R k f n w = (Inr a, w') \<Longrightarrow> a = hash_int (s_hash (view w) k) f + n \<and>
     view w' = put_hash k [(f, show_int a)] (view w)"
  by (drule outcome_InrD [OF effect_outcome [OF hincrby_effect]]) (auto simp: does_hincrby_def put_hash_def)

lemma dead_letter_InrD:
  assumes "dead_letter R S sh job err w = (Inr u, w')"
  shows "\<exists>n i. view w' = drop_entry (queue_stream S) (qj_entry_id job)
    (put_entry (dead_letter_stream S) n (i, [(''job_id'', qj_job_id job), (''reason'', take 500 err),
      (''entry_id'', sh (qj_entry_id job))]) (view w))"
proof -
  obtain i w1 where "xadd R (dead_letter_stream S) [(''job_id'', qj_job_id job), (''reason'', take 500 err),
         (''entry_id'', sh (qj_entry_id job))] (Some 1000) w = (Inr i, w1)"
    and ack: "ack R S (qj_entry_id job) w1 = (Inr u, w')"
    using assms by (auto simp: dead_letter_def bindE_Inr_iff)
  from xadd_InrD [OF this(1)] show ?thesis unfolding ack_InrD [OF ack] by metis
qed

lemma enqueue_InrD:
  "enqueue R S j fs w = (Inr i, w') \<Longrightarrow>
   view w' = put_entry (queue_stream S) 0 (i, (''job_id'', j) # fs) (view w) \<and> s_cursor (view w) (queue_stream S) < i \<and>
   (\<forall>e\<in>set (s_stream (view w) (queue_stream S)). fst e < i)"
  unfolding enqueue_def
  by (drule outcome_InrD [OF effect_outcome [OF xadd_effect]]) (auto simp: does_xadd_def put_entry_def)

lemma setex_InrD: "setex R k ttl v w = (Inr u, w') \<Longrightarrow> view w' = put_value k v (view w)"
  by (drule outcome_InrD [OF effect_outcome [OF setex_effect]]) (simp add: does_setex_def put_value_def)

lemma get_InrD: "get_key R k w = (Inr a, w') \<Longrightarrow> a = s_value (view w) k \<and> view w' = view w"
  by (drule outcome_InrD [OF effect_outcome [OF get_effect]]) (simp add: does_get_def)

lemma get_job_InrD: "get_job R j w = (Inr d, w') \<Longrightarrow> d = s_hash (view w) (job_key j) \<and> view w' = view w"
  unfolding get_job_def
  by (drule outcome_InrD [OF effect_outcome [OF hgetall_effect]]) (simp add: does_hgetall_def)

end

end
