(* ===== verification/Database.thy ===== *)
theory Database
  imports Schemas Interfaces Py_Json
begin

text \<open>
  \<open>common/db.py\<close>: the PostgreSQL result store. The two tables are maps from their primary keys; the
  statements of the source are functions on them, and a transaction is a program that either
  commits its statements or leaves the tables alone (\<open>result_store\<close>). Connecting and the driver are
  parameters. A JSON column holds the value \<open>json.dumps\<close> wrote.
\<close>

section \<open>Tables\<close>

record 't job_row =
  j_tenant :: pystr
  j_filename :: pystr
  j_status :: pystr
  j_page_count :: int
  j_ocr_pages :: int
  j_chars :: int
  j_model :: pystr
  j_engine :: pystr
  j_attempts :: int
  j_error :: "pystr option"
  j_full_text :: pystr
  j_artifacts :: json
  j_created_at :: "'t option"
  j_started_at :: "'t option"
  j_completed_at :: "'t option"
  j_process_s :: "rat option"

record page_row =
  p_source :: pystr
  p_regions :: int
  p_chars :: int
  p_tokens :: int
  p_duration_ms :: rat
  p_ttft_s :: "rat option"
  p_text :: pystr

record 't tables =
  jobs :: "pystr \<Rightarrow> 't job_row option"
  job_pages :: "pystr \<Rightarrow> (int \<times> page_row) list"      \<comment> \<open>the rows of a job by \<open>idx\<close>, no two with the same\<close>

type_synonym 't statement = "'t tables \<Rightarrow> exn + 't tables"

section \<open>Statements\<close>

definition json_text :: "pystr option \<Rightarrow> json" where
  "json_text t = (case t of None \<Rightarrow> JNull | Some s \<Rightarrow> JStr s)"

definition artifacts_json :: "artifacts \<Rightarrow> json" where
  \<comment> \<open>\<open>json.dumps(result.artifacts.model_dump())\<close>\<close>
  "artifacts_json a = JObj [(lit ''json_path'', json_text (json_path a)),
     (lit ''markdown_path'', json_text (markdown_path a)), (lit ''pdf_path'', json_text (pdf_path a))]"

definition job_values :: "'t ocr_result \<Rightarrow> 't job_row" where
  "job_values r = \<lparr>j_tenant = r_tenant r, j_filename = r_filename r, j_status = status_value (r_status r),
     j_page_count = r_page_count r, j_ocr_pages = ocr_pages r, j_chars = int (length (r_full_text r)),
     j_model = r_model r, j_engine = r_engine r, j_attempts = r_attempts r, j_error = r_error r,
     j_full_text = r_full_text r, j_artifacts = artifacts_json (r_artifacts r),
     j_created_at = t_queued_at (r_timings r), j_started_at = t_started_at (r_timings r),
     j_completed_at = t_completed_at (r_timings r), j_process_s = t_process_s (r_timings r)\<rparr>"

definition upsert_job :: "pystr \<Rightarrow> 't job_row \<Rightarrow> 't statement" where
  \<comment> \<open>\<open>ON CONFLICT (job_id) DO UPDATE\<close> sets the listed columns only\<close>
  "upsert_job job_id row T = Inr (T\<lparr>jobs := (jobs T)(job_id \<mapsto> (case jobs T job_id of None \<Rightarrow> row
     | Some old \<Rightarrow> old\<lparr>j_status := j_status row, j_page_count := j_page_count row, j_ocr_pages := j_ocr_pages row,
         j_chars := j_chars row, j_attempts := j_attempts row, j_error := j_error row,
         j_full_text := j_full_text row, j_artifacts := j_artifacts row,
         j_completed_at := j_completed_at row, j_process_s := j_process_s row\<rparr>))\<rparr>)"

definition delete_pages :: "pystr \<Rightarrow> 't statement" where
  "delete_pages job_id T = Inr (T\<lparr>job_pages := (job_pages T)(job_id := [])\<rparr>)"

definition page_values :: "page_result \<Rightarrow> int \<times> page_row" where
  "page_values p = (pr_index p, \<lparr>p_source = source_value (pr_source p), p_regions = pr_regions p, p_chars = pr_chars p,
     p_tokens = pr_tokens p, p_duration_ms = pr_duration_ms p, p_ttft_s = pr_ttft_s p, p_text = pr_text p\<rparr>)"

fun insert_pages :: "pystr \<Rightarrow> (int \<times> page_row) list \<Rightarrow> 't statement" where
  \<comment> \<open>\<open>executemany\<close>; the primary key refuses an index twice\<close>
  "insert_pages job_id [] T = Inr T"
| "insert_pages job_id ((i, row) # rows) T =
     (if i \<in> fst ` set (job_pages T job_id) then Inl (OtherError (lit ''UniqueViolationError'') [])
      else insert_pages job_id rows (T\<lparr>job_pages := (job_pages T)(job_id := job_pages T job_id @ [(i, row)])\<rparr>))"

definition save_statements :: "'t ocr_result \<Rightarrow> 't statement" where
  "save_statements r T = bindX (upsert_job (r_job_id r) (job_values r) T) (\<lambda>T.
     if r_pages r \<noteq> [] then bindX (delete_pages (r_job_id r) T) (insert_pages (r_job_id r) (map page_values (r_pages r)))
     else Inr T)"

section \<open>The store\<close>

record ('w, 't) pool =
  create_pool :: "('w, unit) prog"                       \<comment> \<open>and the \<open>CREATE TABLE IF NOT EXISTS\<close> script\<close>
  select_one :: "('w, int) prog"
  transaction :: "'t statement \<Rightarrow> ('w, unit) prog"
  fetch_job :: "pystr \<Rightarrow> ('w, 't job_row option) prog"
  fetch_pages :: "pystr \<Rightarrow> ('w, (int \<times> page_row) list) prog"      \<comment> \<open>\<open>ORDER BY idx\<close>\<close>
  select_recent :: "pystr option \<Rightarrow> int \<Rightarrow> ('w, (pystr \<times> 't job_row) list) prog"

record database =
  enabled :: bool
  connected :: bool                                      \<comment> \<open>\<open>self.pool is not None\<close>\<close>

definition connect :: "('w, 't) pool \<Rightarrow> bool \<Rightarrow> database \<Rightarrow> ('w, bool \<times> database) prog" where
  \<comment> \<open>the flag says whether \<open>asyncpg\<close> can be imported\<close>
  "connect P asyncpg D =
     (if \<not> enabled D then retE (False, D)
      else if \<not> asyncpg then retE (False, D\<lparr>enabled := False\<rparr>)
      else catchE (bindE (create_pool P) (\<lambda>_. retE (True, D\<lparr>connected := True\<rparr>)))
        (\<lambda>e. retE (False, \<lparr>enabled = False, connected = False\<rparr>)))"

definition healthy :: "('w, 't) pool \<Rightarrow> database \<Rightarrow> ('w, bool) prog" where
  "healthy P D = (if \<not> enabled D \<or> \<not> connected D then retE False
     else catchE (bindE (select_one P) (\<lambda>n. retE (n = 1))) (\<lambda>e. retE False))"

definition save_result :: "('w, 't) pool \<Rightarrow> database \<Rightarrow> 't ocr_result \<Rightarrow> ('w, unit) prog" where
  "save_result P D r = (if \<not> enabled D \<or> \<not> connected D then retE ()
     else catchE (transaction P (save_statements r)) (\<lambda>e. retE ()))"

definition text_of_json :: "json \<Rightarrow> exn + pystr option" where
  \<comment> \<open>pydantic's \<open>str | None\<close>\<close>
  "text_of_json v = (case v of JNull \<Rightarrow> Inr None | JStr s \<Rightarrow> Inr (Some s) | _ \<Rightarrow> Inl (ValueError (lit ''Artifacts'')))"

definition artifacts_of_json :: "json \<Rightarrow> exn + artifacts" where
  \<comment> \<open>\<open>Artifacts(**value)\<close>\<close>
  "artifacts_of_json v =
     bindX (jget v (lit ''json_path'') JNull) (\<lambda>j. bindX (text_of_json j) (\<lambda>j.
     bindX (jget v (lit ''markdown_path'') JNull) (\<lambda>m. bindX (text_of_json m) (\<lambda>m.
     bindX (jget v (lit ''pdf_path'') JNull) (\<lambda>p. bindX (text_of_json p) (\<lambda>p.
       Inr \<lparr>json_path = j, markdown_path = m, pdf_path = p\<rparr>))))))"

definition sources :: "page_source list" where
  "sources = [Ocr, Native, Duplicate, Blank]"

fun pages_of_rows :: "(int \<times> page_row) list \<Rightarrow> exn + page_result list" where
  "pages_of_rows [] = Inr []"
| "pages_of_rows ((i, row) # rows) =
     bindX (enum_of_value source_value sources (p_source row)) (\<lambda>src.
     bindX (pages_of_rows rows) (\<lambda>ps.
       Inr ((new_page i)\<lparr>pr_text := p_text row, pr_source := src, pr_regions := p_regions row, pr_chars := p_chars row,
         pr_tokens := p_tokens row, pr_duration_ms := p_duration_ms row, pr_ttft_s := p_ttft_s row\<rparr> # ps)))"

definition result_of_rows :: "pystr \<Rightarrow> 't job_row \<Rightarrow> (int \<times> page_row) list \<Rightarrow> exn + 't ocr_result" where
  "result_of_rows job_id j rows =
     bindX (parse_status (j_status j)) (\<lambda>st.
     bindX (artifacts_of_json (j_artifacts j)) (\<lambda>a.
     bindX (pages_of_rows rows) (\<lambda>ps.
       Inr \<lparr>r_job_id = job_id, r_status = st, r_filename = j_filename j, r_tenant = j_tenant j,
         r_page_count = j_page_count j, r_pages = ps, r_full_text = j_full_text j, r_error = j_error j,
         r_model = j_model j, r_engine = j_engine j, r_attempts = j_attempts j,
         r_timings = \<lparr>t_queued_at = j_created_at j, t_started_at = j_started_at j,
           t_completed_at = j_completed_at j, t_queue_wait_s = None, t_process_s = j_process_s j\<rparr>,
         r_artifacts = a\<rparr>)))"

definition get_result :: "('w, 't) pool \<Rightarrow> database \<Rightarrow> pystr \<Rightarrow> ('w, 't ocr_result option) prog" where
  \<comment> \<open>only the queries are inside the \<open>try\<close>\<close>
  "get_result P D job_id = (if \<not> enabled D \<or> \<not> connected D then retE None
     else bindE (catchE (bindE (fetch_job P job_id) (\<lambda>j. case j of None \<Rightarrow> retE None
            | Some j \<Rightarrow> bindE (fetch_pages P job_id) (\<lambda>rows. retE (Some (j, rows)))))
          (\<lambda>e. retE None)) (\<lambda>x. case x of None \<Rightarrow> retE None
            | Some (j, rows) \<Rightarrow> bindE (ofE (result_of_rows job_id j rows)) (\<lambda>r. retE (Some r))))"

definition recent :: "('w, 't) pool \<Rightarrow> database \<Rightarrow> pystr option \<Rightarrow> int \<Rightarrow> ('w, (pystr \<times> 't job_row) list) prog" where
  "recent P D tenant limit = (if \<not> enabled D \<or> \<not> connected D then retE []
     else catchE (select_recent P (if tenant = Some [] then None else tenant) limit) (\<lambda>e. retE []))"

locale result_store =
  fixes tabs :: "'w \<Rightarrow> 't tables" and P :: "('w, 't) pool"
  assumes committed: "transaction P f w = (Inr u, w') \<Longrightarrow> f (tabs w) = Inr (tabs w')"
    and rolled_back: "transaction P f w = (Inl e, w') \<Longrightarrow> tabs w' = tabs w"
    and job_answer: "fetch_job P k w = (Inr j, w') \<Longrightarrow> j = jobs (tabs w) k \<and> tabs w' = tabs w"
    and pages_answer: "fetch_pages P k w = (Inr rows, w') \<Longrightarrow>
      rows = sort_key fst (job_pages (tabs w) k) \<and> tabs w' = tabs w"

text \<open>What the tables keep of a result.\<close>

definition durable_page :: "page_result \<Rightarrow> page_result" where
  "durable_page p = p\<lparr>pr_dpi := 0, pr_width := 0, pr_height := 0, pr_skew_deg := 0, pr_duplicate_of := None,
     pr_error := None\<rparr>"

definition durable :: "'t ocr_result \<Rightarrow> 't ocr_result" where
  "durable r = r\<lparr>r_pages := map durable_page (sort_key pr_index (r_pages r)),
     r_timings := (r_timings r)\<lparr>t_queue_wait_s := None\<rparr>\<rparr>"

lemma artifacts_round_trip [simp]: "artifacts_of_json (artifacts_json a) = Inr a"
proof -
  have [simp]: "text_of_json (json_text t) = Inr t" for t
    by (simp add: text_of_json_def json_text_def split: option.split)
  show ?thesis by (simp add: artifacts_of_json_def artifacts_json_def)
qed

lemma source_round_trip [simp]: "enum_of_value source_value sources (source_value s) = Inr s"
  by (cases s) (simp_all add: enum_of_value_def sources_def)

lemma pages_round_trip: "pages_of_rows (map page_values ps) = Inr (map durable_page ps)"
  by (induction ps) (simp_all add: page_values_def durable_page_def new_page_def)

lemma insort_page_values:
  "insort_key fst (page_values p) (map page_values ps) = map page_values (insort_key pr_index p ps)"
  by (induction ps) (simp_all add: page_values_def)

lemma sort_page_values: "sort_key fst (map page_values ps) = map page_values (sort_key pr_index ps)"
  by (induction ps) (simp_all add: insort_page_values)

lemma insert_pages_InrD:
  "insert_pages k rows T = Inr T' \<Longrightarrow> T' = T\<lparr>job_pages := (job_pages T)(k := job_pages T k @ rows)\<rparr>"
  by (induction k rows T rule: insert_pages.induct) (auto split: if_splits)

lemma save_statements_InrD:
  assumes "save_statements r T = Inr T'"
  shows "job_pages T' (r_job_id r) = (if r_pages r = [] then job_pages T (r_job_id r) else map page_values (r_pages r)) \<and>
    (jobs T (r_job_id r) = None \<longrightarrow> jobs T' (r_job_id r) = Some (job_values r))"
  using assms
  by (auto simp: save_statements_def upsert_job_def delete_pages_def split: if_splits dest!: insert_pages_InrD)

lemma result_of_job_values:
  "result_of_rows (r_job_id r) (job_values r) (map page_values (sort_key pr_index (r_pages r))) = Inr (durable r)"
  by (simp add: result_of_rows_def job_values_def pages_round_trip durable_def)

context result_store
begin

lemma save_result_atomic:
  "\<exists>w'. save_result P D r w = (Inr (), w') \<and> (tabs w' = tabs w \<or> save_statements r (tabs w) = Inr (tabs w'))"
proof (cases "transaction P (save_statements r) w")
  case (Pair res w')
  then show ?thesis
    using committed [of "save_statements r" w] rolled_back [of "save_statements r" w]
    by (cases res) (auto simp: save_result_def prog_defs)
qed

lemma get_result_answer:
  assumes "enabled D" "connected D" and "\<And>k w. \<exists>j w'. fetch_job P k w = (Inr j, w')"
    and "\<And>k w. \<exists>rows w'. fetch_pages P k w = (Inr rows, w')"
  shows "\<exists>w'. tabs w' = tabs w \<and> get_result P D k w = (case jobs (tabs w) k of None \<Rightarrow> (Inr None, w')
     | Some j \<Rightarrow> (map_sum id Some (result_of_rows k j (sort_key fst (job_pages (tabs w) k))), w'))"
proof -
  obtain w1 where w1: "fetch_job P k w = (Inr (jobs (tabs w) k), w1)" "tabs w1 = tabs w"
    using assms(3) [of k w] job_answer by blast
  obtain w2 where w2: "fetch_pages P k w1 = (Inr (sort_key fst (job_pages (tabs w) k)), w2)" "tabs w2 = tabs w"
    using assms(4) [of k w1] pages_answer w1(2) by metis
  show ?thesis
  proof (cases "jobs (tabs w) k")
    case None
    then show ?thesis using w1 assms(1,2) by (auto simp: get_result_def prog_defs)
  next
    case (Some j)
    then show ?thesis using w1 w2 assms(1,2)
      by (cases "result_of_rows k j (sort_key fst (job_pages (tabs w) k))")
        (auto simp: get_result_def prog_defs)
  qed
qed

end

section \<open>An instance in memory\<close>

definition mem_pool :: "('t tables, 't) pool" where
  "mem_pool = \<lparr>create_pool = retE (), select_one = retE 1,
     transaction = (\<lambda>f T. case f T of Inr T' \<Rightarrow> (Inr (), T') | Inl e \<Rightarrow> (Inl e, T)),
     fetch_job = (\<lambda>k. getE (\<lambda>T. jobs T k)), fetch_pages = (\<lambda>k. getE (\<lambda>T. sort_key fst (job_pages T k))),
     select_recent = (\<lambda>t n. retE [])\<rparr>"

interpretation mem_result: result_store "\<lambda>T. T" mem_pool
  by unfold_locales (auto simp: mem_pool_def getE_def split: sum.splits)

section \<open>Properties\<close>

text \<open>
  C24. A saved result is read back. If the transaction of a job saved for the first time commits and the
  later queries answer, \<open>get_result\<close> returns the result that was saved: every field of the job,
  the artifacts and the pages in order of index with their text, source and counters. What the
  tables have no column for is lost: of a page its error, its duplicate reference, resolution,
  size and skew, and of the timings the queue wait.
\<close>

theorem saved_result_read_back:
  assumes "result_store tabs P" and "enabled D" "connected D"
    and "transaction P (save_statements r) w = (Inr (), w1)"
    and "jobs (tabs w) (r_job_id r) = None" "job_pages (tabs w) (r_job_id r) = []"
    and "\<And>k w. \<exists>j w'. fetch_job P k w = (Inr j, w')" "\<And>k w. \<exists>rows w'. fetch_pages P k w = (Inr rows, w')"
  shows "\<exists>w2. get_result P D (r_job_id r) w1 = (Inr (Some (durable r)), w2)"
proof -
  from save_statements_InrD [OF result_store.committed [OF assms(1,4)]] assms(5,6)
  have "job_pages (tabs w1) (r_job_id r) = map page_values (r_pages r)" "jobs (tabs w1) (r_job_id r) = Some (job_values r)"
    by auto
  with result_store.get_result_answer [OF assms(1-3,7,8), of w1 "r_job_id r"] show ?thesis
    by (auto simp: sort_page_values result_of_job_values)
qed

definition sample_result :: "nat ocr_result" where
  "sample_result = \<lparr>r_job_id = lit ''j1'', r_status = Completed, r_filename = lit ''a.pdf'', r_tenant = lit ''t'',
     r_page_count = 2, r_pages = [(new_page 1)\<lparr>pr_text := lit ''b''\<rparr>, (new_page 0)\<lparr>pr_error := Some (lit ''e'')\<rparr>],
     r_full_text = lit ''b'', r_error = None, r_model = [], r_engine = [], r_attempts = 1,
     r_timings = \<lparr>t_queued_at = None, t_started_at = Some 3, t_completed_at = Some 4, t_queue_wait_s = Some 1,
       t_process_s = None\<rparr>, r_artifacts = \<lparr>json_path = None, markdown_path = Some (lit ''m''), pdf_path = None\<rparr>\<rparr>"

definition no_tables :: "'t tables" where
  "no_tables = \<lparr>jobs = (\<lambda>k. None), job_pages = (\<lambda>k. [])\<rparr>"

lemma saved_result_read_back_witness:
  "\<exists>T w2. transaction mem_pool (save_statements sample_result) no_tables = (Inr (), T) \<and>
     get_result mem_pool \<lparr>enabled = True, connected = True\<rparr> (lit ''j1'') T = (Inr (Some (durable sample_result)), w2)"
proof -
  obtain T where T: "transaction mem_pool (save_statements sample_result) no_tables = (Inr (), T)"
    by (simp add: mem_pool_def save_statements_def upsert_job_def delete_pages_def no_tables_def sample_result_def
        page_values_def new_page_def)
  from saved_result_read_back [OF mem_result.result_store_axioms _ _ T, of "\<lparr>enabled = True, connected = True\<rparr>"] T
  show ?thesis by (auto simp: no_tables_def sample_result_def mem_pool_def getE_def)
qed

text \<open>
  Pages of an earlier attempt survive. If a job is saved again with no page, its pages are not
  deleted: \<open>get_result\<close> then answers the new page count together with the old pages.
\<close>

theorem stale_pages_survive:
  assumes "result_store tabs P" and "enabled D" "connected D"
    and "transaction P (save_statements r) w = (Inr (), w1)" and "r_pages r = []"
    and "jobs (tabs w) (r_job_id r) = Some old" "job_pages (tabs w) (r_job_id r) = map page_values ps"
    and "\<And>k w. \<exists>j w'. fetch_job P k w = (Inr j, w')" "\<And>k w. \<exists>rows w'. fetch_pages P k w = (Inr rows, w')"
  shows "\<exists>r' w2. get_result P D (r_job_id r) w1 = (Inr (Some r'), w2) \<and> r_page_count r' = r_page_count r \<and>
    r_pages r' = map durable_page (sort_key pr_index ps)"
proof -
  have stmts: "save_statements r (tabs w) = Inr (tabs w1)" by (rule result_store.committed [OF assms(1,4)])
  then have pages: "job_pages (tabs w1) (r_job_id r) = map page_values ps"
    using save_statements_InrD [OF stmts] assms(5,7) by simp
  have "\<exists>j. jobs T1 (r_job_id r) = Some j \<and> j_page_count j = r_page_count r \<and>
      j_status j = status_value (r_status r) \<and> j_artifacts j = artifacts_json (r_artifacts r)"
    if "save_statements r (tabs w) = Inr T1" for T1
    using that assms(5,6) by (auto simp: save_statements_def upsert_job_def job_values_def)
  from this [OF stmts] obtain j where j: "jobs (tabs w1) (r_job_id r) = Some j" "j_page_count j = r_page_count r"
      "j_status j = status_value (r_status r)" "j_artifacts j = artifacts_json (r_artifacts r)" by blast
  have "\<exists>r'. result_of_rows (r_job_id r) j (map page_values (sort_key pr_index ps)) = Inr r' \<and>
      r_page_count r' = r_page_count r \<and> r_pages r' = map durable_page (sort_key pr_index ps)"
    using j by (simp add: result_of_rows_def pages_round_trip)
  with result_store.get_result_answer [OF assms(1-3,8,9), of w1 "r_job_id r"] show ?thesis
    by (auto simp: j pages sort_page_values)
qed

lemma stale_pages_survive_witness:
  "\<exists>T T' r' w2. transaction mem_pool (save_statements sample_result) no_tables = (Inr (), T) \<and>
     transaction mem_pool (save_statements (sample_result\<lparr>r_pages := [], r_page_count := 0\<rparr>)) T = (Inr (), T') \<and>
     get_result mem_pool \<lparr>enabled = True, connected = True\<rparr> (lit ''j1'') T' = (Inr (Some r'), w2) \<and>
     r_page_count r' = 0 \<and> length (r_pages r') = 2"
proof -
  let ?r = "sample_result\<lparr>r_pages := [], r_page_count := 0\<rparr>"
  obtain T where T: "transaction mem_pool (save_statements sample_result) no_tables = (Inr (), T)"
    and job: "jobs T (lit ''j1'') \<noteq> None" and pages: "job_pages T (lit ''j1'') = map page_values (r_pages sample_result)"
    by (simp add: mem_pool_def save_statements_def upsert_job_def delete_pages_def no_tables_def sample_result_def
        page_values_def new_page_def)
  obtain T' where T': "transaction mem_pool (save_statements ?r) T = (Inr (), T')"
    by (simp add: mem_pool_def save_statements_def upsert_job_def)
  obtain old where "jobs T (lit ''j1'') = Some old" using job by blast
  with stale_pages_survive [OF mem_result.result_store_axioms _ _ T', of "\<lparr>enabled = True, connected = True\<rparr>" old
      "r_pages sample_result"] pages T T'
  show ?thesis by (fastforce simp: sample_result_def mem_pool_def getE_def)
qed

end
