(* ===== verification/Worker.thy ===== *)
theory Worker
  imports Job_Store Postprocess Database Ratelimit
begin

text \<open>
  \<open>workers/cpu_worker.py\<close>, the life of one delivered job: \<open>_run_job\<close>, \<open>_process\<close>, \<open>_fail\<close>,
  \<open>_mark_cancelled\<close>, \<open>_write_artifacts\<close>. Everything the handler does to Redis goes through a client
  \<open>R\<close> of which only the interface \<open>redis_server\<close> is assumed, so every command may fail, with or
  without its effect. \<open>worker_env\<close> holds what is outside: the file system, the document library, the
  database pool, the PDF writer, the quota counters, and \<open>page_results\<close>, the body of the \<open>try\<close> block of
  \<open>_process_pages\<close> that turns the rendered pages into results. Metrics and log records are
  not modelled.
\<close>

record ('w, 't, 'd) worker_env =
  path_exists :: "pystr \<Rightarrow> ('w, bool) prog"
  open_document :: "pystr \<Rightarrow> ('w, 'd) prog"
  close_document :: "'d \<Rightarrow> ('w, unit) prog"
  document_pages :: "'d \<Rightarrow> int"
  page_results :: "pystr \<Rightarrow> 'd \<Rightarrow> ('w, page_result list) prog"
  write_text :: "pystr \<Rightarrow> pystr \<Rightarrow> ('w, unit) prog"
  build_pdf :: "pystr \<Rightarrow> pystr list \<Rightarrow> pystr \<Rightarrow> ('w, unit) prog"
  model_dump_json :: "'t ocr_result \<Rightarrow> pystr"
  db_pool :: "('w, 't) pool"
  db_state :: database
  quota_incr :: "pystr \<Rightarrow> int \<Rightarrow> int \<Rightarrow> ('w, int) prog"      \<comment> \<open>\<open>INCRBY; EXPIRE\<close>\<close>
  today :: "('w, pystr) prog"                              \<comment> \<open>\<open>%Y%m%d\<close>, UTC\<close>
  unicode_tables :: unicode
  show_sid :: "sid \<Rightarrow> pystr"

definition mark_cancelled :: "'w redis \<Rightarrow> settings \<Rightarrow> ('w, 't) time_api \<Rightarrow> pystr \<Rightarrow> ('w, unit) prog" where
  "mark_cancelled R S T job_id = seqE
     [set_status R S T job_id Cancelled [],
      publish_now R S T Job_cancelled job_id [],
      expire_events R S job_id]"

definition fail_job ::
  "'w redis \<Rightarrow> settings \<Rightarrow> ('w, 't) time_api \<Rightarrow> (sid \<Rightarrow> pystr) \<Rightarrow> queued_job \<Rightarrow> pystr \<Rightarrow> bool \<Rightarrow> ('w, unit) prog" where
  "fail_job R S T show_id job err permanent =
     bindE (hincrby R (job_key (qj_job_id job)) ''attempts'' 0) (\<lambda>n.
       let attempts = (if n = 0 then 1 else n); exhausted = (permanent \<or> attempts \<ge> max_attempts S)
       in if \<not> exhausted
          then publish_now R S T Progress (qj_job_id job) (lit ''retrying after error: '' @ err)
          else seqE
            [set_status R S T (qj_job_id job) Failed [(''error'', Some err)],
             publish_now R S T Job_failed (qj_job_id job) err,
             expire_events R S (qj_job_id job),
             if permanent then ack R S (qj_entry_id job) else dead_letter R S show_id job err])"

definition process_pages ::
  "'w redis \<Rightarrow> settings \<Rightarrow> ('w, 't) time_api \<Rightarrow> ('w, 't, 'd) worker_env \<Rightarrow> pystr \<Rightarrow> 'd \<Rightarrow> ('w, page_result list) prog" where
  \<comment> \<open>the frame of \<open>_process_pages\<close>: its \<open>except JobCancelled\<close>\<close>
  "process_pages R S T E job_id d =
     catchE (page_results E job_id d)
       (\<lambda>e. if e = JobCancelled then bindE (mark_cancelled R S T job_id) (\<lambda>_. raiseE JobCancelled) else raiseE e)"

definition write_artifacts ::
  "settings \<Rightarrow> ('w, 't, 'd) worker_env \<Rightarrow> 't ocr_result \<Rightarrow> pystr \<Rightarrow> pystr list \<Rightarrow> ('w, artifacts) prog" where
  "write_artifacts S E result source page_texts =
     (let json_p = slash (results_dir S) (r_job_id result @ lit ''.json'');
          md_p = slash (artifacts_dir S) (r_job_id result @ lit ''.md'');
          pdf_p = slash (artifacts_dir S) (r_job_id result @ lit ''.pdf'')
      in bindE (write_text E md_p (to_markdown (r_job_id result) (r_filename result) page_texts)) (\<lambda>_.
         bindE (if searchable_pdf S \<and> strip (r_full_text result) \<noteq> []
                then catchE (bindE (build_pdf E source page_texts pdf_p) (\<lambda>_. retE (Some pdf_p))) (\<lambda>e. retE None)
                else retE None) (\<lambda>pdf.
         let a = \<lparr>json_path = Some json_p, markdown_path = Some md_p, pdf_path = pdf\<rparr>
         in bindE (write_text E json_p (model_dump_json E (result\<lparr>r_artifacts := a\<rparr>))) (\<lambda>_. retE a))))"

definition consume_quota :: "settings \<Rightarrow> ('w, 't, 'd) worker_env \<Rightarrow> pystr \<Rightarrow> int \<Rightarrow> ('w, int) prog" where
  \<comment> \<open>\<open>self.quota.consume\<close>; the key carries the current UTC day\<close>
  "consume_quota S E tenant n =
     bindE (today E) (\<lambda>day. quota_consume (quota_incr E) (quota_pages_per_day S) tenant day n)"

definition mark_completed ::
  "'w redis \<Rightarrow> settings \<Rightarrow> ('w, 't) time_api \<Rightarrow> pystr \<Rightarrow> artifacts \<Rightarrow> int \<Rightarrow> 't \<Rightarrow> ('w, unit) prog" where
  "mark_completed R S T job_id a page_count completed_at = seqE
     [set_status R S T job_id Completed
        [(''result_path'', json_path a), (''pdf_path'', pdf_path a), (''markdown_path'', markdown_path a),
         (''page_count'', Some (show_int page_count)), (''completed_at'', Some (iso T completed_at))],
      publish_now R S T Job_complete job_id (show_int page_count),
      expire_events R S job_id]"

definition queue_wait :: "('w, 't) time_api \<Rightarrow> dict \<Rightarrow> 't \<Rightarrow> exn + rat option" where
  \<comment> \<open>the seconds since \<open>created_at\<close>; a \<open>ValueError\<close> is suppressed\<close>
  "queue_wait T meta started_at = (case non_empty (dget meta ''created_at'') of None \<Rightarrow> Inr None
     | Some t \<Rightarrow> (case from_iso T t of
         Inl e \<Rightarrow> (case e of ValueError m \<Rightarrow> Inr None | _ \<Rightarrow> Inl e)
       | Inr q \<Rightarrow> (case seconds_since T started_at q of
           Inl e \<Rightarrow> (case e of ValueError m \<Rightarrow> Inr None | _ \<Rightarrow> Inl e)
         | Inr s \<Rightarrow> Inr (Some s))))"

definition finish_job ::
  "'w redis \<Rightarrow> settings \<Rightarrow> ('w, 't) time_api \<Rightarrow> ('w, 't, 'd) worker_env \<Rightarrow> pystr \<Rightarrow> dict \<Rightarrow> pystr \<Rightarrow>
   int \<Rightarrow> 't \<Rightarrow> rat option \<Rightarrow> rat \<Rightarrow> page_result list \<Rightarrow> ('w, unit) prog" where
  \<comment> \<open>\<open>_process\<close> from \<open>pages.sort\<close> on\<close>
  "finish_job R S T E job_id meta source attempts started_at wait process_s pages0 =
     (let pages = sort_key pr_index pages0; page_texts = List.map pr_text pages
      in bindE (ofE (time_field T meta ''created_at'')) (\<lambda>queued_at.
         bindE (now_utc T) (\<lambda>completed_at.
         let result = \<lparr>r_job_id = job_id, r_status = Completed, r_filename = dget_or meta ''filename'' [],
               r_tenant = dget_or meta ''tenant'' (lit ''default''), r_page_count = int (length pages),
               r_pages = pages, r_full_text = merge_pages (unicode_tables E) page_texts [10, 10],
               r_error = None, r_model = model_id S, r_engine = engine_base_url S, r_attempts = attempts,
               r_timings = \<lparr>t_queued_at = queued_at, t_started_at = Some started_at,
                 t_completed_at = Some completed_at, t_queue_wait_s = map_option (\<lambda>x. py_round_n x 3) wait,
                 t_process_s = Some (py_round_n process_s 3)\<rparr>,
               r_artifacts = \<lparr>json_path = None, markdown_path = None, pdf_path = None\<rparr>\<rparr>
         in bindE (write_artifacts S E result source page_texts) (\<lambda>a.
            let result = result\<lparr>r_artifacts := a\<rparr>
            in seqE
              [save_result (db_pool E) (db_state E) result,
               bindE (consume_quota S E (r_tenant result) (ocr_pages result)) (\<lambda>_. retE ()),
               mark_completed R S T job_id a (r_page_count result) completed_at]))))"

definition process_document ::
  "'w redis \<Rightarrow> settings \<Rightarrow> ('w, 't) time_api \<Rightarrow> ('w, 't, 'd) worker_env \<Rightarrow> pystr \<Rightarrow> dict \<Rightarrow> int \<Rightarrow> 't \<Rightarrow>
   rat option \<Rightarrow> ('w, unit) prog" where
  \<comment> \<open>\<open>_process\<close> from \<open>source = Path(..)\<close> on\<close>
  "process_document R S T E job_id meta attempts started_at wait =
     bindE (ofE (case dget meta ''path'' of None \<Rightarrow> Inl (KeyError (lit ''path'')) | Some p \<Rightarrow> Inr p)) (\<lambda>source.
     bindE (path_exists E source) (\<lambda>there.
       if \<not> there then raiseE (UnreadableDocument (lit ''upload missing at '' @ source))
       else
         bindE (open_document E source) (\<lambda>d.
         bindE (update_job R job_id [(''page_count'', Some (show_int (document_pages E d)))]) (\<lambda>_.
         bindE (perf T) (\<lambda>t0.
         bindE (process_pages R S T E job_id d) (\<lambda>pages.
         bindE (close_document E d) (\<lambda>_.
         bindE (perf T) (\<lambda>t1.
           finish_job R S T E job_id meta source attempts started_at wait (t1 - t0) pages))))))))"

definition attempt_job ::
  "'w redis \<Rightarrow> settings \<Rightarrow> ('w, 't) time_api \<Rightarrow> ('w, 't, 'd) worker_env \<Rightarrow> pystr \<Rightarrow> dict \<Rightarrow> ('w, unit) prog" where
  \<comment> \<open>\<open>_process\<close> from the increment of \<open>attempts\<close> on\<close>
  "attempt_job R S T E job_id meta =
     bindE (hincrby R (job_key job_id) ''attempts'' 1) (\<lambda>attempts.
     bindE (now_utc T) (\<lambda>started_at.
     bindE (ofE (queue_wait T meta started_at)) (\<lambda>wait.
     bindE (set_status R S T job_id Processing
        [(''started_at'', Some (iso T started_at)), (''attempts'', Some (show_int attempts)),
         (''pages_done'', Some (lit ''0''))]) (\<lambda>_.
     bindE (publish_now R S T Job_started job_id []) (\<lambda>_.
       process_document R S T E job_id meta attempts started_at wait)))))"

definition process ::
  "'w redis \<Rightarrow> settings \<Rightarrow> ('w, 't) time_api \<Rightarrow> ('w, 't, 'd) worker_env \<Rightarrow> queued_job \<Rightarrow> ('w, unit) prog" where
  "process R S T E job = (let job_id = qj_job_id job in
     bindE (get_job R job_id) (\<lambda>meta.
       if meta = [] then raiseE (UnreadableDocument (lit ''job state missing (expired?)''))
       else if dget meta ''status'' \<in> {Some (status_value Completed), Some (status_value Cancelled)} then retE ()
       else bindE (is_cancelled R job_id) (\<lambda>c.
         if c then bindE (mark_cancelled R S T job_id) (\<lambda>_. raiseE JobCancelled)
         else attempt_job R S T E job_id meta)))"

definition run_job ::
  "'w redis \<Rightarrow> settings \<Rightarrow> ('w, 't) time_api \<Rightarrow> ('w, 't, 'd) worker_env \<Rightarrow> queued_job \<Rightarrow> ('w, unit) prog" where
  "run_job R S T E job =
     catchE (bindE (process R S T E job) (\<lambda>_. ack R S (qj_entry_id job)))
       (\<lambda>e. case e of
          UnreadableDocument m \<Rightarrow> fail_job R S T (show_sid E) job (exn_str e) True
        | JobCancelled \<Rightarrow> ack R S (qj_entry_id job)
        | _ \<Rightarrow> fail_job R S T (show_sid E) job (exn_text e) False)"

end
