(* ===== verification/Worker_Safety.thy ===== *)
theory Worker_Safety
  imports Worker
begin

text \<open>
  No job is lost. Whatever Redis does within the interface \<open>redis_server\<close> (any command may fail, with
  or without its effect) and whatever the page pipeline, the file system and the PDF writer do, a
  delivered entry stays on the pending list until the job's hash holds a terminal status. The
  proofs are triples over two properties of the store: \<open>pending\<close>, kept by every command but the
  acknowledgement, and \<open>finished\<close>, kept by every command but a status change.
\<close>

section \<open>The interface to the rest of the worker\<close>

definition does_pages :: "pystr \<Rightarrow> pystr \<Rightarrow> 'a command" where
  \<comment> \<open>what the page pipeline may do: it leaves the queue and the job's status alone\<close>
  "does_pages k j s a s' \<longleftrightarrow> s_pend s' k = s_pend s k \<and> s_stream s' k = s_stream s k \<and>
     s_cursor s' k = s_cursor s k \<and> s_value s' = s_value s \<and>
     dget (s_hash s' (job_key j)) ''status'' = dget (s_hash s (job_key j)) ''status''"

locale worker = job_store view R T for view :: "'w \<Rightarrow> store" and R :: "'w redis" and S :: settings
    and T :: "('w, 't) time_api" +
  fixes E :: "('w, 't, 'd) worker_env"
  assumes exists_path_effect: "effect view (path_exists E p) does_nothing"
    and open_effect: "effect view (open_document E p) does_nothing"
    and close_effect: "effect view (close_document E d) does_nothing"
    and pages_outcome: "outcome view (page_results E j d) (does_pages (queue_stream S) j)"
    and write_effect: "effect view (write_text E p t) does_nothing"
    and pdf_effect: "effect view (build_pdf E p txts q) does_nothing"
    and db_effect: "effect view (transaction (db_pool E) f) does_nothing"
    and quota_effect: "effect view (quota_incr E k n ttl) does_nothing"
    and today_effect: "effect view (today E) does_nothing"
    and streams_apart: "events_stream j \<noteq> queue_stream S" "dead_letter_stream S \<noteq> queue_stream S"
      "dead_letter_stream S \<noteq> events_stream j"
    and perf_effect: "effect view (perf T) does_nothing"
    and from_iso_quiet: "from_iso T t \<noteq> Inl JobCancelled" and since_quiet: "seconds_since T u v \<noteq> Inl JobCancelled"

definition pending :: "pystr \<Rightarrow> sid \<Rightarrow> store \<Rightarrow> bool" where
  "pending k i s \<longleftrightarrow> i \<in> s_pend s k"

definition has_status :: "pystr \<Rightarrow> job_status \<Rightarrow> store \<Rightarrow> bool" where
  "has_status j st s \<longleftrightarrow> dget (s_hash s (job_key j)) ''status'' = Some (status_value st)"

definition finished :: "pystr \<Rightarrow> store \<Rightarrow> bool" where
  "finished j s \<longleftrightarrow> (\<exists>st. terminal st \<and> has_status j st s)"

section \<open>What each command keeps\<close>

lemma finished_hash_update:
  "finished j s \<Longrightarrow> ''status'' \<notin> fst ` set d \<Longrightarrow>
   finished j (s\<lparr>s_hash := (s_hash s)(k := dict_update (s_hash s k) d)\<rparr>)"
  by (auto simp: finished_def has_status_def dict_update_notin)

context worker
begin

abbreviation "pend i \<equiv> pending (queue_stream S) i"

lemma keeps_now [keeps_rules]: "keeps view I (now_utc T)"
  by (rule keeps_nothing) (rule now_effect)

lemma keeps_perf [keeps_rules]: "keeps view I (perf T)"
  by (rule keeps_nothing) (rule perf_effect)

lemma keeps_get_job [keeps_rules]: "keeps view I (get_job R j)"
  unfolding get_job_def by (rule keeps_effect [OF hgetall_effect]) (simp add: does_hgetall_def)

lemma keeps_is_cancelled [keeps_rules]: "keeps view I (is_cancelled R j)"
  unfolding is_cancelled_def by (rule keeps_effect [OF exists_effect]) (simp add: does_exists_def)

lemma keeps_expire [keeps_rules]: "keeps view I (expire_events R S j)"
  unfolding expire_events_def by (rule keeps_nothing) (rule expire_effect)

lemma keeps_env [keeps_rules]:
  "keeps view I (path_exists E p)" "keeps view I (open_document E p)" "keeps view I (close_document E d)"
  "keeps view I (write_text E p t)" "keeps view I (build_pdf E p txts q)" "keeps view I (transaction (db_pool E) f)"
  "keeps view I (quota_incr E k n ttl)" "keeps view I (today E)"
  by (rule keeps_nothing, rule exists_path_effect open_effect close_effect write_effect pdf_effect
      db_effect quota_effect today_effect)+

lemma keeps_save_result [keeps_rules]: "keeps view I (save_result (db_pool E) D r)"
  unfolding save_result_def by (intro keeps_rules)

lemma keeps_consume [keeps_rules]: "keeps view I (consume_quota S E tn n)"
  unfolding consume_quota_def quota_consume_def by (intro keeps_rules)

lemma keeps_write_artifacts [keeps_rules]: "keeps view I (write_artifacts S E r source txts)"
  unfolding write_artifacts_def Let_def by (intro keeps_rules)

lemma keeps_publish_now:
  assumes "\<And>d b s a s'. I s \<Longrightarrow> does_xadd (events_stream j) d b s a s' \<Longrightarrow> I s'"
  shows "keeps view I (publish_now R S T ty j t)"
  unfolding publish_now_def publish_def
  by (intro keeps_rules keeps_effect [OF xadd_effect]) (simp add: assms)

text \<open>Pending entries: only the acknowledgement of that entry removes them.\<close>

lemma keeps_pend_xadd [keeps_rules]: "keeps view (pend i) (xadd R k d b)"
  by (rule keeps_effect [OF xadd_effect]) (auto simp: does_xadd_def pending_def)

lemma keeps_pend_publish [keeps_rules]: "keeps view (pend i) (publish_now R S T ty j t)"
  by (rule keeps_publish_now) (auto simp: does_xadd_def pending_def)

lemma keeps_pend_hincrby [keeps_rules]: "keeps view (pend i) (hincrby R k f n)"
  by (rule keeps_effect [OF hincrby_effect]) (simp add: does_hincrby_def pending_def)

lemma keeps_pend_set_status [keeps_rules]: "keeps view (pend i) (set_status R S T j st fs)"
  unfolding set_status_def Let_def
  by (intro keeps_rules keeps_effect [OF hset_expire_effect]) (simp add: does_hset_def pending_def)

lemma keeps_pend_update_job [keeps_rules]: "keeps view (pend i) (update_job R j fs)"
  unfolding update_job_def Let_def
  by (intro keeps_rules keeps_effect [OF hset_effect]) (simp add: does_hset_def pending_def)

lemma keeps_pend_pages [keeps_rules]: "keeps view (pend i) (page_results E j d)"
  by (rule keeps_outcome [OF pages_outcome]) (simp add: does_pages_def pending_def)

lemma keeps_pend_mark_cancelled [keeps_rules]: "keeps view (pend i) (mark_cancelled R S T j)"
  unfolding mark_cancelled_def by (intro keeps_rules) (auto intro!: keeps_rules)

lemma keeps_pend_process_pages [keeps_rules]: "keeps view (pend i) (process_pages R S T E j d)"
  unfolding process_pages_def by (intro keeps_rules)

lemma keeps_pend_mark_completed [keeps_rules]: "keeps view (pend i) (mark_completed R S T j a n t)"
  unfolding mark_completed_def by (intro keeps_rules) (auto intro!: keeps_rules)

lemma keeps_pend_finish_job [keeps_rules]: "keeps view (pend i) (finish_job R S T E j meta source att st wt pt ps)"
  unfolding finish_job_def Let_def by (intro keeps_rules) (auto intro!: keeps_rules)

lemma keeps_pend_process: "keeps view (pend i) (process R S T E job)"
  unfolding process_def attempt_job_def process_document_def Let_def by (intro keeps_rules)

text \<open>A terminal status: only \<open>set_status\<close> changes it.\<close>

lemma keeps_fin_xadd: "keeps view (finished j) (xadd R k d b)"
  by (rule keeps_effect [OF xadd_effect]) (auto simp: does_xadd_def finished_def has_status_def)

lemma keeps_fin_publish [keeps_rules]: "keeps view (finished j) (publish_now R S T ty j' t)"
  by (rule keeps_publish_now) (auto simp: does_xadd_def finished_def has_status_def)

lemma keeps_fin_hincrby: "f \<noteq> ''status'' \<Longrightarrow> keeps view (finished j) (hincrby R k f n)"
  by (rule keeps_effect [OF hincrby_effect])
    (auto simp: does_hincrby_def finished_def has_status_def)

lemma keeps_fin_ack [keeps_rules]: "keeps view (finished j) (ack R S i)"
  unfolding ack_def
  by (intro keeps_rules keeps_effect [OF xack_effect] keeps_effect [OF xdel_effect])
    (simp_all add: does_xack_def does_xdel_def finished_def has_status_def)

lemma keeps_fin_dead_letter [keeps_rules]: "keeps view (finished j) (dead_letter R S sh job t)"
  unfolding dead_letter_def by (intro keeps_rules keeps_fin_xadd)

lemma set_status_finishes:
  assumes "terminal st" and "''status'' \<notin> fst ` set fs"
  shows "tri (\<lambda>w. I (view w)) (set_status R S T j st fs) (\<lambda>_ w. finished j (view w)) (\<lambda>e w. I (view w) \<or> finished j (view w))"
  unfolding set_status_def Let_def
proof (rule tri_bindE)
  show "tri (\<lambda>w. I (view w)) (now_utc T) (\<lambda>_ w. I (view w)) (\<lambda>e w. I (view w) \<or> finished j (view w))"
    using keeps_now [of I] unfolding keeps_def by (rule tri_conseq) auto
  fix now
  show "tri (\<lambda>w. I (view w)) (hset_expire R (job_key j) (dict_update [(''status'', status_value st), (''updated_at'', iso T now)] (dict_some fs)) (result_ttl_days S * 86400))
      (\<lambda>_ w. finished j (view w)) (\<lambda>e w. I (view w) \<or> finished j (view w))"
    by (rule tri_pre [OF tri_effect [OF effect_outcome [OF hset_expire_effect], where Q = "\<lambda>_. finished j" and E = "\<lambda>_ s. I s \<or> finished j s"]])
      (use assms(1) in \<open>auto simp: does_hset_def finished_def has_status_def status_mapping [OF assms(2)]\<close>)
qed

lemma tri_keeps: "keeps view I m \<Longrightarrow> tri (\<lambda>w. I (view w)) m (\<lambda>_ w. I (view w)) (\<lambda>_ w. I (view w))"
  by (simp add: keeps_def)

text \<open>Quiet programs.\<close>

lemma quiet_commands [quiet_rules]:
  "quiet (now_utc T)" "quiet (perf T)" "quiet (path_exists E p)" "quiet (open_document E p)" "quiet (close_document E d)"
  "quiet (write_text E p t)" "quiet (today E)" "quiet (hincrby R k f n)" "quiet (xadd R k m b)"
  "quiet (hset R k m)" "quiet (hset_expire R k m ttl)" "quiet (expire_key R k ttl)" "quiet (hgetall R k)"
  "quiet (exists_key R k)" "quiet (xack R k i)" "quiet (xdel R k i)"
  by (rule effect_quiet, rule now_effect perf_effect exists_path_effect open_effect close_effect write_effect
      today_effect hincrby_effect xadd_effect hset_effect hset_expire_effect expire_effect
      hgetall_effect exists_effect xack_effect xdel_effect)+

lemma quiet_events [quiet_rules]:
  "quiet (publish_now R S T ty j t)" "quiet (set_status R S T j st fs)" "quiet (update_job R j fs)"
  "quiet (expire_events R S j)" "quiet (get_job R j)" "quiet (is_cancelled R j)" "quiet (ack R S i)"
  unfolding publish_now_def publish_def set_status_def update_job_def expire_events_def get_job_def
    is_cancelled_def ack_def Let_def
  by (intro quiet_rules)+

lemma quiet_time_field: "quiet (ofE (time_field T meta k))"
  by (cases "non_empty (dget meta k)")
    (auto simp: quiet_def tri_def ofE_def time_field_def split: sum.splits,
      metis from_iso_quiet map_sum.simps(1) sum.exhaust Inl_inject map_sum.simps(2) Inl_Inr_False id_apply)

lemma quiet_ofE: "r \<noteq> Inl JobCancelled \<Longrightarrow> quiet (ofE r)"
  by (auto simp: quiet_def tri_def ofE_def split: sum.splits)

lemma quiet_queue_wait: "quiet (ofE (queue_wait T meta st))"
  using from_iso_quiet since_quiet
  by (intro quiet_ofE) (auto simp: queue_wait_def split: option.splits sum.splits exn.splits)

lemma quiet_save_result [quiet_rules]: "quiet (save_result P D r)"
  unfolding save_result_def by (intro quiet_rules)

lemma quiet_consume [quiet_rules]: "quiet (consume_quota S E tn n)"
  unfolding consume_quota_def quota_consume_def by (intro quiet_rules)

lemma quiet_write_artifacts [quiet_rules]: "quiet (write_artifacts S E r source txts)"
  unfolding write_artifacts_def Let_def by (intro quiet_rules)

text \<open>\<open>finishes j m\<close>: after \<open>m\<close> the job's status is terminal, on a return and when \<open>JobCancelled\<close>
  leaves it. \<open>half_finishes j m\<close> asks only for the latter.\<close>

definition half_finishes :: "pystr \<Rightarrow> ('w, 'a) prog \<Rightarrow> bool" where
  "half_finishes j m \<longleftrightarrow>
     tri (\<lambda>_. True) m (\<lambda>_ _. True) (\<lambda>e w. e = JobCancelled \<longrightarrow> finished j (view w))"

definition finishes :: "pystr \<Rightarrow> ('w, 'a) prog \<Rightarrow> bool" where
  "finishes j m \<longleftrightarrow>
     tri (\<lambda>_. True) m (\<lambda>_ w. finished j (view w)) (\<lambda>e w. e = JobCancelled \<longrightarrow> finished j (view w))"

lemma quiet_half: "quiet m \<Longrightarrow> half_finishes j m"
  unfolding quiet_def half_finishes_def by (erule tri_conseq) auto

lemma finishes_bind: "half_finishes j m \<Longrightarrow> (\<And>a. finishes j (k a)) \<Longrightarrow> finishes j (bindE m k)"
  unfolding half_finishes_def finishes_def by (rule tri_bindE)

lemmas finishes_skip = finishes_bind [OF quiet_half]

lemma finishes_then:
  assumes "finishes j m" "\<And>a. quiet (k a)" "\<And>a. keeps view (finished j) (k a)"
  shows "finishes j (bindE m k)"
  unfolding finishes_def
proof (rule tri_bindE)
  show "tri (\<lambda>_. True) m (\<lambda>_ w. finished j (view w)) (\<lambda>e w. e = JobCancelled \<longrightarrow> finished j (view w))"
    using assms(1) by (simp add: finishes_def)
  show "tri (\<lambda>w. finished j (view w)) (k a) (\<lambda>_ w. finished j (view w)) (\<lambda>e w. e = JobCancelled \<longrightarrow> finished j (view w))" for a
    using assms(2,3) [of a] unfolding keeps_def by (auto intro: tri_conseq)
qed

lemma finishes_set_status: "terminal st \<Longrightarrow> ''status'' \<notin> fst ` set fs \<Longrightarrow> finishes j (set_status R S T j st fs)"
  using set_status_finishes [of st fs "\<lambda>_. True" j] quiet_events(2) [of j st fs]
  unfolding finishes_def quiet_def tri_def by (fastforce split: prod.splits sum.splits)

lemma finishes_cancel: "finishes j m \<Longrightarrow> finishes j (bindE m (\<lambda>_. raiseE JobCancelled))"
  unfolding finishes_def tri_def by (fastforce simp: prog_defs split: prod.splits sum.splits)

lemma finishes_raise: "e \<noteq> JobCancelled \<Longrightarrow> finishes j (raiseE e)"
  by (simp add: finishes_def tri_def prog_defs)

lemma finishes_mark_cancelled: "finishes j (mark_cancelled R S T j)"
  unfolding mark_cancelled_def seqE.simps
  by (rule finishes_then finishes_set_status)+ (auto simp: terminal_def intro!: quiet_rules keeps_rules)

lemma half_process_pages: "half_finishes j (process_pages R S T E j d)"
  using finishes_cancel [OF finishes_mark_cancelled, of j]
  unfolding process_pages_def half_finishes_def finishes_def tri_def
  by (fastforce simp: catchE_def raiseE_def split: prod.splits sum.splits if_splits)

lemma finishes_mark_completed: "finishes j (mark_completed R S T j a n t)"
  unfolding mark_completed_def seqE.simps
  by (rule finishes_then finishes_set_status)+
    (auto simp: terminal_def intro!: quiet_rules keeps_rules)

lemma finishes_finish_job: "finishes j (finish_job R S T E j meta source att st wt pt ps)"
  unfolding finish_job_def Let_def seqE.simps
  by (rule finishes_mark_completed | rule finishes_skip, (intro quiet_rules quiet_time_field)[1])+

lemma finishes_raise_if:
  "e \<noteq> JobCancelled \<Longrightarrow> finishes j m \<Longrightarrow> finishes j (if c then raiseE e else m)"
  by (cases c) (simp_all add: finishes_raise)

lemma quiet_ofE_KeyError: "quiet (ofE (case x of None \<Rightarrow> Inl (KeyError t) | Some p \<Rightarrow> Inr p))"
  by (simp add: quiet_def tri_def ofE_def split: option.splits)

lemma finishes_process_document: "finishes j (process_document R S T E j meta att st wt)"
  unfolding process_document_def
  by (rule finishes_bind [OF half_process_pages] | rule finishes_finish_job | rule finishes_raise_if, simp
      | rule finishes_skip, (intro quiet_rules quiet_ofE_KeyError)[1])+

lemma finishes_attempt_job: "finishes j (attempt_job R S T E j meta)"
  unfolding attempt_job_def
  by (rule finishes_process_document | rule finishes_skip, (intro quiet_rules quiet_queue_wait)[1])+

lemma finishes_process: "finishes (qj_job_id job) (process R S T E job)"
proof -
  let ?j = "qj_job_id job"
  define body where "body meta =
     (if meta = [] then raiseE (UnreadableDocument (lit ''job state missing (expired?)''))
       else if dget meta ''status'' \<in> {Some (status_value Completed), Some (status_value Cancelled)} then retE ()
       else bindE (is_cancelled R ?j) (\<lambda>c.
         if c then bindE (mark_cancelled R S T ?j) (\<lambda>_. raiseE JobCancelled)
         else attempt_job R S T E ?j meta))" for meta
  have body: "tri (\<lambda>w. meta = s_hash (view w) (job_key ?j)) (body meta) (\<lambda>_ w. finished ?j (view w))
      (\<lambda>e w. e = JobCancelled \<longrightarrow> finished ?j (view w))" for meta
  proof -
    consider "meta = []"
      | "meta \<noteq> []" "dget meta ''status'' \<in> {Some (status_value Completed), Some (status_value Cancelled)}"
      | "meta \<noteq> []" "dget meta ''status'' \<notin> {Some (status_value Completed), Some (status_value Cancelled)}"
      by blast
    then show ?thesis
  proof cases
    case 1
    then have "finishes ?j (body meta)" by (simp add: body_def finishes_raise)
    then show ?thesis unfolding finishes_def by (rule tri_pre) simp
  next
    case 2
    then have ret: "body meta = retE ()" by (simp only: body_def if_False if_True)
    have "finished ?j s" if "meta = s_hash s (job_key ?j)" for s
      using 2(2) that unfolding finished_def has_status_def terminal_def by blast
    then show ?thesis unfolding ret by (intro tri_pre [OF tri_retE]) blast
  next
    case 3
    have "finishes ?j (if c then bindE (mark_cancelled R S T ?j) (\<lambda>_. raiseE JobCancelled)
        else attempt_job R S T E ?j meta)" for c
      by (cases c) (simp_all add: finishes_cancel [OF finishes_mark_cancelled] finishes_attempt_job)
    then have "finishes ?j (body meta)"
      unfolding body_def using 3 by (simp only: if_False) (rule finishes_skip [OF quiet_events(6)])
    then show ?thesis unfolding finishes_def by (rule tri_pre) simp
  qed
  qed
  have "process R S T E job = bindE (get_job R ?j) body"
    unfolding process_def Let_def
    by (rule arg_cong [where f = "bindE (get_job R ?j)"], rule ext) (simp only: body_def)
  moreover have "tri (\<lambda>_. True) (get_job R ?j) (\<lambda>meta w. meta = s_hash (view w) (job_key ?j))
      (\<lambda>e w. e = JobCancelled \<longrightarrow> finished ?j (view w))"
    unfolding get_job_def
    using outcome_InrD [OF effect_outcome [OF hgetall_effect]] effect_quiet [OF hgetall_effect]
    by (intro triI) (auto simp: does_hgetall_def dest: quietD [OF effect_quiet [OF hgetall_effect]])
  ultimately show ?thesis
    unfolding finishes_def using body by (auto intro: tri_bindE)
qed

text \<open>The failure handler keeps \<open>pending or finished\<close> from either side.\<close>

abbreviation "safe i j \<equiv> \<lambda>s. pend i s \<or> finished j s"

lemma safe_fail_job:
  "tri (\<lambda>w. safe i (qj_job_id job) (view w)) (fail_job R S T sh job err perm)
     (\<lambda>_ w. safe i (qj_job_id job) (view w)) (\<lambda>_ w. safe i (qj_job_id job) (view w))"
proof -
  let ?j = "qj_job_id job"
  let ?I = "safe i ?j"
  have keep: "keeps view ?I m" if "keeps view (pend i) m" "keeps view (finished ?j) m" for m :: "('w, 'a) prog"
    using keeps_disj [OF that] by simp
  have fin: "tri (\<lambda>w. finished ?j (view w)) m (\<lambda>_ w. ?I (view w)) (\<lambda>_ w. ?I (view w))"
    if "keeps view (finished ?j) m" for m :: "('w, unit) prog"
    using that unfolding keeps_def by (rule tri_conseq) auto
  have last: "keeps view (finished ?j) (if perm then ack R S (qj_entry_id job) else dead_letter R S sh job err)"
    by (intro keeps_rules)
  have tail: "keeps view (finished ?j) (seqE [publish_now R S T Job_failed ?j err, expire_events R S ?j,
      if perm then ack R S (qj_entry_id job) else dead_letter R S sh job err])"
    using last by (intro keeps_seqE) (auto intro!: keeps_rules)
  have "tri (\<lambda>w. ?I (view w)) (seqE [set_status R S T ?j Failed [(''error'', Some err)],
      publish_now R S T Job_failed ?j err, expire_events R S ?j,
      if perm then ack R S (qj_entry_id job) else dead_letter R S sh job err])
      (\<lambda>_ w. ?I (view w)) (\<lambda>_ w. ?I (view w))"
    unfolding seqE.simps(3) [of "set_status R S T ?j Failed [(''error'', Some err)]"]
  proof (rule tri_bindE)
    show "tri (\<lambda>w. ?I (view w)) (set_status R S T ?j Failed [(''error'', Some err)])
        (\<lambda>_ w. finished ?j (view w)) (\<lambda>_ w. ?I (view w))"
      by (rule tri_conseq [OF set_status_finishes [of Failed "[(''error'', Some err)]" ?I ?j]])
        (auto simp: terminal_def)
  qed (rule fin [OF tail])
  moreover have "keeps view ?I (hincrby R (job_key ?j) ''attempts'' 0)"
    by (rule keep [OF keeps_pend_hincrby keeps_fin_hincrby]) simp
  moreover have "keeps view ?I (publish_now R S T Progress ?j t)" for t
    by (rule keep [OF keeps_pend_publish keeps_fin_publish])
  ultimately show ?thesis
    unfolding fail_job_def Let_def keeps_def by (intro tri_bindE) auto
qed

lemma safe_run_job:
  assumes "qj_entry_id job = i"
  shows "tri (\<lambda>w. pend i (view w)) (run_job R S T E job)
     (\<lambda>_ w. safe i (qj_job_id job) (view w)) (\<lambda>_ w. safe i (qj_job_id job) (view w))"
proof -
  let ?j = "qj_job_id job"
  let ?bad = "\<lambda>e w. safe i ?j (view w) \<and> (e = JobCancelled \<longrightarrow> finished ?j (view w))"
  have ack: "tri (\<lambda>w. finished ?j (view w)) (ack R S i) (\<lambda>_ w. finished ?j (view w)) (\<lambda>_ w. finished ?j (view w))"
    using keeps_fin_ack unfolding keeps_def .
  have "tri (\<lambda>w. pend i (view w)) (process R S T E job) (\<lambda>_ w. finished ?j (view w)) ?bad"
    using keeps_pend_process [of i job] finishes_process [of job]
    unfolding keeps_def finishes_def tri_def by (fastforce split: prod.splits sum.splits)
  then have body: "tri (\<lambda>w. pend i (view w)) (bindE (process R S T E job) (\<lambda>_. ack R S (qj_entry_id job)))
      (\<lambda>_ w. safe i ?j (view w)) ?bad"
    by (rule tri_bindE) (use ack assms in \<open>auto elim!: tri_conseq\<close>)
  have cancelled: "tri (?bad JobCancelled) (ack R S (qj_entry_id job)) (\<lambda>_ w. safe i ?j (view w)) (\<lambda>_ w. safe i ?j (view w))"
    using ack assms by (auto elim!: tri_conseq)
  have failed: "tri (?bad e) (fail_job R S T sh job t p) (\<lambda>_ w. safe i ?j (view w)) (\<lambda>_ w. safe i ?j (view w))"
    for e sh t p
    by (rule tri_pre [OF safe_fail_job]) simp
  show ?thesis
    unfolding run_job_def
  proof (rule tri_catchE [OF body])
    show "tri (?bad e)
        (case e of UnreadableDocument m \<Rightarrow> fail_job R S T (show_sid E) job (exn_str e) True
         | JobCancelled \<Rightarrow> ack R S (qj_entry_id job)
         | _ \<Rightarrow> fail_job R S T (show_sid E) job (exn_text e) False)
        (\<lambda>_ w. safe i ?j (view w)) (\<lambda>_ w. safe i ?j (view w))" for e
      by (cases e; simp only: exn.case; rule cancelled failed)
  qed
qed

end

text \<open>
  C1. No job is lost. Under every fault of Redis (any command may raise, with or without its
  effect), every behaviour of the file system, the document library, the page pipeline, the
  database and the PDF writer, and however the handler ends: a delivered job's entry is still on
  the pending list, so it will be delivered again, or the job's hash holds a terminal status.
\<close>

theorem no_job_lost:
  assumes "worker view R S T E" and "qj_entry_id job \<in> s_pend (view w) (queue_stream S)"
    and "run_job R S T E job w = (r, w')"
  shows "qj_entry_id job \<in> s_pend (view w') (queue_stream S) \<or> finished (qj_job_id job) (view w')"
  using worker.safe_run_job [OF assms(1) refl, of job] assms(2,3)
  by (cases r) (auto simp: pending_def dest: tri_InrD tri_InlD)

end
