(* ===== verification/Worker_Outcome.thy ===== *)
theory Worker_Outcome
  imports Worker_Safety
begin

text \<open>
  What the handler achieves when it gets through: the exact effect of the failure handler when it
  returns, and, over a Redis that does not fail (\<open>reliable_worker\<close>), the completion of a job. The
  instance \<open>mem_worker\<close> runs the worker on \<open>mem_redis\<close>.
\<close>

definition attempts_of :: "pystr \<Rightarrow> store \<Rightarrow> int" where
  \<comment> \<open>the attempts the failure handler sees: a missing or zero counter counts as one\<close>
  "attempts_of j s = (let n = hash_int (s_hash s (job_key j)) ''attempts'' in if n = 0 then 1 else n)"

definition in_stream :: "pystr \<Rightarrow> sid \<Rightarrow> store \<Rightarrow> bool" where
  "in_stream k i s \<longleftrightarrow> i \<in> fst ` set (s_stream s k)"

lemma fail_job_result:
  assumes "worker view R S T E" and "fail_job R S T sh job err permanent w = (Inr (), w')"
  shows "let s = view w; s' = view w'; j = qj_job_id job; i = qj_entry_id job; q = queue_stream S in
    if \<not> permanent \<and> attempts_of j s < max_attempts S
    then s_pend s' q = s_pend s q \<and> s_stream s' q = s_stream s q \<and>
      dget (s_hash s' (job_key j)) ''status'' = dget (s_hash s (job_key j)) ''status'' \<and>
      (\<exists>e. last (s_stream s' (events_stream j)) = e \<and> dget (snd e) ''type'' = Some (event_value Progress))
    else has_status j Failed s' \<and> i \<notin> s_pend s' q \<and> \<not> in_stream q i s' \<and>
      (\<not> permanent \<longrightarrow> dget (snd (last (s_stream s' (dead_letter_stream S)))) ''job_id'' = Some j)"
proof -
  note W = assms(1) and J = worker.axioms(1) [OF assms(1)]
  define s j i q where defs: "s = view w" "j = qj_job_id job" "i = qj_entry_id job" "q = queue_stream S"
  obtain n w1 where n: "hincrby R (job_key j) ''attempts'' 0 w = (Inr n, w1)"
    and rest: "(let attempts = (if n = 0 then 1 else n); exhausted = (permanent \<or> attempts \<ge> max_attempts S)
       in if \<not> exhausted then publish_now R S T Progress j (lit ''retrying after error: '' @ err)
          else seqE
            [set_status R S T j Failed [(''error'', Some err)],
             publish_now R S T Job_failed j err,
             expire_events R S j,
             if permanent then ack R S i else dead_letter R S sh job err]) w1 = (Inr (), w')"
    using assms(2) unfolding fail_job_def bindE_Inr_iff defs by blast
  have w1: "view w1 = put_hash (job_key j) [(''attempts'', show_int n)] s" "attempts_of j s = (if n = 0 then 1 else n)"
    using job_store.hincrby_InrD [OF J n] by (simp_all add: defs attempts_of_def)
  note apart = worker.streams_apart [OF W]
  show ?thesis
  proof (cases "\<not> permanent \<and> attempts_of j s < max_attempts S")
    case True
    then have "publish_now R S T Progress j (lit ''retrying after error: '' @ err) w1 = (Inr (), w')"
      using rest w1(2) by (simp add: Let_def split: if_splits)
    have "queue_stream S \<noteq> events_stream (qj_job_id job)"
      using apart(1) [of "qj_job_id job"] by simp
    with job_store.publish_now_InrD [OF J \<open>publish_now R S T Progress j _ w1 = _\<close>] show ?thesis
      using True w1(1) by (auto simp: Let_def defs)
  next
    case False
    then obtain w2 w3 w4 where
      "set_status R S T j Failed [(''error'', Some err)] w1 = (Inr (), w2)"
      "publish_now R S T Job_failed j err w2 = (Inr (), w3)"
      "expire_events R S j w3 = (Inr (), w4)"
      and fin: "(if permanent then ack R S i else dead_letter R S sh job err) w4 = (Inr (), w')"
      using rest w1(2) by (auto simp: Let_def bindE_Inr_iff split: if_splits)
    then have w4: "has_status j Failed (view w4)"
      using job_store.set_status_InrD [OF J] job_store.publish_now_InrD [OF J] job_store.expire_InrD [OF J]
      by (fastforce simp: has_status_def dget_status_dict)
    show ?thesis
    proof (cases permanent)
      case True
      then show ?thesis
        using fin w4 job_store.ack_InrD [OF J, of S i w4 "()" w']
        by (auto simp: Let_def has_status_def in_stream_def defs)
    next
      case transient: False
      then show ?thesis
        using fin w4 job_store.dead_letter_InrD [OF J, of S sh job err w4 "()" w'] False apart(2)
        by (auto simp: Let_def has_status_def in_stream_def defs dget_def)
    qed
  qed
qed

lemma fail_job_exhausted:
  assumes "worker view R S T E" and "fail_job R S T sh job err False w = (Inr (), w')"
    and "max_attempts S \<le> attempts_of (qj_job_id job) (view w)"
  shows "has_status (qj_job_id job) Failed (view w') \<and>
    dget (snd (last (s_stream (view w') (dead_letter_stream S)))) ''job_id'' = Some (qj_job_id job)"
  using fail_job_result [OF assms(1,2)] assms(3) by (simp add: Let_def)

text \<open>
  C7. The failure handler, when it returns. A transient failure with attempts to spare leaves the
  entry pending, the queue and the job's status as they were, and reports a retry on the event
  stream. Otherwise the job is marked failed and its entry is gone from the pending list and the
  queue; and if the failure was not permanent, the job is on the dead-letter stream.
\<close>

theorem failure_handling:
  assumes "worker view R S T E" and "fail_job R S T sh job err permanent w = (Inr (), w')"
  shows "let s = view w; s' = view w'; j = qj_job_id job; i = qj_entry_id job; q = queue_stream S in
    if \<not> permanent \<and> attempts_of j s < max_attempts S
    then s_pend s' q = s_pend s q \<and> s_stream s' q = s_stream s q \<and>
      dget (s_hash s' (job_key j)) ''status'' = dget (s_hash s (job_key j)) ''status'' \<and>
      (\<exists>e. last (s_stream s' (events_stream j)) = e \<and> dget (snd e) ''type'' = Some (event_value Progress))
    else has_status j Failed s' \<and> i \<notin> s_pend s' q \<and> \<not> in_stream q i s' \<and>
      (\<not> permanent \<longrightarrow> dget (snd (last (s_stream s' (dead_letter_stream S)))) ''job_id'' = Some j)"
  using fail_job_result [OF assms] .

text \<open>
  A finished job can be turned into a failed one. If the document was processed (or found
  already finished) but the acknowledgement that follows fails with a connection error, and the
  job has used its attempts, then the handler, which cannot tell this from a processing failure,
  overwrites the terminal status with \<open>failed\<close> and puts the job on the dead-letter stream.
\<close>

theorem finished_job_dead_lettered:
  assumes "worker view R S T E" and "process R S T E job w = (Inr (), w1)"
    and "ack R S (qj_entry_id job) w1 = (Inl (ConnectionError m), w2)"
    and "max_attempts S \<le> attempts_of (qj_job_id job) (view w2)"
    and "run_job R S T E job w = (Inr (), w')"
  shows "finished (qj_job_id job) (view w1) \<and> has_status (qj_job_id job) Failed (view w') \<and>
    dget (snd (last (s_stream (view w') (dead_letter_stream S)))) ''job_id'' = Some (qj_job_id job)"
proof -
  let ?j = "qj_job_id job"
  have fin: "finished ?j (view w1)"
    using worker.finishes_process [OF assms(1), of job] assms(2)
    unfolding worker.finishes_def [OF assms(1)] by (auto dest: tri_InrD)
  have fail: "fail_job R S T (show_sid E) job (exn_text (ConnectionError m)) False w2 = (Inr (), w')"
    using assms(2,3,5) by (simp add: run_job_def bindE_def catchE_def)
  have "has_status ?j Failed (view w') \<and>
    dget (snd (last (s_stream (view w') (dead_letter_stream S)))) ''job_id'' = Some ?j"
    using fail_job_exhausted [OF assms(1) fail] assms(4) by simp
  with fin show ?thesis by blast
qed

section \<open>A Redis that does not fail\<close>

locale reliable_worker = worker view R S T E + reliable_redis view R
  for view :: "'w \<Rightarrow> store" and R :: "'w redis" and S :: settings
    and T :: "('w, 't) time_api" and E :: "('w, 't, 'd) worker_env" +
  assumes env_returns: "returns (now_utc T)" "returns (perf T)" "returns (open_document E p)" "returns (close_document E d)"
    "returns (page_results E j d)" "returns (write_text E p t)" "returns (today E)"
begin

lemma returns_events [returns_rules]:
  "returns (publish_now R S T ty j t)" "returns (set_status R S T j st fs)" "returns (update_job R j fs)"
  "returns (expire_events R S j)" "returns (ack R S i)" "returns (mark_completed R S T j a n tm)"
  unfolding mark_completed_def publish_now_def publish_def set_status_def update_job_def expire_events_def ack_def
    Let_def seqE.simps
  by (intro returns_rules no_fault env_returns)+

lemma returns_write_artifacts [returns_rules]: "returns (write_artifacts S E r source txts)"
  unfolding write_artifacts_def Let_def by (intro returns_rules env_returns)

lemma returns_save_result [returns_rules]: "returns (save_result P D r)"
  unfolding save_result_def by (intro returns_rules)

lemma returns_consume [returns_rules]: "returns (consume_quota S E tn n)"
  unfolding consume_quota_def quota_consume_def by (intro returns_rules env_returns)

lemma returns_finish_job:
  assumes "time_field T meta ''created_at'' = Inr q"
  shows "returns (finish_job R S T E j meta source att st wt pt ps)"
proof -
  have "ofE (time_field T meta ''created_at'') = (retE q :: ('w, 't option) prog)"
    using assms by (simp add: ofE_def retE_def)
  then show ?thesis
    unfolding finish_job_def Let_def by (simp only: bindE_retE) (intro returns_rules env_returns; auto intro!: returns_rules env_returns)
qed

lemma returns_process_pages: "returns (process_pages R S T E j d)"
  unfolding process_pages_def by (rule returns_catchE_body) (rule env_returns)

lemma returns_process_document:
  assumes "time_field T meta ''created_at'' = Inr q" and "dget meta ''path'' = Some p"
    and "\<And>w. fst (path_exists E p w) = Inr True"
  shows "returns (process_document R S T E j meta att st wt)"
proof -
  have src: "ofE (case dget meta ''path'' of None \<Rightarrow> Inl (KeyError (lit ''path'')) | Some p \<Rightarrow> Inr p) = (retE p :: ('w, pystr) prog)"
    using assms(2) by (simp add: ofE_def retE_def)
  have there: "returns (bindE (path_exists E p) k)" if "returns (k True)" for k :: "bool \<Rightarrow> ('w, unit) prog"
    using that assms(3) unfolding returns_def bindE_def by (metis (no_types, lifting) old.prod.case prod.collapse sum.case(2))
  show ?thesis
    unfolding process_document_def src bindE_retE
    by (rule there, simp) (intro returns_rules env_returns returns_process_pages returns_finish_job [OF assms(1)])
qed

lemma mark_completed_InrD:
  assumes "mark_completed R S T j a n t w = (Inr (), w')"
  shows "has_status j Completed (view w') \<and>
    dget (snd (last (s_stream (view w') (events_stream j)))) ''type'' = Some (event_value Job_complete)"
proof -
  obtain w1 w2 where st: "set_status R S T j Completed
        [(''result_path'', json_path a), (''pdf_path'', pdf_path a), (''markdown_path'', markdown_path a),
         (''page_count'', Some (show_int n)), (''completed_at'', Some (iso T t))] w = (Inr (), w1)"
    and pub: "publish_now R S T Job_complete j (show_int n) w1 = (Inr (), w2)"
    and ex: "expire_events R S j w2 = (Inr (), w')"
    using assms unfolding mark_completed_def seqE.simps bindE_Inr_iff by auto
  from set_status_InrD [OF st] have "has_status j Completed (view w1)"
    by (auto simp: has_status_def dget_status_dict)
  with publish_now_InrD [OF pub] expire_InrD [OF ex] show ?thesis
    by (auto simp: has_status_def)
qed

lemma finish_job_InrD:
  assumes "finish_job R S T E j meta source att st wt pt ps w = (Inr (), w')"
  shows "has_status j Completed (view w') \<and>
    dget (snd (last (s_stream (view w') (events_stream j)))) ''type'' = Some (event_value Job_complete)"
proof -
  obtain a n t w1 where "mark_completed R S T j a n t w1 = (Inr (), w')"
    using assms unfolding finish_job_def Let_def seqE.simps bindE_Inr_iff by blast
  then show ?thesis by (rule mark_completed_InrD)
qed

lemma attempt_job_completes:
  assumes "time_field T meta ''created_at'' = Inr q" and "dget meta ''path'' = Some p"
    and "\<And>w. fst (path_exists E p w) = Inr True"
    and wait: "\<And>t. \<exists>s. queue_wait T meta t = Inr s"
    and incr: "hincrby R (job_key j) ''attempts'' 1 w = (Inr n, w1)"
  shows "\<exists>w'. attempt_job R S T E j meta w = (Inr (), w') \<and> has_status j Completed (view w') \<and>
    dget (snd (last (s_stream (view w') (events_stream j)))) ''type'' = Some (event_value Job_complete)"
proof -
  let ?rest = "\<lambda>attempts. bindE (now_utc T) (\<lambda>started_at.
     bindE (ofE (queue_wait T meta started_at)) (\<lambda>wait.
     bindE (set_status R S T j Processing
        [(''started_at'', Some (iso T started_at)), (''attempts'', Some (show_int attempts)),
         (''pages_done'', Some (lit ''0''))]) (\<lambda>_.
     bindE (publish_now R S T Job_started j []) (\<lambda>_.
       process_document R S T E j meta attempts started_at wait))))"
  have "returns (ofE (queue_wait T meta t) :: ('w, rat option) prog)" for t
    using wait [of t] by (auto simp: returns_def ofE_def)
  then have "returns (?rest n)"
    by (intro returns_rules env_returns returns_process_document [OF assms(1-3)])
  then obtain w' where w': "?rest n w1 = (Inr (), w')" by (auto simp: returns_def)
  then have "attempt_job R S T E j meta w = (Inr (), w')"
    using incr by (simp add: attempt_job_def bindE_def)
  moreover obtain started wait w2 where "process_document R S T E j meta n started wait w2 = (Inr (), w')"
    using w' unfolding bindE_Inr_iff by blast
  then obtain w3 pages pt where "finish_job R S T E j meta p n started wait pt pages w3 = (Inr (), w')"
    unfolding process_document_def bindE_Inr_iff using assms(2)
    by (auto simp: ofE_def bindE_Inr_iff split: if_splits)
  ultimately show ?thesis using finish_job_InrD by blast
qed

lemma run_job_completes:
  assumes meta: "meta = s_hash (view w) (job_key (qj_job_id job))" "meta \<noteq> []"
    and st: "dget meta ''status'' \<notin> {Some (status_value Completed), Some (status_value Cancelled)}"
    and flag: "s_value (view w) (cancel_key (qj_job_id job)) = None"
    and doc: "time_field T meta ''created_at'' = Inr q" "dget meta ''path'' = Some p"
      "\<And>w. fst (path_exists E p w) = Inr True" "\<And>t. \<exists>s. queue_wait T meta t = Inr s"
    and att: "dget meta ''attempts'' = None \<or> dget meta ''attempts'' = Some (show_int n)"
  shows "\<exists>w'. run_job R S T E job w = (Inr (), w') \<and> has_status (qj_job_id job) Completed (view w') \<and>
    qj_entry_id job \<notin> s_pend (view w') (queue_stream S) \<and> \<not> in_stream (queue_stream S) (qj_entry_id job) (view w') \<and>
    dget (snd (last (s_stream (view w') (events_stream (qj_job_id job))))) ''type'' = Some (event_value Job_complete)"
proof -
  let ?j = "qj_job_id job"
  obtain m w1 where w1: "hgetall R (job_key ?j) w = (Inr m, w1)"
    using returnsD [OF no_fault(1)] by blast
  with outcome_InrD [OF effect_outcome [OF hgetall_effect] w1] have m: "m = meta" "view w1 = view w"
    by (simp_all add: does_hgetall_def meta)
  obtain c w2 where w2: "exists_key R (cancel_key ?j) w1 = (Inr c, w2)"
    using returnsD [OF no_fault(7)] by blast
  with outcome_InrD [OF effect_outcome [OF exists_effect] w2] have c: "\<not> c" "view w2 = view w"
    using flag m by (simp_all add: does_exists_def)
  obtain a w3 where w3: "hincrby R (job_key ?j) ''attempts'' 1 w2 = (Inr a, w3)"
    using no_fault_hincrby [of w2 "job_key ?j" "''attempts''" n 1] att c(2) meta(1) by auto
  obtain w4 where w4: "attempt_job R S T E ?j meta w2 = (Inr (), w4)" "has_status ?j Completed (view w4)"
    "dget (snd (last (s_stream (view w4) (events_stream ?j)))) ''type'' = Some (event_value Job_complete)"
    using attempt_job_completes [OF doc w3] by blast
  obtain w' where w': "ack R S (qj_entry_id job) w4 = (Inr (), w')"
    using returnsD [OF returns_events(5), of "qj_entry_id job" w4] by auto
  have "process R S T E job w = (Inr (), w4)"
    unfolding process_def Let_def get_job_def is_cancelled_def
    using w1 m(1) meta(2) st w2 c(1) w4(1) by (simp only: bindE_def prod.case sum.case if_False)
  then have "run_job R S T E job w = (Inr (), w')"
    using w' by (simp add: run_job_def bindE_def catchE_def)
  moreover have "queue_stream S \<noteq> events_stream ?j" using streams_apart(1) [of ?j] by simp
  ultimately show ?thesis
    using ack_InrD [OF w'] w4 by (auto simp: has_status_def in_stream_def)
qed

end

end
