(* ===== verification/Worker_Run.thy ===== *)
theory Worker_Run
  imports Worker_Outcome
begin

text \<open>
  The worker on the in-memory server: \<open>mem_worker\<close> on \<open>mem_redis\<close>, which fails as its script of
  faults says, and \<open>calm_worker\<close> on \<open>calm_redis\<close>, which never fails. Both interpret the interfaces
  of the safety and of the completion proofs; the properties of the handler and the examples that
  run them are here.
\<close>

definition mem_settings :: settings where
  "mem_settings = default_settings\<lparr>storage_dir := lit ''s''\<rparr>"

definition mem_time :: "(memory_db, nat) time_api" where
  "mem_time = \<lparr>iso = show_nat,
     from_iso = (\<lambda>t. case parse_int t of Some n \<Rightarrow> Inr (nat n) | None \<Rightarrow> Inl (ValueError t)),
     now_utc = getE clock, seconds_since = (\<lambda>a b. Inr (of_nat a - of_nat b)), perf = getE (\<lambda>w. of_nat (clock w))\<rparr>"

definition mem_env :: "(memory_db, nat, unit) worker_env" where
  "mem_env = \<lparr>path_exists = (\<lambda>p. retE True), open_document = (\<lambda>p. retE ()), close_document = (\<lambda>d. retE ()),
     document_pages = (\<lambda>d. 2), page_results = (\<lambda>j d. retE [new_page 1, new_page 0]),
     write_text = (\<lambda>p t. retE ()), build_pdf = (\<lambda>p txts q. raiseE (OSError [])), model_dump_json = (\<lambda>r. []),
     db_pool = \<lparr>create_pool = retE (), select_one = retE 1, transaction = (\<lambda>f. raiseE (OSError [])),
       fetch_job = (\<lambda>k. retE None), fetch_pages = (\<lambda>k. retE []), select_recent = (\<lambda>t n. retE [])\<rparr>,
     db_state = \<lparr>enabled = True, connected = True\<rparr>, quota_incr = (\<lambda>k n ttl. retE n), today = retE (lit ''20250101''),
     unicode_tables = ascii_unicode,
     show_sid = (\<lambda>(a, b). show_nat a @ lit ''-'' @ show_nat b)\<rparr>"

lemma quiet_getE: "quiet (getE f)"
  by (simp add: quiet_def tri_def prog_defs)

lemma effect_retE: "effect view (retE a) does_nothing"
  by (simp add: effect_def outcome_def does_nothing_def prog_defs quiet_retE [unfolded retE_def])

lemma effect_getE: "effect view (getE f) does_nothing"
  by (simp add: effect_def outcome_def does_nothing_def prog_defs quiet_getE [unfolded getE_def])

lemma mem_streams_apart:
  "events_stream j \<noteq> queue_stream mem_settings" "dead_letter_stream mem_settings \<noteq> queue_stream mem_settings"
  "dead_letter_stream mem_settings \<noteq> events_stream j"
  by (simp_all add: mem_settings_def default_settings_def events_stream_def lit_def)

lemma mem_environment:
  "effect db (now_utc mem_time) does_nothing" "effect db (path_exists mem_env p) does_nothing"
  "effect db (open_document mem_env p) does_nothing" "effect db (close_document mem_env d) does_nothing"
  "outcome db (page_results mem_env j d) (does_pages (queue_stream mem_settings) j)"
  "effect db (write_text mem_env p t) does_nothing" "effect db (build_pdf mem_env p txts q) does_nothing"
  "effect db (transaction (db_pool mem_env) f) does_nothing" "effect db (quota_incr mem_env k n ttl) does_nothing"
  "effect db (today mem_env) does_nothing"
  "effect db (perf mem_time) does_nothing" "from_iso mem_time t \<noteq> Inl JobCancelled"
  "seconds_since mem_time u v \<noteq> Inl JobCancelled"
  by (simp_all add: mem_env_def mem_time_def effect_retE effect_raiseE effect_getE split: option.split)
    (simp add: outcome_def does_pages_def prog_defs)

interpretation mem_worker: worker db mem_redis mem_settings mem_time mem_env
  by unfold_locales (rule mem_environment mem_streams_apart)+

interpretation calm_worker: reliable_worker db calm_redis mem_settings mem_time mem_env
  by unfold_locales
    ((rule mem_environment mem_streams_apart)+,
      simp_all add: mem_env_def mem_time_def returns_def prog_defs)

section \<open>Examples\<close>

text \<open>One job, delivered and pending: its status, the attempts so far and the faults to come are
  arguments.\<close>

definition sample_job :: queued_job where
  "sample_job = \<lparr>qj_entry_id = (1, 0), qj_job_id = lit ''j1'', qj_deliveries = 1, qj_fields = []\<rparr>"

definition sample_world :: "job_status \<Rightarrow> int \<Rightarrow> fault list \<Rightarrow> memory_db" where
  "sample_world st att fs = \<lparr>db = \<lparr>
     s_hash = (\<lambda>k. if k = job_key (lit ''j1'') then [(''status'', status_value st), (''path'', lit ''u/j1.pdf''),
        (''attempts'', show_int att)] else []),
     s_value = (\<lambda>k. None),
     s_stream = (\<lambda>k. if k = lit ''ocr:jobs'' then [((1, 0), [(''job_id'', lit ''j1'')])] else []),
     s_cursor = (\<lambda>k. if k = lit ''ocr:jobs'' then (1, 0) else (0, 0)),
     s_pend = (\<lambda>k. if k = lit ''ocr:jobs'' then {(1, 0)} else {})\<rparr>, faults = fs, clock = 0\<rparr>"

lemma no_job_lost_witness:
  "\<exists>r w'. run_job mem_redis mem_settings mem_time mem_env sample_job
      (sample_world Queued 0 [Fine, Fine, Fine, After (lit ''reset'')]) = (r, w') \<and>
    ((1, 0) \<in> s_pend (db w') (queue_stream mem_settings) \<or> finished (lit ''j1'') (db w'))"
proof -
  obtain r w' where run: "run_job mem_redis mem_settings mem_time mem_env sample_job
      (sample_world Queued 0 [Fine, Fine, Fine, After (lit ''reset'')]) = (r, w')" by fastforce
  have "qj_entry_id sample_job \<in> s_pend (db (sample_world Queued 0 [Fine, Fine, Fine, After (lit ''reset'')])) (queue_stream mem_settings)"
    by (simp add: sample_job_def sample_world_def mem_settings_def default_settings_def)
  from no_job_lost [OF mem_worker.worker_axioms this run] run show ?thesis
    by (auto simp: sample_job_def)
qed

text \<open>Once the script of faults is used up, no command of \<open>mem_redis\<close> fails.\<close>

definition runs_out :: "(memory_db, 'a) prog \<Rightarrow> bool" where
  "runs_out m \<longleftrightarrow> (\<forall>w. faults w = [] \<longrightarrow> (\<exists>a w'. m w = (Inr a, w') \<and> faults w' = []))"

lemma runs_out_retE: "runs_out (retE a)"
  by (simp add: runs_out_def retE_def)

lemma runs_out_getE: "runs_out (getE f)"
  by (simp add: runs_out_def getE_def)

lemma runs_out_bindE: "runs_out m \<Longrightarrow> (\<And>a. runs_out (k a)) \<Longrightarrow> runs_out (bindE m k)"
  unfolding runs_out_def
proof (intro allI impI)
  fix w :: memory_db
  assume "\<forall>w. faults w = [] \<longrightarrow> (\<exists>a w'. m w = (Inr a, w') \<and> faults w' = [])" "faults w = []"
    and k: "\<And>a. \<forall>w. faults w = [] \<longrightarrow> (\<exists>b w'. k a w = (Inr b, w') \<and> faults w' = [])"
  then obtain a w1 where "m w = (Inr a, w1)" "faults w1 = []" by blast
  then show "\<exists>b w'. bindE m k w = (Inr b, w') \<and> faults w' = []" using k by (simp add: bindE_def)
qed

lemma runs_out_command: "runs_out (run_command f)"
  by (auto simp: runs_out_def run_command_def Let_def split: prod.split)

lemmas runs_out_rules = runs_out_retE runs_out_getE runs_out_bindE runs_out_command

lemma runs_out_fail_job: "runs_out (fail_job mem_redis mem_settings mem_time sh job err perm)"
proof -
  have set: "runs_out (set_status mem_redis mem_settings mem_time j st fs)"
    and pub: "runs_out (publish_now mem_redis mem_settings mem_time ty j t)"
    and expire: "runs_out (expire_events mem_redis mem_settings j)"
    and ack: "runs_out (ack mem_redis mem_settings i)"
    and dead: "runs_out (dead_letter mem_redis mem_settings sh job err)"
    and incr: "runs_out (hincrby mem_redis k f n)" for j st fs ty t i k f n
    unfolding set_status_def publish_now_def publish_def expire_events_def dead_letter_def ack_def
      mem_redis_def redis.simps Let_def mem_time_def time_api.simps
    by (intro runs_out_rules)+
  show ?thesis
    unfolding fail_job_def Let_def seqE.simps
    by (intro runs_out_bindE incr) (auto intro!: runs_out_bindE set pub expire ack dead)
qed

lemma finished_job_fails_ack:
  "case process mem_redis mem_settings mem_time mem_env sample_job (sample_world Completed 3 [Fine, Before []]) of
     (Inl e, w1) \<Rightarrow> False
   | (Inr u, w1) \<Rightarrow> (case ack mem_redis mem_settings (1, 0) w1 of
        (Inl e, w2) \<Rightarrow> e = ConnectionError [] \<and> attempts_of (lit ''j1'') (db w2) = 3 \<and> faults w2 = []
      | (Inr u, w2) \<Rightarrow> False)"
  by code_simp

lemma finished_job_dead_lettered_witness:
  "\<exists>w'. run_job mem_redis mem_settings mem_time mem_env sample_job (sample_world Completed 3 [Fine, Before []]) = (Inr (), w') \<and>
    has_status (lit ''j1'') Failed (db w')"
proof -
  obtain w1 w2 where p: "process mem_redis mem_settings mem_time mem_env sample_job (sample_world Completed 3 [Fine, Before []]) = (Inr (), w1)"
    and a: "ack mem_redis mem_settings (qj_entry_id sample_job) w1 = (Inl (ConnectionError []), w2)"
    and n: "attempts_of (lit ''j1'') (db w2) = 3" "faults w2 = []"
    using finished_job_fails_ack by (auto simp: sample_job_def split: prod.splits sum.splits)
  obtain w' where "fail_job mem_redis mem_settings mem_time (show_sid mem_env) sample_job
      (exn_text (ConnectionError [])) False w2 = (Inr (), w')"
    using runs_out_fail_job [unfolded runs_out_def, rule_format, OF n(2),
        of "show_sid mem_env" sample_job "exn_text (ConnectionError [])" False] by auto
  then have r: "run_job mem_redis mem_settings mem_time mem_env sample_job (sample_world Completed 3 [Fine, Before []]) = (Inr (), w')"
    using p a by (simp add: run_job_def bindE_def catchE_def)
  have "max_attempts mem_settings \<le> attempts_of (qj_job_id sample_job) (db w2)"
    using n(1) by (simp add: sample_job_def mem_settings_def default_settings_def)
  from finished_job_dead_lettered [OF mem_worker.worker_axioms p a this r] r show ?thesis
    by (auto simp: sample_job_def)
qed

lemma failure_handling_witness:
  "\<exists>w'. fail_job mem_redis mem_settings mem_time (show_sid mem_env) sample_job (lit ''boom'') False
     (sample_world Processing 3 []) = (Inr (), w') \<and> has_status (lit ''j1'') Failed (db w')"
proof -
  obtain w' where r: "fail_job mem_redis mem_settings mem_time (show_sid mem_env) sample_job (lit ''boom'') False
     (sample_world Processing 3 []) = (Inr (), w')"
    using runs_out_fail_job [unfolded runs_out_def, rule_format, of "sample_world Processing 3 []"
        "show_sid mem_env" sample_job "lit ''boom''" False]
    by (auto simp: sample_world_def)
  have "attempts_of (lit ''j1'') (db (sample_world Processing 3 [])) = 3" "max_attempts mem_settings = 3"
    by (simp_all add: attempts_of_def sample_world_def hash_int_def dget_def mem_settings_def default_settings_def Let_def)
  with failure_handling [OF mem_worker.worker_axioms r] r show ?thesis
    by (auto simp: sample_job_def Let_def)
qed



end
