(* ===== verification/Storage.thy ===== *)
theory Storage
  imports Redis_Api Filetype Config
begin

text \<open>
  \<open>common/storage.py\<close>: the local blob store. The file system is the interface \<open>file_store\<close>: any
  operation may raise; one that returns has had its effect on the table of files (\<open>disk\<close>), and no
  operation touches a file it was not given. A stream of chunks is the list of what its reads
  yield, an exception included. \<open>mem_files\<close> is an instance in memory. Interrupted writes may leave a
  file with any content, which is why \<open>put_stream\<close> removes it.
\<close>

section \<open>Files\<close>

record stored_file =
  content :: "byte list"
  mtime :: rat

type_synonym table = "pystr \<Rightarrow> stored_file option"

record 'w files =
  make_dir :: "pystr \<Rightarrow> ('w, unit) prog"
  open_write :: "pystr \<Rightarrow> ('w, unit) prog"                  \<comment> \<open>creates or truncates\<close>
  write_chunk :: "pystr \<Rightarrow> byte list \<Rightarrow> ('w, unit) prog"
  close_write :: "pystr \<Rightarrow> ('w, unit) prog"
  write_bytes :: "pystr \<Rightarrow> byte list \<Rightarrow> ('w, unit) prog"
  unlink :: "pystr \<Rightarrow> ('w, unit) prog"                      \<comment> \<open>\<open>missing_ok=True\<close>\<close>
  file_exists :: "pystr \<Rightarrow> ('w, bool) prog"
  is_file :: "pystr \<Rightarrow> ('w, bool) prog"
  read_bytes :: "pystr \<Rightarrow> ('w, byte list) prog"
  rglob :: "pystr \<Rightarrow> ('w, pystr list) prog"
  stat :: "pystr \<Rightarrow> ('w, nat \<times> rat) prog"                  \<comment> \<open>size and mtime\<close>
  time_now :: "('w, rat) prog"

definition touches_only :: "('w \<Rightarrow> table) \<Rightarrow> pystr set \<Rightarrow> ('w, 'a) prog \<Rightarrow> bool" where
  \<comment> \<open>whatever the program does, files outside the set stay as they are\<close>
  "touches_only disk P m \<longleftrightarrow> (\<forall>w q. q \<notin> P \<longrightarrow> disk (snd (m w)) q = disk w q)"

locale file_store =
  fixes disk :: "'w \<Rightarrow> table" and F :: "'w files"
  assumes touches: "touches_only disk {} (make_dir F p)" "touches_only disk {p} (open_write F p)"
      "touches_only disk {p} (write_chunk F p c)" "touches_only disk {} (close_write F p)"
      "touches_only disk {p} (write_bytes F p c)" "touches_only disk {p} (unlink F p)"
      "touches_only disk {} (file_exists F p)" "touches_only disk {} (is_file F p)"
      "touches_only disk {} (read_bytes F p)" "touches_only disk {} (rglob F p)"
      "touches_only disk {} (stat F p)" "touches_only disk {} (time_now F)"
    and opened: "open_write F p w = (Inr u, w') \<Longrightarrow> \<exists>f. disk w' p = Some f \<and> content f = []"
    and written: "write_chunk F p c w = (Inr u, w') \<Longrightarrow> disk w p = Some f \<Longrightarrow>
      \<exists>f'. disk w' p = Some f' \<and> content f' = content f @ c"
    and stored: "write_bytes F p c w = (Inr u, w') \<Longrightarrow> \<exists>f. disk w' p = Some f \<and> content f = c"
    and unlinked: "unlink F p w = (Inr u, w') \<Longrightarrow> disk w' p = None"
    and exists_answer: "file_exists F p w = (Inr b, w') \<Longrightarrow> disk w p \<noteq> None \<Longrightarrow> b"

section \<open>The store\<close>

record stored_blob =
  sb_key :: pystr
  sb_path :: pystr
  sb_size :: int
  sb_sha256 :: pystr
  sb_head :: "byte list"

definition path_for :: "pystr \<Rightarrow> pystr \<Rightarrow> exn + pystr" where
  \<comment> \<open>\<open>Path(key).parts\<close> drops empty and \<open>.\<close> components, which does not change whether \<open>..\<close> is one\<close>
  "path_for base key =
     (if 92 \<in> set key \<or> startswith key (lit ''/'') \<or> lit ''..'' \<in> set (split_on 47 key)
      then Inl (ValueError (lit ''illegal blob key '' @ key)) else Inr (slash base key))"

definition parent :: "pystr \<Rightarrow> pystr" where
  "parent p = join (lit ''/'') (butlast (split_on 47 p))"

fun receive :: "'w files \<Rightarrow> pystr \<Rightarrow> int option \<Rightarrow> (exn + byte list) list \<Rightarrow> int \<Rightarrow> byte list \<Rightarrow>
    byte list \<Rightarrow> ('w, int \<times> byte list \<times> byte list) prog" where
  \<comment> \<open>the loop over the chunks; the last argument is what the digest has been fed\<close>
  "receive F dest max_bytes [] sz head fed = retE (sz, head, fed)"
| "receive F dest max_bytes (Inl e # cs) sz head fed = raiseE e"
| "receive F dest max_bytes (Inr c # cs) sz head fed =
     (let sz = sz + int (length c)
      in if (case max_bytes of Some m \<Rightarrow> sz > m | None \<Rightarrow> False) then raiseE (UploadTooLarge (the max_bytes))
         else bindE (write_chunk F dest c) (\<lambda>_. receive F dest max_bytes cs sz
           (if length head < HEAD_BYTES then head @ take (HEAD_BYTES - length head) c else head) (fed @ c)))"

definition put_stream :: "'w files \<Rightarrow> (byte list \<Rightarrow> pystr) \<Rightarrow> pystr \<Rightarrow> pystr \<Rightarrow> (exn + byte list) list \<Rightarrow>
    int option \<Rightarrow> ('w, stored_blob) prog" where
  "put_stream F sha256 base key chunks max_bytes =
     bindE (ofE (path_for base key)) (\<lambda>dest.
     bindE (make_dir F (parent dest)) (\<lambda>_.
     bindE (catchE
        (bindE (open_write F dest) (\<lambda>_.
           finallyE (receive F dest max_bytes chunks 0 [] []) (close_write F dest)))
        (\<lambda>e. bindE (unlink F dest) (\<lambda>_. raiseE e))) (\<lambda>(sz, head, fed).
     retE \<lparr>sb_key = key, sb_path = dest, sb_size = sz, sb_sha256 = sha256 fed, sb_head = head\<rparr>)))"

definition put_bytes :: "'w files \<Rightarrow> (byte list \<Rightarrow> pystr) \<Rightarrow> pystr \<Rightarrow> pystr \<Rightarrow> byte list \<Rightarrow> ('w, stored_blob) prog" where
  "put_bytes F sha256 base key data =
     bindE (ofE (path_for base key)) (\<lambda>dest.
     bindE (make_dir F (parent dest)) (\<lambda>_.
     bindE (write_bytes F dest data) (\<lambda>_.
     retE \<lparr>sb_key = key, sb_path = dest, sb_size = int (length data), sb_sha256 = sha256 data,
       sb_head = take HEAD_BYTES data\<rparr>)))"

definition open_blob :: "'w files \<Rightarrow> pystr \<Rightarrow> pystr \<Rightarrow> ('w, byte list) prog" where
  "open_blob F base key = bindE (ofE (path_for base key)) (read_bytes F)"

definition blob_exists :: "'w files \<Rightarrow> pystr \<Rightarrow> pystr \<Rightarrow> ('w, bool) prog" where
  "blob_exists F base key = bindE (ofE (path_for base key)) (file_exists F)"

definition delete_blob :: "'w files \<Rightarrow> pystr \<Rightarrow> pystr \<Rightarrow> ('w, unit) prog" where
  "delete_blob F base key = bindE (ofE (path_for base key)) (unlink F)"

fun purge_loop :: "'w files \<Rightarrow> rat \<Rightarrow> pystr list \<Rightarrow> int \<Rightarrow> ('w, int) prog" where
  "purge_loop F cutoff [] removed = retE removed"
| "purge_loop F cutoff (p # ps) removed =
     bindE (is_file F p) (\<lambda>b. if \<not> b then purge_loop F cutoff ps removed else
     bindE (stat F p) (\<lambda>(_, t). if t < cutoff
       then bindE (unlink F p) (\<lambda>_. purge_loop F cutoff ps (removed + 1))
       else purge_loop F cutoff ps removed))"

definition purge_older_than :: "'w files \<Rightarrow> pystr \<Rightarrow> int \<Rightarrow> ('w, int) prog" where
  "purge_older_than F base days =
     bindE (time_now F) (\<lambda>now. bindE (rglob F base) (\<lambda>ps.
       purge_loop F (now - of_int (days * 86400)) ps 0))"

fun usage_loop :: "'w files \<Rightarrow> pystr list \<Rightarrow> ('w, int) prog" where
  "usage_loop F [] = retE 0"
| "usage_loop F (p # ps) =
     bindE (is_file F p) (\<lambda>b. if \<not> b then usage_loop F ps else
     bindE (stat F p) (\<lambda>(n, _). bindE (usage_loop F ps) (\<lambda>m. retE (int n + m))))"

definition usage_bytes :: "'w files \<Rightarrow> pystr \<Rightarrow> ('w, int) prog" where
  "usage_bytes F base = bindE (rglob F base) (usage_loop F)"

section \<open>Keys stay inside the store\<close>

text \<open>The lexical normal form of a path: empty and \<open>.\<close> components dropped, \<open>..\<close> goes up.\<close>

fun resolve :: "pystr list \<Rightarrow> pystr list \<Rightarrow> pystr list" where
  "resolve stack [] = stack"
| "resolve stack (c # cs) =
     (if c = [] \<or> c = lit ''.'' then resolve stack cs
      else if c = lit ''..'' then resolve (butlast stack) cs
      else resolve (stack @ [c]) cs)"

lemma resolve_append: "resolve stack (xs @ ys) = resolve (resolve stack xs) ys"
  by (induction stack xs rule: resolve.induct) auto

lemma resolve_down: "lit ''..'' \<notin> set cs \<Longrightarrow> \<exists>rest. resolve stack cs = stack @ rest"
  by (induction stack cs rule: resolve.induct) auto

lemma split_on_append: "split_on c (s @ c # t) = split_on c s @ split_on c t"
  by (induction s) (auto split: list.splits)

lemma path_for_InrD: "path_for base key = Inr p \<Longrightarrow> p = slash base key \<and> lit ''..'' \<notin> set (split_on 47 key)"
  by (auto simp: path_for_def split: if_splits)

lemma path_for_inside:
  assumes "path_for base key = Inr p"
  shows "\<exists>rest. resolve [] (split_on 47 p) = resolve [] (split_on 47 base) @ rest"
proof -
  from path_for_InrD [OF assms] have p: "p = base @ 47 # key" and key: "lit ''..'' \<notin> set (split_on 47 key)"
    by (auto simp: slash_def py_simps)
  then show ?thesis
    using resolve_down [OF key] by (simp add: split_on_append resolve_append)
qed

section \<open>Receiving an upload\<close>

lemma touches_only_bindE:
  assumes "touches_only disk P m" "\<And>a. touches_only disk P (k a)"
  shows "touches_only disk P (bindE m k)"
  using assms unfolding touches_only_def bindE_def
  by (auto split: prod.splits sum.splits) (metis snd_conv)+

lemma touches_only_mono: "touches_only disk P m \<Longrightarrow> P \<subseteq> Q \<Longrightarrow> touches_only disk Q m"
  by (auto simp: touches_only_def)

lemma touches_only_pure [simp]:
  "touches_only disk P (retE a)" "touches_only disk P (raiseE e)" "touches_only disk P (ofE r)"
  by (simp_all add: touches_only_def prog_defs)

lemma touches_only_catchE:
  assumes "touches_only disk P m" "\<And>e. touches_only disk P (h e)"
  shows "touches_only disk P (catchE m h)"
  using assms unfolding touches_only_def catchE_def
  by (auto split: prod.splits sum.splits) (metis snd_conv)+

lemma touches_only_finallyE:
  assumes "touches_only disk P m" "touches_only disk P f"
  shows "touches_only disk P (finallyE m f)"
  using assms unfolding touches_only_def finallyE_def
  by (auto split: prod.splits sum.splits) (metis snd_conv)+

fun chunk_bytes :: "(exn + byte list) list \<Rightarrow> byte list" where
  "chunk_bytes [] = []"
| "chunk_bytes (Inl e # cs) = []"
| "chunk_bytes (Inr c # cs) = c @ chunk_bytes cs"

context file_store
begin

lemma touches_receive: "touches_only disk {dest} (receive F dest mb cs sz head fed)"
proof (induction cs arbitrary: sz head fed)
  case (Cons c cs)
  then show ?case by (cases c) (auto simp: Let_def intro!: touches_only_bindE touches)
qed simp

lemma receive_InrD:
  assumes "receive F dest mb cs sz head fed w = (Inr (n, h, d), w')"
    and "disk w dest = Some f" "content f = fed" and "sz = int (length fed)" and "head = take HEAD_BYTES fed"
  shows "d = fed @ chunk_bytes cs \<and> n = int (length d) \<and> h = take HEAD_BYTES d \<and>
    (\<exists>f'. disk w' dest = Some f' \<and> content f' = d) \<and> (\<forall>m. mb = Some m \<and> cs \<noteq> [] \<longrightarrow> n \<le> m)"
  using assms
proof (induction F\<equiv>F dest mb cs sz head fed arbitrary: w f rule: receive.induct)
  case (3 dest mb c cs sz head fed)
  let ?head = "if length head < HEAD_BYTES then head @ take (HEAD_BYTES - length head) c else head"
  let ?big = "case mb of Some m \<Rightarrow> sz + int (length c) > m | None \<Rightarrow> False"
  have big: "\<not> ?big" using 3(2) by (auto simp: Let_def)
  then obtain w1 where w1: "write_chunk F dest c w = (Inr (), w1)"
    and rest: "receive F dest mb cs (sz + int (length c)) ?head (fed @ c) w1 = (Inr (n, h, d), w')"
    using 3(2) by (auto simp: Let_def bindE_Inr_iff)
  obtain f1 where f1: "disk w1 dest = Some f1" "content f1 = fed @ c"
    using written [OF w1 3(3)] 3(4) by auto
  have len: "sz + int (length c) = int (length (fed @ c))" using 3(5) by simp
  have head: "?head = take HEAD_BYTES (fed @ c)" using 3(6) by (auto simp: min_def)
  have IH: "d = (fed @ c) @ chunk_bytes cs \<and> n = int (length d) \<and> h = take HEAD_BYTES d \<and>
    (\<exists>f'. disk w' dest = Some f' \<and> content f' = d) \<and> (\<forall>m. mb = Some m \<and> cs \<noteq> [] \<longrightarrow> n \<le> m)"
    using 3(1) [OF refl big rest f1 len head] .
  have "n \<le> m" if "mb = Some m" for m
  proof (cases "cs = []")
    case True
    then show ?thesis using big that IH 3(5) by simp
  next
    case False
    then show ?thesis using IH that by blast
  qed
  then show ?case using IH by (metis append_assoc chunk_bytes.simps(3))
qed (auto)

lemma put_stream_body_touches:
  "touches_only disk {dest} (catchE (bindE (open_write F dest) (\<lambda>_.
     finallyE (receive F dest mb cs 0 [] []) (close_write F dest)))
     (\<lambda>e. bindE (unlink F dest) (\<lambda>_. raiseE e)))"
  by (intro touches_only_catchE touches_only_bindE touches_only_finallyE touches touches_receive touches_only_pure
      touches_only_mono [OF touches(4)]) simp

lemma touches_nothingD: "touches_only disk {} m \<Longrightarrow> m w = (r, w') \<Longrightarrow> disk w' = disk w"
  by (auto simp: touches_only_def fun_eq_iff) (metis snd_conv)

lemma put_stream_cases:
  assumes "put_stream F sha base key cs mb w = (r, w')"
  shows "(\<exists>e. r = Inl e \<and> disk w' = disk w) \<or>
    (\<exists>dest w1 r1. path_for base key = Inr dest \<and> disk w1 = disk w \<and>
      catchE (bindE (open_write F dest) (\<lambda>_. finallyE (receive F dest mb cs 0 [] []) (close_write F dest)))
        (\<lambda>e. bindE (unlink F dest) (\<lambda>_. raiseE e)) w1 = (r1, w') \<and>
      r = map_sum id (\<lambda>(n, h, d). \<lparr>sb_key = key, sb_path = dest, sb_size = n, sb_sha256 = sha d, sb_head = h\<rparr>) r1)"
proof (cases "path_for base key")
  case (Inl e)
  then show ?thesis using assms by (auto simp: put_stream_def bindE_def ofE_def)
next
  case (Inr dest)
  obtain r0 w1 where mk: "make_dir F (parent dest) w = (r0, w1)" by fastforce
  have d: "disk w1 = disk w" by (rule touches_nothingD [OF touches(1) mk])
  show ?thesis
  proof (cases r0)
    case (Inl e)
    then show ?thesis using assms mk d \<open>path_for base key = Inr dest\<close>
      by (auto simp: put_stream_def bindE_def ofE_def)
  next
    case (Inr u)
    show ?thesis
      using assms mk d \<open>path_for base key = Inr dest\<close> Inr
      by (auto simp: put_stream_def bindE_def ofE_def retE_def split: prod.splits sum.splits)
  qed
qed

lemma put_stream_InrD:
  assumes "put_stream F sha base key cs mb w = (Inr b, w')"
  shows "path_for base key = Inr (sb_path b) \<and> sb_key b = key \<and>
    (\<exists>f. disk w' (sb_path b) = Some f \<and> content f = chunk_bytes cs) \<and>
    sb_size b = int (length (chunk_bytes cs)) \<and> (\<forall>m. mb = Some m \<and> cs \<noteq> [] \<longrightarrow> sb_size b \<le> m) \<and>
    sb_head b = take HEAD_BYTES (chunk_bytes cs) \<and> sb_sha256 b = sha (chunk_bytes cs) \<and>
    (\<forall>q. q \<noteq> sb_path b \<longrightarrow> disk w' q = disk w q)"
proof -
  obtain dest w1 n h d where dest: "path_for base key = Inr dest" and w1: "disk w1 = disk w"
    and body: "catchE (bindE (open_write F dest) (\<lambda>_. finallyE (receive F dest mb cs 0 [] []) (close_write F dest)))
        (\<lambda>e. bindE (unlink F dest) (\<lambda>_. raiseE e)) w1 = (Inr (n, h, d), w')"
    and b: "b = \<lparr>sb_key = key, sb_path = dest, sb_size = n, sb_sha256 = sha d, sb_head = h\<rparr>"
    using put_stream_cases [OF assms] by (auto simp: map_sum_iff)
  have "bindE (open_write F dest) (\<lambda>_. finallyE (receive F dest mb cs 0 [] []) (close_write F dest)) w1 = (Inr (n, h, d), w')"
    using body by (auto simp: catchE_def bindE_def raiseE_def split: prod.splits sum.splits)
  then obtain w2 where op: "open_write F dest w1 = (Inr (), w2)"
    and fin: "finallyE (receive F dest mb cs 0 [] []) (close_write F dest) w2 = (Inr (n, h, d), w')"
    by (auto simp: bindE_Inr_iff)
  obtain w3 where rec: "receive F dest mb cs 0 [] [] w2 = (Inr (n, h, d), w3)"
    and close: "close_write F dest w3 = (Inr (), w')"
    using fin by (auto simp: finallyE_def split: prod.splits sum.splits)
  obtain f where f: "disk w2 dest = Some f" "content f = []" using opened [OF op] by auto
  from receive_InrD [OF rec f] have r: "d = chunk_bytes cs" "n = int (length d)" "h = take HEAD_BYTES d"
    "\<exists>f'. disk w3 dest = Some f' \<and> content f' = d" "\<forall>m. mb = Some m \<and> cs \<noteq> [] \<longrightarrow> n \<le> m" by auto
  have "disk w' = disk w3" by (rule touches_nothingD [OF touches(4) close])
  moreover have "\<forall>q. q \<noteq> dest \<longrightarrow> disk w' q = disk w q"
    using put_stream_body_touches [of dest mb cs] body w1 unfolding touches_only_def
    by (metis singletonD snd_conv)
  ultimately show ?thesis using r dest b by simp
qed

lemma put_stream_InlD:
  assumes "put_stream F sha base key cs mb w = (Inl e, w')" and "\<And>p w. fst (unlink F p w) = Inr ()"
  shows "disk w' = disk w \<or> (\<exists>dest. path_for base key = Inr dest \<and> disk w' = (disk w)(dest := None))"
proof -
  consider "disk w' = disk w" | dest w1 r1 where "path_for base key = Inr dest" "disk w1 = disk w"
    "catchE (bindE (open_write F dest) (\<lambda>_. finallyE (receive F dest mb cs 0 [] []) (close_write F dest)))
        (\<lambda>e. bindE (unlink F dest) (\<lambda>_. raiseE e)) w1 = (Inl r1, w')"
    using put_stream_cases [OF assms(1)] by (auto simp: map_sum_iff)
  then show ?thesis
  proof cases
    case 2
    then obtain e2 w2 where "bindE (unlink F dest) (\<lambda>_. raiseE e2 :: ('w, int \<times> byte list \<times> byte list) prog) w2 = (Inl r1, w')"
      by (auto simp: catchE_def split: prod.splits sum.splits)
    then have "unlink F dest w2 = (Inr (), w')"
      using assms(2) [of dest w2] by (auto simp: bindE_def raiseE_def split: prod.splits sum.splits)
    then have "disk w' dest = None" by (rule unlinked)
    moreover have "disk w' q = disk w q" if "q \<noteq> dest" for q
      using put_stream_body_touches [of dest mb cs] 2 that unfolding touches_only_def
      by (metis singletonD snd_conv)
    ultimately have "disk w' = (disk w)(dest := None)" by auto
    then show ?thesis using 2(1) by blast
  qed simp
qed

end

section \<open>A file system in memory\<close>

record mem_world = memory_db +
  mem_disk :: "(pystr \<times> stored_file) list"

definition disk_of :: "'z mem_world_scheme \<Rightarrow> table" where
  "disk_of w = map_of (mem_disk w)"

definition put_file :: "pystr \<Rightarrow> byte list \<Rightarrow> 'z mem_world_scheme \<Rightarrow> 'z mem_world_scheme" where
  "put_file p c w = w\<lparr>mem_disk := AList.update p \<lparr>content = c, mtime = of_nat (clock w)\<rparr> (mem_disk w)\<rparr>"

definition below :: "pystr \<Rightarrow> pystr \<Rightarrow> bool" where
  "below d p \<longleftrightarrow> prefix (d @ lit ''/'') p"

definition with_file :: "pystr \<Rightarrow> (stored_file \<Rightarrow> ('z mem_world_scheme, 'a) prog) \<Rightarrow> ('z mem_world_scheme, 'a) prog" where
  "with_file p k = bindE (getE (\<lambda>w. disk_of w p)) (\<lambda>f. case f of None \<Rightarrow> raiseE (OSError p) | Some f \<Rightarrow> k f)"

definition mem_files :: "'z mem_world_scheme files" where
  "mem_files = \<lparr>make_dir = (\<lambda>p. retE ()), open_write = (\<lambda>p. modE (put_file p [])),
     write_chunk = (\<lambda>p c. with_file p (\<lambda>f. modE (put_file p (content f @ c)))),
     close_write = (\<lambda>p. retE ()), write_bytes = (\<lambda>p c. modE (put_file p c)),
     unlink = (\<lambda>p. modE (\<lambda>w. w\<lparr>mem_disk := AList.delete p (mem_disk w)\<rparr>)),
     file_exists = (\<lambda>p. getE (\<lambda>w. disk_of w p \<noteq> None)), is_file = (\<lambda>p. getE (\<lambda>w. disk_of w p \<noteq> None)),
     read_bytes = (\<lambda>p. with_file p (\<lambda>f. retE (content f))),
     rglob = (\<lambda>d. getE (\<lambda>w. filter (below d) (remdups (List.map fst (mem_disk w))))),
     stat = (\<lambda>p. with_file p (\<lambda>f. retE (length (content f), mtime f))),
     time_now = getE (\<lambda>w. of_nat (clock w))\<rparr>"

lemma disk_of_simps [simp]:
  "disk_of (put_file p c w) = (disk_of w)(p \<mapsto> \<lparr>content = c, mtime = of_nat (clock w)\<rparr>)"
  "disk_of (w\<lparr>mem_disk := AList.delete p (mem_disk w)\<rparr>) = (disk_of w)(p := None)"
  by (simp_all add: disk_of_def put_file_def update_conv' delete_conv')

interpretation mem_store: file_store disk_of mem_files
  by unfold_locales
    (auto simp: mem_files_def touches_only_def prog_defs with_file_def split: option.splits if_splits)

section \<open>Properties\<close>

text \<open>
  C30. A stored upload is what was sent. When \<open>put_stream\<close> returns, the file at the blob's path holds
  exactly the received bytes, and the blob's size, hash and head are those of these bytes; the
  size is within the limit; no other file has changed. So the type gate, which reads the head,
  decides on the content.
\<close>

theorem stored_blob_faithful:
  assumes "file_store disk F" and "put_stream F sha base key cs mb w = (Inr b, w')"
  shows "path_for base key = Inr (sb_path b) \<and> sb_key b = key \<and>
    (\<exists>f. disk w' (sb_path b) = Some f \<and> content f = chunk_bytes cs) \<and>
    sb_size b = int (length (chunk_bytes cs)) \<and> (\<forall>m. mb = Some m \<and> cs \<noteq> [] \<longrightarrow> sb_size b \<le> m) \<and>
    sb_head b = take HEAD_BYTES (chunk_bytes cs) \<and> sb_sha256 b = sha (chunk_bytes cs) \<and>
    (\<forall>q. q \<noteq> sb_path b \<longrightarrow> disk w' q = disk w q)"
  by (rule file_store.put_stream_InrD [OF assms])

definition empty_world :: mem_world where
  "empty_world = \<lparr>db = \<lparr>s_hash = (\<lambda>k. []), s_value = (\<lambda>k. None), s_stream = (\<lambda>k. []), s_cursor = (\<lambda>k. (0, 0)),
     s_pend = (\<lambda>k. {})\<rparr>, faults = [], clock = 5, mem_disk = []\<rparr>"

lemma stored_blob_faithful_witness:
  "\<exists>b w'. put_stream mem_files (\<lambda>d. show_nat (length d)) (lit ''up'') (lit ''j.pdf'') [Inr [37, 80], Inr [68]] (Some 3) empty_world
     = (Inr b, w') \<and> sb_size b = 3 \<and> sb_head b = [37, 80, 68]"
proof -
  obtain b w' where run: "put_stream mem_files (\<lambda>d. show_nat (length d)) (lit ''up'') (lit ''j.pdf'')
      [Inr [37, 80], Inr [68]] (Some 3) empty_world = (Inr b, w')"
    by (simp add: put_stream_def path_for_def mem_files_def with_file_def prog_defs Let_def startswith_def
        empty_world_def HEAD_BYTES_def py_simps)
  from stored_blob_faithful [OF mem_store.file_store_axioms run] run show ?thesis
    by (simp add: HEAD_BYTES_def)
qed

text \<open>
  A failed upload leaves nothing behind. If \<open>put_stream\<close> raises, whether the client broke off,
  the upload was too large or the disk failed, the table of files is as before, except that the
  file the blob would have had is gone, provided that removing a file works.
\<close>

theorem failed_upload_leaves_nothing:
  assumes "file_store disk F" and "put_stream F sha base key cs mb w = (Inl e, w')"
    and "\<And>p w. fst (unlink F p w) = Inr ()"
  shows "disk w' = disk w \<or> (\<exists>dest. path_for base key = Inr dest \<and> disk w' = (disk w)(dest := None))"
  by (rule file_store.put_stream_InlD [OF assms])

lemma failed_upload_leaves_nothing_witness:
  "\<exists>w'. put_stream mem_files (\<lambda>d. []) (lit ''up'') (lit ''j.pdf'') [Inr [37, 80], Inr [68]] (Some 2) empty_world
     = (Inl (UploadTooLarge 2), w') \<and> disk_of w' = (\<lambda>p. None)"
proof -
  obtain w' where run: "put_stream mem_files (\<lambda>d. []) (lit ''up'') (lit ''j.pdf'') [Inr [37, 80], Inr [68]] (Some 2) empty_world
     = (Inl (UploadTooLarge 2), w')"
    by (simp add: put_stream_def path_for_def mem_files_def with_file_def prog_defs Let_def startswith_def
        empty_world_def HEAD_BYTES_def py_simps)
  have "disk_of empty_world = (\<lambda>p. None)" by (simp add: disk_of_def empty_world_def)
  with failed_upload_leaves_nothing [OF mem_store.file_store_axioms run] run show ?thesis
    by (auto simp: mem_files_def prog_defs)
qed

text \<open>
  No key leaves the store. The path of an accepted key, with \<open>.\<close> and \<open>..\<close> resolved, lies below the
  resolved base directory.
\<close>

theorem blob_paths_stay_inside:
  assumes "path_for base key = Inr p"
  shows "\<exists>rest. resolve [] (split_on 47 p) = resolve [] (split_on 47 base) @ rest"
  by (rule path_for_inside [OF assms])

lemma blob_paths_stay_inside_witness:
  "path_for (lit ''s'') (lit ''a/b'') = Inr (lit ''s/a/b'') \<and>
   (\<exists>rest. resolve [] (split_on 47 (lit ''s/a/b'')) = resolve [] (split_on 47 (lit ''s'')) @ rest)"
proof -
  have p: "path_for (lit ''s'') (lit ''a/b'') = Inr (lit ''s/a/b'')"
    by (simp add: path_for_def slash_def startswith_def py_simps)
  from p blob_paths_stay_inside [OF p] show ?thesis by blast
qed

end
