(* ===== verification/Retention.thy ===== *)
theory Retention
  imports Storage
begin

text \<open>
  \<open>common/retention.py\<close>: the sweep of the three directories. \<open>file_tree\<close> is a file system that answers:
  a listing names the files below the directory, \<open>stat\<close> succeeds on a file that is there, and the
  clock reads \<open>now\<close> throughout the sweep. There the sweep removes exactly the old files of the three
  directories and accounts for them exactly. Where a file vanishes under the sweep it stops.
\<close>

record sweep_result =
  removed :: "(string \<times> int) list"
  freed_bytes :: int
  remaining_bytes :: int

definition total_removed :: "sweep_result \<Rightarrow> int" where
  "total_removed r = sum_list (List.map snd (removed r))"

fun sweep_loop :: "'w files \<Rightarrow> int \<Rightarrow> (string \<times> pystr) list \<Rightarrow> sweep_result \<Rightarrow> ('w, sweep_result) prog" where
  \<comment> \<open>\<open>LocalBlobStore(directory)\<close> makes the directory; only \<open>purge_older_than\<close> is inside the \<open>try\<close>\<close>
  "sweep_loop F days [] r = retE r"
| "sweep_loop F days ((kind, d) # rest) r =
     bindE (make_dir F d) (\<lambda>_.
     bindE (usage_bytes F d) (\<lambda>before.
     bindE (catchE (bindE (purge_older_than F d days) (\<lambda>n. retE (Some n)))
              (\<lambda>e. case e of OSError m \<Rightarrow> retE None | _ \<Rightarrow> raiseE e)) (\<lambda>n.
       case n of None \<Rightarrow> sweep_loop F days rest r
       | Some n \<Rightarrow> bindE (usage_bytes F d) (\<lambda>after.
           sweep_loop F days rest \<lparr>removed = AList.update kind n (removed r),
             freed_bytes = freed_bytes r + max (before - after) 0,
             remaining_bytes = remaining_bytes r + after\<rparr>))))"

definition sweep_dirs :: "settings \<Rightarrow> (string \<times> pystr) list" where
  "sweep_dirs S = [(''uploads'', uploads_dir S), (''results'', results_dir S), (''artifacts'', artifacts_dir S)]"

definition sweep :: "'w files \<Rightarrow> settings \<Rightarrow> int option \<Rightarrow> ('w, sweep_result) prog" where
  "sweep F S days =
     (let days = (case days of None \<Rightarrow> result_ttl_days S | Some d \<Rightarrow> d);
          result = \<lparr>removed = [], freed_bytes = 0, remaining_bytes = 0\<rparr>
      in if days \<le> 0 then retE result else sweep_loop F days (sweep_dirs S) result)"

section \<open>A file system that answers\<close>

locale file_tree = file_store disk F for disk :: "'w \<Rightarrow> table" and F :: "'w files" +
  fixes now :: rat
  assumes make_ok: "\<exists>w'. make_dir F p w = (Inr (), w')"
    and file_ok: "\<exists>w'. is_file F p w = (Inr (disk w p \<noteq> None), w')"
    and stat_ok: "disk w p = Some f \<Longrightarrow> \<exists>w'. stat F p w = (Inr (length (content f), mtime f), w')"
    and unlink_ok: "\<exists>w'. unlink F p w = (Inr (), w')"
    and clock_ok: "\<exists>w'. time_now F w = (Inr now, w')"
    and rglob_ok: "\<exists>ps w'. rglob F d w = (Inr ps, w') \<and> distinct ps \<and>
      {p \<in> set ps. disk w p \<noteq> None} = {p. disk w p \<noteq> None \<and> below d p}"

definition old :: "rat \<Rightarrow> table \<Rightarrow> pystr \<Rightarrow> bool" where
  "old cutoff D p \<longleftrightarrow> (\<exists>f. D p = Some f \<and> mtime f < cutoff)"

definition file_bytes :: "table \<Rightarrow> pystr \<Rightarrow> int" where
  "file_bytes D p = (case D p of None \<Rightarrow> 0 | Some f \<Rightarrow> int (length (content f)))"

definition files_in :: "table \<Rightarrow> pystr \<Rightarrow> pystr set" where
  "files_in D d = {p. D p \<noteq> None \<and> below d p}"

definition without_old :: "rat \<Rightarrow> pystr \<Rightarrow> table \<Rightarrow> table" where
  "without_old cutoff d D = (\<lambda>p. if below d p \<and> old cutoff D p then None else D p)"

context file_tree
begin

lemma unlinkD: "\<exists>w'. unlink F p w = (Inr (), w') \<and> disk w' = (disk w)(p := None)"
proof -
  obtain w' where w': "unlink F p w = (Inr (), w')" using unlink_ok by blast
  have "disk w' q = disk w q" if "q \<noteq> p" for q
    using touches(6) [of p] w' that unfolding touches_only_def by (metis singletonD snd_conv)
  with unlinked [OF w'] have "disk w' = (disk w)(p := None)" by auto
  with w' show ?thesis by blast
qed

lemma is_fileD: "\<exists>w'. is_file F p w = (Inr (disk w p \<noteq> None), w') \<and> disk w' = disk w"
  using file_ok [of p w] touches_nothingD [OF touches(8)] by blast

lemma statD: "disk w p = Some f \<Longrightarrow> \<exists>w'. stat F p w = (Inr (length (content f), mtime f), w') \<and> disk w' = disk w"
  using stat_ok [of w p f] touches_nothingD [OF touches(11)] by blast

lemma purge_loop_exact:
  "distinct ps \<Longrightarrow> \<exists>w'. purge_loop F cutoff ps n w = (Inr (n + int (card {p \<in> set ps. old cutoff (disk w) p})), w') \<and>
     disk w' = (\<lambda>p. if p \<in> set ps \<and> old cutoff (disk w) p then None else disk w p)"
proof (induction ps arbitrary: n w)
  case (Cons p ps)
  obtain w1 where w1: "is_file F p w = (Inr (disk w p \<noteq> None), w1)" "disk w1 = disk w" using is_fileD by blast
  show ?case
  proof (cases "disk w p")
    case None
    then have "{q \<in> set (p # ps). old cutoff (disk w) q} = {q \<in> set ps. old cutoff (disk w) q}"
      by (auto simp: old_def)
    with None w1 Cons.IH [of n w1] Cons.prems show ?thesis
      by (auto simp: bindE_def old_def fun_eq_iff)
  next
    case (Some f)
    obtain w2 where w2: "stat F p w1 = (Inr (length (content f), mtime f), w2)" "disk w2 = disk w"
      using statD [of w1 p f] Some w1(2) by auto
    show ?thesis
    proof (cases "mtime f < cutoff")
      case True
      obtain w3 where w3: "unlink F p w2 = (Inr (), w3)" "disk w3 = (disk w)(p := None)"
        using unlinkD [of p w2] w2(2) by auto
      have same: "{q \<in> set ps. old cutoff (disk w3) q} = {q \<in> set ps. old cutoff (disk w) q}"
        using Cons.prems by (auto simp: w3 old_def)
      have new: "{q \<in> set (p # ps). old cutoff (disk w) q} = insert p {q \<in> set ps. old cutoff (disk w) q}"
        using Some True by (auto simp: old_def)
      have "card {q \<in> set (p # ps). old cutoff (disk w) q} = Suc (card {q \<in> set ps. old cutoff (disk w) q})"
        unfolding new using Cons.prems by (subst card_insert_disjoint) auto
      moreover obtain w' where "purge_loop F cutoff ps (n + 1) w3 =
          (Inr (n + 1 + int (card {q \<in> set ps. old cutoff (disk w) q})), w')"
        "disk w' = (\<lambda>q. if q \<in> set ps \<and> old cutoff (disk w3) q then None else disk w3 q)"
        using Cons.IH [of "n + 1" w3] Cons.prems same by auto
      ultimately show ?thesis
        using w1 w2 w3 Some True by (auto simp: bindE_def old_def fun_eq_iff)
    next
      case False
      then have "{q \<in> set (p # ps). old cutoff (disk w) q} = {q \<in> set ps. old cutoff (disk w) q}"
        using Some by (auto simp: old_def)
      then show ?thesis
        using w1 w2 Some False Cons.IH [of n w2] Cons.prems by (auto simp: bindE_def old_def fun_eq_iff)
    qed
  qed
qed (simp add: retE_def)

lemma usage_loop_exact:
  "distinct ps \<Longrightarrow> \<exists>w'. usage_loop F ps w = (Inr (sum (file_bytes (disk w)) {p \<in> set ps. disk w p \<noteq> None}), w') \<and>
     disk w' = disk w"
proof (induction ps arbitrary: w)
  case (Cons p ps)
  obtain w1 where w1: "is_file F p w = (Inr (disk w p \<noteq> None), w1)" "disk w1 = disk w" using is_fileD by blast
  show ?case
  proof (cases "disk w p")
    case None
    then have "{q \<in> set (p # ps). disk w q \<noteq> None} = {q \<in> set ps. disk w q \<noteq> None}" by auto
    with None w1 Cons.IH [of w1] Cons.prems show ?thesis by (auto simp: bindE_def)
  next
    case (Some f)
    obtain w2 where w2: "stat F p w1 = (Inr (length (content f), mtime f), w2)" "disk w2 = disk w"
      using statD [of w1 p f] Some w1(2) by auto
    have "{q \<in> set (p # ps). disk w q \<noteq> None} = insert p {q \<in> set ps. disk w q \<noteq> None}" using Some by auto
    moreover have "p \<notin> {q \<in> set ps. disk w q \<noteq> None}" using Cons.prems by simp
    ultimately have "sum (file_bytes (disk w)) {q \<in> set (p # ps). disk w q \<noteq> None} =
        int (length (content f)) + sum (file_bytes (disk w)) {q \<in> set ps. disk w q \<noteq> None}"
      by (simp add: file_bytes_def Some)
    then show ?thesis
      using w1 w2 Some Cons.IH [of w2] Cons.prems by (auto simp: bindE_def retE_def)
  qed
qed (simp add: retE_def)

lemma listed:
  "\<exists>ps w'. rglob F d w = (Inr ps, w') \<and> distinct ps \<and> {p \<in> set ps. disk w p \<noteq> None} = files_in (disk w) d \<and> disk w' = disk w"
  using rglob_ok [of d w] touches_nothingD [OF touches(10)] unfolding files_in_def by blast

lemma usage_exact:
  "\<exists>w'. usage_bytes F d w = (Inr (sum (file_bytes (disk w)) (files_in (disk w) d)), w') \<and> disk w' = disk w"
proof -
  obtain ps w1 where "rglob F d w = (Inr ps, w1)" "distinct ps" "{p \<in> set ps. disk w p \<noteq> None} = files_in (disk w) d"
    "disk w1 = disk w" using listed by blast
  then show ?thesis using usage_loop_exact [of ps w1] by (auto simp: usage_bytes_def bindE_def)
qed

lemma purge_exact:
  "\<exists>w'. purge_older_than F d days w =
     (Inr (int (card {p \<in> files_in (disk w) d. old (now - of_int (days * 86400)) (disk w) p})), w') \<and>
     disk w' = without_old (now - of_int (days * 86400)) d (disk w)"
proof -
  let ?c = "now - of_int (days * 86400)"
  obtain w0 where w0: "time_now F w = (Inr now, w0)" "disk w0 = disk w"
    using clock_ok [of w] touches_nothingD [OF touches(12)] by blast
  obtain ps w1 where ps: "rglob F d w0 = (Inr ps, w1)" "distinct ps"
    "{p \<in> set ps. disk w p \<noteq> None} = files_in (disk w) d" "disk w1 = disk w"
    using listed [of d w0] w0(2) by auto
  have is_old: "p \<in> set ps \<and> old ?c (disk w) p \<longleftrightarrow> p \<in> files_in (disk w) d \<and> old ?c (disk w) p" for p
    using ps(3) by (auto simp: old_def)
  then have "{p \<in> set ps. old ?c (disk w) p} = {p \<in> files_in (disk w) d. old ?c (disk w) p}" by blast
  moreover have "(\<lambda>p. if p \<in> set ps \<and> old ?c (disk w) p then None else disk w p) = without_old ?c d (disk w)"
    unfolding is_old by (auto simp: without_old_def files_in_def old_def fun_eq_iff)
  ultimately show ?thesis
    using w0 ps purge_loop_exact [OF ps(2), of ?c 0 w1, unfolded ps(4)] by (auto simp: purge_older_than_def bindE_def)
qed

lemma finite_files: "finite (files_in (disk w) d)"
proof -
  obtain ps where "{p \<in> set ps. disk w p \<noteq> None} = files_in (disk w) d" using listed [of d w] by blast
  moreover have "finite {p \<in> set ps. disk w p \<noteq> None}" by simp
  ultimately show ?thesis by simp
qed

end

definition swept :: "(string \<times> pystr) list \<Rightarrow> pystr \<Rightarrow> bool" where
  "swept ds p \<longleftrightarrow> (\<exists>(k, d)\<in>set ds. below d p)"

definition without_all_old :: "rat \<Rightarrow> (string \<times> pystr) list \<Rightarrow> table \<Rightarrow> table" where
  "without_all_old cutoff ds D = (\<lambda>p. if swept ds p \<and> old cutoff D p then None else D p)"

definition old_in :: "rat \<Rightarrow> table \<Rightarrow> (pystr \<Rightarrow> bool) \<Rightarrow> pystr set" where
  "old_in cutoff D P = {p. P p \<and> old cutoff D p}"

definition kept_in :: "rat \<Rightarrow> table \<Rightarrow> (pystr \<Rightarrow> bool) \<Rightarrow> pystr set" where
  "kept_in cutoff D P = {p. P p \<and> D p \<noteq> None \<and> \<not> old cutoff D p}"

lemma files_in_split: "files_in D d = old_in c D (below d) \<union> kept_in c D (below d)"
  "old_in c D (below d) \<inter> kept_in c D (below d) = {}"
  by (auto simp: files_in_def old_in_def kept_in_def old_def)

lemma without_all_old_Cons: "without_all_old c ds (without_old c d D) = without_all_old c ((k, d) # ds) D"
proof (rule ext)
  fix p
  have "old c (without_old c d D) p \<longleftrightarrow> old c D p \<and> \<not> below d p"
    by (auto simp: old_def without_old_def)
  then show "without_all_old c ds (without_old c d D) p = without_all_old c ((k, d) # ds) D p"
    by (simp add: without_all_old_def swept_def) (simp add: without_old_def)
qed

lemma total_removed_update:
  "k \<notin> fst ` set rs \<Longrightarrow> sum_list (List.map snd (AList.update k n rs)) = sum_list (List.map snd rs) + (n :: int)"
  by (induction rs) auto

lemma set_kinds_update: "fst ` set (AList.update k n rs) = insert k (fst ` set rs)"
  using dom_update [of k n rs] by (simp add: dom_map_of_conv_image_fst)

context file_tree
begin

abbreviation "horizon days \<equiv> now - of_int (days * 86400)"

lemma dir_pass:
  "\<exists>w1 w2 w3 w4. make_dir F d w = (Inr (), w1) \<and>
     usage_bytes F d w1 = (Inr (sum (file_bytes (disk w)) (files_in (disk w) d)), w2) \<and>
     purge_older_than F d days w2 = (Inr (int (card (old_in (horizon days) (disk w) (below d)))), w3) \<and>
     usage_bytes F d w3 = (Inr (sum (file_bytes (disk w)) (kept_in (horizon days) (disk w) (below d))), w4) \<and>
     disk w4 = without_old (horizon days) d (disk w)"
proof -
  let ?D' = "without_old (horizon days) d (disk w)"
  obtain w1 where mk: "make_dir F d w = (Inr (), w1)" using make_ok by blast
  note w1 = mk touches_nothingD [OF touches(1) mk]
  obtain w2 where w2: "usage_bytes F d w1 = (Inr (sum (file_bytes (disk w)) (files_in (disk w) d)), w2)" "disk w2 = disk w"
    using usage_exact [of d w1] w1(2) by auto
  obtain w3 where w3: "purge_older_than F d days w2 =
      (Inr (int (card {p \<in> files_in (disk w) d. old (horizon days) (disk w) p})), w3)" "disk w3 = ?D'"
    using purge_exact [of d days w2] w2(2) by auto
  obtain w4 where w4: "usage_bytes F d w3 = (Inr (sum (file_bytes ?D') (files_in ?D' d)), w4)" "disk w4 = ?D'"
    using usage_exact [of d w3] w3(2) by auto
  have olds: "{p \<in> files_in (disk w) d. old (horizon days) (disk w) p} = old_in (horizon days) (disk w) (below d)"
    by (auto simp: files_in_def old_in_def old_def)
  have kept: "files_in ?D' d = kept_in (horizon days) (disk w) (below d)"
    by (auto simp: files_in_def kept_in_def without_old_def split: if_splits)
  have "sum (file_bytes ?D') (files_in ?D' d) = sum (file_bytes (disk w)) (kept_in (horizon days) (disk w) (below d))"
    unfolding kept by (rule sum.cong) (auto simp: kept_in_def file_bytes_def without_old_def)
  with w1(1) w2(1) w3(1) w4 show ?thesis unfolding olds by metis
qed

lemma sweep_loop_exact:
  assumes "distinct (List.map fst ds)" "fst ` set ds \<inter> fst ` set (removed r) = {}"
    and "pairwise (\<lambda>a b. \<forall>p. \<not> (below (snd a) p \<and> below (snd b) p)) (set ds)"
  shows "\<exists>r' w'. sweep_loop F days ds r w = (Inr r', w') \<and>
     disk w' = without_all_old (horizon days) ds (disk w) \<and>
     total_removed r' = total_removed r + int (card (old_in (horizon days) (disk w) (swept ds))) \<and>
     freed_bytes r' = freed_bytes r + sum (file_bytes (disk w)) (old_in (horizon days) (disk w) (swept ds)) \<and>
     remaining_bytes r' = remaining_bytes r + sum (file_bytes (disk w)) (kept_in (horizon days) (disk w) (swept ds)) \<and>
     finite (old_in (horizon days) (disk w) (swept ds)) \<and> finite (kept_in (horizon days) (disk w) (swept ds))"
  using assms
proof (induction ds arbitrary: r w)
  case Nil
  then show ?case
    by (auto simp: retE_def swept_def old_in_def kept_in_def without_all_old_def)
next
  case (Cons kd ds)
  obtain k d where kd: "kd = (k, d)" by fastforce
  let ?c = "horizon days" and ?D = "disk w"
  obtain w1 w2 w3 w4 where pass: "make_dir F d w = (Inr (), w1)"
     "usage_bytes F d w1 = (Inr (sum (file_bytes ?D) (files_in ?D d)), w2)"
     "purge_older_than F d days w2 = (Inr (int (card (old_in ?c ?D (below d)))), w3)"
     "usage_bytes F d w3 = (Inr (sum (file_bytes ?D) (kept_in ?c ?D (below d))), w4)"
     "disk w4 = without_old ?c d ?D"
    using dir_pass by blast
  define r1 where "r1 = \<lparr>removed = AList.update k (int (card (old_in ?c ?D (below d)))) (removed r),
     freed_bytes = freed_bytes r + max (sum (file_bytes ?D) (files_in ?D d) - sum (file_bytes ?D) (kept_in ?c ?D (below d))) 0,
     remaining_bytes = remaining_bytes r + sum (file_bytes ?D) (kept_in ?c ?D (below d))\<rparr>"
  have step: "sweep_loop F days (kd # ds) r w = sweep_loop F days ds r1 w4"
    using pass by (simp add: kd bindE_def catchE_def retE_def r1_def)
  have fin: "finite (old_in ?c ?D (below d))" "finite (kept_in ?c ?D (below d))"
    using finite_files [of w d] files_in_split(1) [of ?D d ?c] by simp_all
  have bytes: "sum (file_bytes ?D) (files_in ?D d) =
      sum (file_bytes ?D) (old_in ?c ?D (below d)) + sum (file_bytes ?D) (kept_in ?c ?D (below d))"
    unfolding files_in_split(1) [of ?D d ?c] by (rule sum.union_disjoint [OF fin files_in_split(2)])
  have "0 \<le> sum (file_bytes ?D) (old_in ?c ?D (below d))"
    by (rule sum_nonneg) (simp add: file_bytes_def split: option.split)
  then have freed: "freed_bytes r1 = freed_bytes r + sum (file_bytes ?D) (old_in ?c ?D (below d))"
    by (simp add: r1_def bytes)
  have kr: "k \<notin> fst ` set (removed r)" using Cons.prems(2) kd by auto
  have tot: "total_removed r1 = total_removed r + int (card (old_in ?c ?D (below d)))"
    by (simp add: total_removed_def r1_def total_removed_update [OF kr])
  have pre: "distinct (List.map fst ds)" "fst ` set ds \<inter> fst ` set (removed r1) = {}"
    "pairwise (\<lambda>a b. \<forall>p. \<not> (below (snd a) p \<and> below (snd b) p)) (set ds)"
    using Cons.prems kd by (auto simp: r1_def set_kinds_update pairwise_insert)
  have apart: "\<not> (below d p \<and> swept ds p)" for p
    using Cons.prems(1,3) kd by (auto simp: swept_def pairwise_def) (metis fst_conv image_eqI snd_conv)
  have D4: "old_in ?c (disk w4) (swept ds) = old_in ?c ?D (swept ds)" "kept_in ?c (disk w4) (swept ds) = kept_in ?c ?D (swept ds)"
    "p \<in> old_in ?c ?D (swept ds) \<union> kept_in ?c ?D (swept ds) \<Longrightarrow> file_bytes (disk w4) p = file_bytes ?D p" for p
    using apart by (auto simp: pass(5) old_in_def kept_in_def without_old_def old_def file_bytes_def)
  obtain r' w' where IH: "sweep_loop F days ds r1 w4 = (Inr r', w')"
     "disk w' = without_all_old ?c ds (disk w4)"
     "total_removed r' = total_removed r1 + int (card (old_in ?c ?D (swept ds)))"
     "freed_bytes r' = freed_bytes r1 + sum (file_bytes (disk w4)) (old_in ?c ?D (swept ds))"
     "remaining_bytes r' = remaining_bytes r1 + sum (file_bytes (disk w4)) (kept_in ?c ?D (swept ds))"
     "finite (old_in ?c ?D (swept ds))" "finite (kept_in ?c ?D (swept ds))"
    using Cons.IH [OF pre, of w4] unfolding D4(1,2) by blast
  have un: "old_in ?c ?D (swept (kd # ds)) = old_in ?c ?D (below d) \<union> old_in ?c ?D (swept ds)"
    "kept_in ?c ?D (swept (kd # ds)) = kept_in ?c ?D (below d) \<union> kept_in ?c ?D (swept ds)"
    by (auto simp: kd old_in_def kept_in_def swept_def)
  have dj: "old_in ?c ?D (below d) \<inter> old_in ?c ?D (swept ds) = {}" "kept_in ?c ?D (below d) \<inter> kept_in ?c ?D (swept ds) = {}"
    using apart by (auto simp: old_in_def kept_in_def)
  have sums: "sum (file_bytes (disk w4)) (old_in ?c ?D (swept ds)) = sum (file_bytes ?D) (old_in ?c ?D (swept ds))"
    "sum (file_bytes (disk w4)) (kept_in ?c ?D (swept ds)) = sum (file_bytes ?D) (kept_in ?c ?D (swept ds))"
    using D4(3) by (auto intro: sum.cong)
  have disk: "disk w' = without_all_old ?c (kd # ds) ?D"
    unfolding IH(2) pass(5) kd by (rule without_all_old_Cons)
  have rem: "remaining_bytes r1 = remaining_bytes r + sum (file_bytes ?D) (kept_in ?c ?D (below d))"
    by (simp add: r1_def)
  note un_card = card_Un_disjoint [OF fin(1) IH(6) dj(1), folded un(1)]
  note un_old = sum.union_disjoint [OF fin(1) IH(6) dj(1), of "file_bytes ?D", folded un(1)]
  note un_kept = sum.union_disjoint [OF fin(2) IH(7) dj(2), of "file_bytes ?D", folded un(2)]
  have "finite (old_in ?c ?D (swept (kd # ds)))" "finite (kept_in ?c ?D (swept (kd # ds)))"
    unfolding un using fin IH(6,7) by simp_all
  moreover have "total_removed r' = total_removed r + int (card (old_in ?c ?D (swept (kd # ds))))"
    by (simp only: IH(3) tot un_card of_nat_add add.assoc)
  moreover have "freed_bytes r' = freed_bytes r + sum (file_bytes ?D) (old_in ?c ?D (swept (kd # ds)))"
    by (simp only: IH(4) freed un_old sums add.assoc)
  moreover have "remaining_bytes r' = remaining_bytes r + sum (file_bytes ?D) (kept_in ?c ?D (swept (kd # ds)))"
    by (simp only: IH(5) rem un_kept sums add.assoc)
  ultimately show ?case
    using IH(1) disk unfolding step by blast
qed

end

section \<open>The instance in memory\<close>

definition frozen_files :: "rat \<Rightarrow> 'z mem_world_scheme files" where
  "frozen_files now = mem_files\<lparr>time_now := retE now\<rparr>"

interpretation frozen_tree: file_tree disk_of "frozen_files now" now
  by unfold_locales
    (auto simp: frozen_files_def mem_files_def touches_only_def prog_defs with_file_def disk_of_def put_file_def
      update_conv' delete_conv' dom_map_of_conv_image_fst split: option.splits if_splits
      dest: map_of_SomeD intro: rev_image_eqI)

section \<open>Properties\<close>

lemma sweep_dirs_apart: "pairwise (\<lambda>a b. \<forall>p. \<not> (below (snd a) p \<and> below (snd b) p)) (set (sweep_dirs S))"
  by (auto simp: sweep_dirs_def pairwise_insert below_def uploads_dir_def results_dir_def artifacts_dir_def slash_def
      prefix_def py_simps)

text \<open>
  C36. The sweep is exact. On a file system that answers, for a positive number of days: the files of
  the three directories whose mtime lies before the cutoff are gone and every other file is
  untouched; \<open>total_removed\<close> is the number of files removed, \<open>freed_bytes\<close> their total size and
  \<open>remaining_bytes\<close> the total size of the files the three directories still hold.
\<close>

theorem sweep_exact:
  assumes "file_tree disk F now" and "0 < days"
  defines "cutoff \<equiv> now - of_int (days * 86400)"
  shows "\<exists>r w'. sweep F S (Some days) w = (Inr r, w') \<and>
    disk w' = without_all_old cutoff (sweep_dirs S) (disk w) \<and>
    total_removed r = int (card (old_in cutoff (disk w) (swept (sweep_dirs S)))) \<and>
    freed_bytes r = sum (file_bytes (disk w)) (old_in cutoff (disk w) (swept (sweep_dirs S))) \<and>
    remaining_bytes r = sum (file_bytes (disk w)) (kept_in cutoff (disk w) (swept (sweep_dirs S)))"
proof -
  have "distinct (List.map fst (sweep_dirs S))" by (simp add: sweep_dirs_def)
  from file_tree.sweep_loop_exact [OF assms(1) this _ sweep_dirs_apart,
      of "\<lparr>removed = [], freed_bytes = 0, remaining_bytes = 0\<rparr>" days w]
  show ?thesis using assms(2) by (auto simp: sweep_def total_removed_def cutoff_def)
qed

definition dusty_world :: mem_world where
  "dusty_world = empty_world\<lparr>mem_disk := [(lit ''storage/uploads/a.pdf'', \<lparr>content = [1, 2], mtime = 0\<rparr>),
     (lit ''storage/results/a.json'', \<lparr>content = [3], mtime = 800000\<rparr>), (lit ''else'', \<lparr>content = [], mtime = 0\<rparr>)]\<rparr>"

lemma sweep_exact_witness:
  "\<exists>r w'. sweep (frozen_files 864000) default_settings (Some 7) dusty_world = (Inr r, w') \<and>
     disk_of w' (lit ''storage/uploads/a.pdf'') = None \<and> disk_of w' (lit ''else'') \<noteq> None"
proof -
  have "disk_of dusty_world (lit ''storage/uploads/a.pdf'') = Some \<lparr>content = [1, 2], mtime = 0\<rparr>"
    "disk_of dusty_world (lit ''else'') = Some \<lparr>content = [], mtime = 0\<rparr>"
    by (simp_all add: disk_of_def dusty_world_def)
  moreover have "swept (sweep_dirs default_settings) (lit ''storage/uploads/a.pdf'')"
    "\<not> swept (sweep_dirs default_settings) (lit ''else'')"
    by (simp_all add: swept_def sweep_dirs_def below_def uploads_dir_def results_dir_def artifacts_dir_def
        default_settings_def slash_def py_simps)
  ultimately show ?thesis
    using sweep_exact [OF frozen_tree.file_tree_axioms, where days = 7 and now = 864000
        and S = default_settings and w = dusty_world]
    by (fastforce simp: without_all_old_def old_def)
qed

text \<open>
  A file that vanishes stops the sweep. If the first listing of the uploads names a file that is
  still there when it is tested but gone when its size is asked for, so that \<open>stat\<close> raises, then
  the sweep raises as well and has removed nothing: the size of a directory is taken outside the
  \<open>try\<close> block that was to keep "a locked or vanished file" from stopping it.
\<close>

theorem vanished_file_stops_sweep:
  assumes "file_store disk F" and "0 < days"
    and "make_dir F (uploads_dir S) w = (Inr (), w1)" "rglob F (uploads_dir S) w1 = (Inr (p # ps), w2)"
    and "is_file F p w2 = (Inr True, w3)" "stat F p w3 = (Inl (OSError m), w4)"
  shows "sweep F S (Some days) w = (Inl (OSError m), w4) \<and> disk w4 = disk w"
proof -
  note T = file_store.touches [OF assms(1)] and D = file_store.touches_nothingD [OF assms(1)]
  have "sweep F S (Some days) w = (Inl (OSError m), w4)"
    using assms(2-) by (simp add: sweep_def sweep_dirs_def usage_bytes_def bindE_def Let_def)
  moreover have "disk w4 = disk w"
    using D [OF T(1) assms(3)] D [OF T(10) assms(4)] D [OF T(8) assms(5)] D [OF T(11) assms(6)] by simp
  ultimately show ?thesis ..
qed

definition racing_files :: "'z mem_world_scheme files" where
  \<comment> \<open>another sweep removes every file just before its \<open>stat\<close>\<close>
  "racing_files = mem_files\<lparr>stat := (\<lambda>p. raiseE (OSError p))\<rparr>"

interpretation racing_store: file_store disk_of racing_files
  by unfold_locales
    (auto simp: racing_files_def mem_files_def touches_only_def prog_defs with_file_def split: option.splits if_splits)

lemma vanished_file_stops_sweep_witness:
  "sweep racing_files default_settings (Some 7) dusty_world = (Inl (OSError (lit ''storage/uploads/a.pdf'')), dusty_world)"
proof -
  have u: "uploads_dir default_settings = lit ''storage/uploads''"
    by (simp add: uploads_dir_def default_settings_def slash_def py_simps)
  have "make_dir racing_files (uploads_dir default_settings) dusty_world = (Inr (), dusty_world)"
    "rglob racing_files (uploads_dir default_settings) dusty_world = (Inr [lit ''storage/uploads/a.pdf''], dusty_world)"
    "is_file racing_files (lit ''storage/uploads/a.pdf'') dusty_world = (Inr True, dusty_world)"
    "stat racing_files (lit ''storage/uploads/a.pdf'') dusty_world = (Inl (OSError (lit ''storage/uploads/a.pdf'')), dusty_world)"
    unfolding u
    by (simp_all add: racing_files_def mem_files_def prog_defs dusty_world_def disk_of_def below_def py_simps)
  from vanished_file_stops_sweep [OF racing_store.file_store_axioms _ this, of 7] show ?thesis by simp
qed

end
