(* ===== verification/Documents.thy ===== *)
theory Documents
  imports Storage Postprocess
begin

text \<open>
  \<open>workers/documents.py\<close>: opening a document, choosing the resolution, yielding the pages, and the
  page count the gateway charges the quota with. An open PDF is the record of what \<open>pymupdf\<close> answers
  about it (\<open>pdf_doc\<close>, \<open>pdf_page\<close>, whose methods may raise); \<open>pymupdf.open\<close> and \<open>close\<close> are programs. A
  generator is the list of what it yields, an exception last.
\<close>

section \<open>The library\<close>

record pixmap =
  px_png :: "byte list"
  px_width :: int
  px_height :: int

record pdf_page =
  rect_width :: rat
  rect_height :: rat
  image_widths :: "exn + int list"          \<comment> \<open>\<open>img[2]\<close> of \<open>get_images(full=True)\<close>\<close>
  page_text :: "exn + pystr"                \<comment> \<open>\<open>get_text("text") or ""\<close>\<close>
  get_pixmap :: "int \<Rightarrow> exn + pixmap"

record pdf_doc =
  needs_pass :: bool
  doc_pages :: int
  doc_title :: "pystr option"
  doc_producer :: "pystr option"
  load_page :: "nat \<Rightarrow> exn + pdf_page"

record 'w pymupdf =
  pdf_open :: "pystr \<Rightarrow> ('w, pdf_doc) prog"
  pdf_close :: "pdf_doc \<Rightarrow> ('w, unit) prog"

section \<open>Paths\<close>

definition path_name :: "pystr \<Rightarrow> pystr" where
  "path_name p = (let cs = filter (\<lambda>c. c \<noteq> [] \<and> c \<noteq> lit ''.'') (split_on 47 p)
     in if cs = [] then [] else last cs)"

definition path_suffix :: "pystr \<Rightarrow> pystr" where
  \<comment> \<open>from the last dot of the name, unless it is the name's first or last character\<close>
  "path_suffix p = (let name = path_name p; ext = rev (takeWhile (\<lambda>c. c \<noteq> 46) (rev name))
     in if 46 \<in> set name \<and> ext \<noteq> [] \<and> Suc (length ext) < length name then 46 # ext else [])"

definition PDF_SUFFIX :: pystr where
  "PDF_SUFFIX = lit ''.pdf''"

definition IMAGE_SUFFIXES :: "pystr list" where
  "IMAGE_SUFFIXES = [lit ''.png'', lit ''.jpg'', lit ''.jpeg'', lit ''.tiff'', lit ''.tif'', lit ''.webp'', lit ''.bmp'']"

section \<open>Text layer\<close>

fun squeeze_ws :: "bool \<Rightarrow> pystr \<Rightarrow> pystr" where
  \<comment> \<open>\<open>_WS.sub(" ", _)\<close>; the flag says that the current run has already been written\<close>
  "squeeze_ws b [] = []"
| "squeeze_ws b (c # cs) =
     (if c = 32 \<or> c = 9 then (if b then squeeze_ws True cs else 32 # squeeze_ws True cs)
      else c # squeeze_ws False cs)"

definition clean_text :: "pystr \<Rightarrow> pystr" where
  "clean_text t = strip (squeeze_nl 0 (squeeze_ws False t))"

section \<open>The document\<close>

datatype doc_kind = Pdf_kind | Image_kind

record doc =
  d_path :: pystr
  d_kind :: doc_kind
  d_pages :: int
  d_title :: pystr
  d_producer :: pystr
  d_total :: "int option"
  d_handle :: "pdf_doc option"

record rendered_page =
  rp_index :: int
  rp_png :: "byte list option"
  rp_dpi :: int
  rp_width :: int
  rp_height :: int
  rp_native_text :: "pystr option"

definition open_pdf :: "'w pymupdf \<Rightarrow> settings \<Rightarrow> pystr \<Rightarrow> ('w, doc) prog" where
  "open_pdf M S path =
     bindE (catchE (pdf_open M path) (\<lambda>e. raiseE (UnreadableDocument (lit ''corrupt PDF: '' @ exn_str e)))) (\<lambda>h.
       if needs_pass h then bindE (pdf_close M h) (\<lambda>_. raiseE (UnreadableDocument (lit ''encrypted PDF: password required'')))
       else retE \<lparr>d_path = path, d_kind = Pdf_kind, d_pages = min (doc_pages h) (max_pages S),
         d_title = take 200 (case doc_title h of None \<Rightarrow> [] | Some t \<Rightarrow> t),
         d_producer = take 200 (case doc_producer h of None \<Rightarrow> [] | Some t \<Rightarrow> t),
         d_total = Some (doc_pages h), d_handle = Some h\<rparr>)"

definition open_doc :: "'w pymupdf \<Rightarrow> settings \<Rightarrow> pystr \<Rightarrow> ('w, doc) prog" where
  "open_doc M S path = (let suffix' = lower (path_suffix path)
     in if suffix' = PDF_SUFFIX then open_pdf M S path
        else if suffix' \<in> set IMAGE_SUFFIXES then retE \<lparr>d_path = path, d_kind = Image_kind, d_pages = 1,
          d_title = [], d_producer = [], d_total = None, d_handle = None\<rparr>
        else raiseE (UnreadableDocument (lit ''unsupported file type '' @ suffix')))"

definition close_doc :: "'w pymupdf \<Rightarrow> doc \<Rightarrow> ('w, doc) prog" where
  "close_doc M d = (case d_handle d of None \<Rightarrow> retE d
     | Some h \<Rightarrow> bindE (pdf_close M h) (\<lambda>_. retE (d\<lparr>d_handle := None\<rparr>)))"

definition trunc :: "rat \<Rightarrow> int" where
  \<comment> \<open>\<open>int(x)\<close>\<close>
  "trunc x = (if x < 0 then - floor (- x) else floor x)"

fun best_dpi :: "rat \<Rightarrow> int list \<Rightarrow> int \<Rightarrow> int" where
  "best_dpi width_pt [] best = best"
| "best_dpi width_pt (px # pxs) best =
     best_dpi width_pt pxs (if px \<noteq> 0 then max best (trunc (of_int px / (width_pt / 72))) else best)"

definition dpi_for :: "settings \<Rightarrow> pdf_page \<Rightarrow> int" where
  "dpi_for S page =
     (if \<not> adaptive_dpi S then render_dpi S
      else case image_widths page of Inl e \<Rightarrow> render_dpi S
        | Inr pxs \<Rightarrow> (let width_pt = (if rect_width page = 0 then 612 else rect_width page); best = best_dpi width_pt pxs 0
            in if best \<noteq> 0 then max (min_dpi S) (min (max_dpi S) best) else render_dpi S))"

definition render_page :: "settings \<Rightarrow> nat \<Rightarrow> pdf_page \<Rightarrow> exn + rendered_page" where
  "render_page S i page = (let dpi = dpi_for S page in
     map_sum id (\<lambda>px. \<lparr>rp_index = int i, rp_png = Some (px_png px), rp_dpi = dpi, rp_width = px_width px,
       rp_height = px_height px, rp_native_text = None\<rparr>) (get_pixmap page dpi))"

definition pdf_page_at :: "settings \<Rightarrow> pdf_doc \<Rightarrow> nat \<Rightarrow> exn + rendered_page" where
  \<comment> \<open>the body of the loop of \<open>_iter_pdf\<close>\<close>
  "pdf_page_at S h i = (case load_page h i of Inl e \<Rightarrow> Inl e | Inr page \<Rightarrow>
     (if \<not> native_text_extraction S then render_page S i page
      else case page_text page of Inl e \<Rightarrow> Inl e | Inr t \<Rightarrow>
        (let text = clean_text t
         in if length text \<ge> native_text_min_chars S
            then Inr \<lparr>rp_index = int i, rp_png = None, rp_dpi = 0, rp_width = trunc (rect_width page),
              rp_height = trunc (rect_height page), rp_native_text = Some text\<rparr>
            else render_page S i page)))"

fun upto_error :: "('e + 'a) list \<Rightarrow> ('e + 'a) list" where
  \<comment> \<open>what a generator yields: nothing comes after its exception\<close>
  "upto_error [] = []"
| "upto_error (Inr a # rs) = Inr a # upto_error rs"
| "upto_error (Inl e # rs) = [Inl e]"

definition iter_pages :: "'w files \<Rightarrow> settings \<Rightarrow> doc \<Rightarrow> ('w, (exn + rendered_page) list) prog" where
  "iter_pages F S d = (case d_kind d of
     Image_kind \<Rightarrow> (\<lambda>w. case read_bytes F (d_path d) w of
       (r, w') \<Rightarrow> (Inr [map_sum id (\<lambda>b. \<lparr>rp_index = 0, rp_png = Some b, rp_dpi = render_dpi S, rp_width = 0,
          rp_height = 0, rp_native_text = None\<rparr>) r], w'))
   | Pdf_kind \<Rightarrow> retE (case d_handle d of None \<Rightarrow> [Inl (OtherError (lit ''AssertionError'') [])]
       | Some h \<Rightarrow> upto_error (map (pdf_page_at S h) [0..<nat (d_pages d)])))"

definition probe_page_count :: "'w pymupdf \<Rightarrow> pystr \<Rightarrow> int \<Rightarrow> ('w, int) prog" where
  \<comment> \<open>\<open>with pymupdf.open(path) as doc\<close> closes it; every exception counts as no page\<close>
  "probe_page_count M path limit =
     (if lower (path_suffix path) \<noteq> PDF_SUFFIX then retE 1
      else catchE (bindE (pdf_open M path) (\<lambda>h.
        finallyE (retE (if needs_pass h then 0 else min (doc_pages h) limit)) (pdf_close M h))) (\<lambda>e. retE 0))"

section \<open>Resolution\<close>

lemma best_dpi_ge: "best \<le> best_dpi w pxs best"
  by (induction w pxs best rule: best_dpi.induct) (auto intro: order_trans [OF max.cobounded1])

section \<open>Generators\<close>

lemma upto_error_nth: "i < length (upto_error rs) \<Longrightarrow> upto_error rs ! i = rs ! i"
proof (induction rs arbitrary: i rule: upto_error.induct)
  case (2 a rs)
  then show ?case by (cases i) auto
qed auto

lemma upto_error_last: "i < length (upto_error rs) \<Longrightarrow> upto_error rs ! i = Inl e \<Longrightarrow> Suc i = length (upto_error rs)"
proof (induction rs arbitrary: i rule: upto_error.induct)
  case (2 a rs)
  then show ?case by (cases i) auto
qed auto

lemma length_upto_error: "length (upto_error rs) \<le> length rs"
  by (induction rs rule: upto_error.induct) auto

lemma upto_error_all: "\<forall>r\<in>set (upto_error rs). \<not> isl r \<Longrightarrow> upto_error rs = rs"
  by (induction rs rule: upto_error.induct) auto

lemma render_page_InrD:
  "render_page S i page = Inr p \<Longrightarrow> rp_index p = int i \<and> rp_png p \<noteq> None \<and> rp_native_text p = None"
  by (cases "get_pixmap page (dpi_for S page)") (auto simp: render_page_def Let_def)

lemma pdf_page_at_InrD:
  assumes "pdf_page_at S h i = Inr p"
  shows "rp_index p = int i \<and> (rp_png p = None \<longleftrightarrow> rp_native_text p \<noteq> None) \<and>
    (\<forall>t. rp_native_text p = Some t \<longrightarrow> native_text_extraction S \<and> native_text_min_chars S \<le> length t)"
  using assms by (auto simp: pdf_page_at_def Let_def split: sum.splits if_splits dest: render_page_InrD)

lemma open_doc_kind:
  "open_doc M S path w = (Inr d, w') \<Longrightarrow> d_kind d = Image_kind \<and> d_pages d = 1 \<or>
     d_kind d = Pdf_kind \<and> d_handle d \<noteq> None"
  by (auto simp: open_doc_def open_pdf_def Let_def bindE_Inr_iff split: if_splits)

section \<open>Properties\<close>

text \<open>
  The chosen resolution. With a proper band the adaptive resolution of a page that has an image
  lies in the band; any other page, and any page when the library cannot list the images or the
  option is off, is rendered at the configured resolution.
\<close>

theorem dpi_in_band:
  assumes "min_dpi S \<le> max_dpi S"
  shows "dpi_for S page = render_dpi S \<or> (adaptive_dpi S \<and> min_dpi S \<le> dpi_for S page \<and> dpi_for S page \<le> max_dpi S)"
  using assms by (auto simp: dpi_for_def Let_def split: sum.splits)

lemma dpi_in_band_witness:
  "dpi_for default_settings \<lparr>rect_width = 612, rect_height = 792, image_widths = Inr [2550, 100],
     page_text = Inr [], get_pixmap = (\<lambda>d. Inl IndexError)\<rparr> = 250 \<and>
   min_dpi default_settings \<le> (250 :: int)"
proof -
  let ?page = "\<lparr>rect_width = 612, rect_height = 792, image_widths = Inr [2550, 100],
     page_text = Inr [], get_pixmap = (\<lambda>d. Inl IndexError)\<rparr>"
  have "dpi_for default_settings ?page = 250" by (simp add: dpi_for_def default_settings_def trunc_def)
  with dpi_in_band [of default_settings ?page] show ?thesis by (simp add: default_settings_def)
qed

text \<open>
  Pages come in order. Of an opened document the generator yields the pages with the indices
  0, 1, 2, and so on; only its last result can be an exception; without one it has yielded as many
  pages as the document was said to have; and a page comes with its native text exactly when it
  comes without an image, which happens only when the text layer is long enough.
\<close>

theorem pages_in_order:
  assumes "open_doc M S path w = (Inr d, w1)" and "iter_pages F S d w1 = (Inr rs, w2)"
  shows "(\<forall>i<length rs. case rs ! i of Inl e \<Rightarrow> Suc i = length rs
      | Inr p \<Rightarrow> rp_index p = int i \<and> (rp_png p = None \<longleftrightarrow> rp_native_text p \<noteq> None) \<and>
          (\<forall>t. rp_native_text p = Some t \<longrightarrow> native_text_extraction S \<and> native_text_min_chars S \<le> length t)) \<and>
    ((\<forall>r\<in>set rs. \<not> isl r) \<longrightarrow> int (length rs) = max 0 (d_pages d))"
proof (cases "d_kind d")
  case Image_kind
  moreover obtain r w3 where "read_bytes F (d_path d) w1 = (r, w3)" by fastforce
  ultimately show ?thesis
    using assms(2) open_doc_kind [OF assms(1)] by (cases r) (auto simp: iter_pages_def)
next
  case Pdf_kind
  then obtain h where h: "d_handle d = Some h" using open_doc_kind [OF assms(1)] by auto
  let ?all = "map (pdf_page_at S h) [0..<nat (d_pages d)]"
  have rs: "rs = upto_error ?all" using assms(2) Pdf_kind h by (simp add: iter_pages_def)
  have "case rs ! i of Inl e \<Rightarrow> Suc i = length rs
      | Inr p \<Rightarrow> rp_index p = int i \<and> (rp_png p = None \<longleftrightarrow> rp_native_text p \<noteq> None) \<and>
          (\<forall>t. rp_native_text p = Some t \<longrightarrow> native_text_extraction S \<and> native_text_min_chars S \<le> length t)"
    if i: "i < length rs" for i
  proof (cases "rs ! i")
    case (Inl e)
    then show ?thesis using upto_error_last [of i ?all e] i rs by simp
  next
    case (Inr p)
    moreover have "i < nat (d_pages d)" using i length_upto_error [of ?all] rs by simp
    ultimately have "pdf_page_at S h i = Inr p" using upto_error_nth [of i ?all] i rs by simp
    from pdf_page_at_InrD [OF this] Inr show ?thesis by simp
  qed
  moreover have "int (length rs) = max 0 (d_pages d)" if "\<forall>r\<in>set rs. \<not> isl r"
    using upto_error_all [of ?all] that rs by simp
  ultimately show ?thesis by blast
qed

definition sample_pdf :: pdf_doc where
  "sample_pdf = \<lparr>needs_pass = False, doc_pages = 3, doc_title = None, doc_producer = None,
     load_page = (\<lambda>i. if i = 2 then Inl (OtherError [] []) else Inr \<lparr>rect_width = 612, rect_height = 792,
       image_widths = Inr [], page_text = Inr [97], get_pixmap = (\<lambda>d. Inl IndexError)\<rparr>)\<rparr>"

definition sample_pymupdf :: "'w pymupdf" where
  "sample_pymupdf = \<lparr>pdf_open = (\<lambda>p. retE sample_pdf), pdf_close = (\<lambda>h. retE ())\<rparr>"

definition sample_options :: settings where
  "sample_options = default_settings\<lparr>native_text_min_chars := 1\<rparr>"

lemma sample_suffix: "path_suffix (lit ''a.pdf'') = lit ''.pdf''" "lower (lit ''.pdf'') = PDF_SUFFIX"
  by (simp_all add: path_suffix_def path_name_def PDF_SUFFIX_def lower1_def py_simps)

lemma sample_open:
  "open_doc sample_pymupdf sample_options (lit ''a.pdf'') w = (Inr \<lparr>d_path = lit ''a.pdf'', d_kind = Pdf_kind, d_pages = 3,
     d_title = [], d_producer = [], d_total = Some 3, d_handle = Some sample_pdf\<rparr>, w)"
  unfolding open_doc_def sample_suffix Let_def
  by (simp add: open_pdf_def sample_pymupdf_def prog_defs sample_pdf_def sample_options_def default_settings_def)

lemma pages_in_order_witness:
  "\<exists>rs. iter_pages mem_files sample_options \<lparr>d_path = lit ''a.pdf'', d_kind = Pdf_kind, d_pages = 3,
     d_title = [], d_producer = [], d_total = Some 3, d_handle = Some sample_pdf\<rparr> empty_world = (Inr rs, empty_world) \<and>
     length rs = 3 \<and> rp_index (projr (rs ! 1)) = 1 \<and> rp_png (projr (rs ! 1)) = None"
proof -
  let ?d = "\<lparr>d_path = lit ''a.pdf'', d_kind = Pdf_kind, d_pages = 3,
     d_title = [], d_producer = [], d_total = Some 3, d_handle = Some sample_pdf\<rparr>"
  let ?at = "pdf_page_at sample_options sample_pdf"
  have at: "?at 2 = Inl (OtherError [] [])" "?at 0 = Inr p \<Longrightarrow> True"
    "\<exists>p. ?at 0 = Inr p" "\<exists>p. ?at 1 = Inr p \<and> rp_native_text p = Some [97]" for p
    by (simp_all add: pdf_page_at_def sample_pdf_def sample_options_def default_settings_def clean_text_def
        strip_nonws is_ws_def)
  obtain p q where pq: "?at 0 = Inr p" "?at 1 = Inr q" "rp_native_text q = Some [97]" using at(3,4) by blast
  have three: "[0..<3] = [0, Suc 0, 2]" by (simp add: upt_rec numeral_3_eq_3 numeral_2_eq_2)
  have run: "iter_pages mem_files sample_options ?d empty_world = (Inr [Inr p, Inr q, Inl (OtherError [] [])], empty_world)"
    using pq at(1) by (simp add: iter_pages_def retE_def three)
  have "rp_index q = 1 \<and> rp_png q = None"
    using pages_in_order [OF sample_open run] pq(3) by (auto dest!: spec [of _ "1 :: nat"])
  with run show ?thesis by simp
qed

text \<open>
  The gateway charges what the worker will process. For a PDF or image path, a library whose
  \<open>close\<close> works, and the same page limit: if the worker can open the document it finds exactly the
  page count the gateway's probe answered, and if it refuses the document as unreadable the probe
  had answered 0, which the gateway rejects.
\<close>

theorem probe_agrees_with_document:
  assumes "lower (path_suffix path) = PDF_SUFFIX \<or> lower (path_suffix path) \<in> set IMAGE_SUFFIXES"
    and "\<And>h w. fst (pdf_close M h w) = Inr ()"
  shows "(\<exists>d w'. open_doc M S path w = (Inr d, w') \<and> fst (probe_page_count M path (max_pages S) w) = Inr (d_pages d)) \<or>
    (\<exists>m w'. open_doc M S path w = (Inl (UnreadableDocument m), w') \<and> fst (probe_page_count M path (max_pages S) w) = Inr 0)"
proof (cases "lower (path_suffix path) = PDF_SUFFIX")
  case False
  then show ?thesis using assms(1) by (auto simp: open_doc_def probe_page_count_def retE_def)
next
  case True
  obtain r w1 where op: "pdf_open M path w = (r, w1)" by fastforce
  show ?thesis
  proof (cases r)
    case (Inl e)
    then show ?thesis
      using True op by (auto simp: open_doc_def open_pdf_def probe_page_count_def prog_defs)
  next
    case (Inr h)
    obtain w2 where close: "pdf_close M h w1 = (Inr (), w2)"
      using assms(2) [of h w1] by (metis (full_types) prod.collapse)
    show ?thesis
      using True op Inr close
      by (cases "needs_pass h") (auto simp: open_doc_def open_pdf_def probe_page_count_def prog_defs Let_def)
  qed
qed

lemma probe_agrees_with_document_witness:
  "fst (probe_page_count sample_pymupdf (lit ''a.pdf'') (max_pages sample_options) ()) = Inr 3"
proof -
  have "lower (path_suffix (lit ''a.pdf'')) = PDF_SUFFIX" unfolding sample_suffix ..
  then show ?thesis
    using probe_agrees_with_document [of "lit ''a.pdf''" sample_pymupdf sample_options "()"] sample_open [of "()"]
    by (simp add: sample_pymupdf_def retE_def)
qed

end
