(* ===== verification/Pdf_Writer.thy ===== *)
theory Pdf_Writer
  imports Documents
begin

text \<open>
  \<open>workers/pdf_writer.py\<close>: the searchable PDF, the source's pages with an invisible text layer. A page
  of the library is a value \<open>'p\<close>; \<open>textbox\<close> is \<open>insert_textbox\<close>, which answers the space left over and
  the page; as the library documents, a negative answer means that nothing was written
  (\<open>textbox_ok\<close>).
\<close>

record ('w, 'p) pdf_output =
  open_source :: "pystr \<Rightarrow> ('w, 'p list) prog"
  convert_image :: "pystr \<Rightarrow> ('w, 'p list) prog"      \<comment> \<open>open, convert to PDF, close, insert\<close>
  textbox :: "'p \<Rightarrow> pystr \<Rightarrow> rat \<Rightarrow> rat \<times> 'p"
  save_pdf :: "pystr \<Rightarrow> 'p list \<Rightarrow> ('w, unit) prog"
  close_output :: "('w, unit) prog"

definition FONT_SIZES :: "rat list" where
  "FONT_SIZES = [8, 6, 9/2, 3, 2, 3/2, 1]"

fun try_sizes :: "('p \<Rightarrow> pystr \<Rightarrow> rat \<Rightarrow> rat \<times> 'p) \<Rightarrow> pystr \<Rightarrow> rat list \<Rightarrow> 'p \<Rightarrow> 'p" where
  \<comment> \<open>the loop, then the last call after it\<close>
  "try_sizes tb text [] page = snd (tb page (take 20000 text) 1)"
| "try_sizes tb text (z # zs) page =
     (case tb page text z of (leftover, page') \<Rightarrow> if leftover \<ge> 0 then page' else try_sizes tb text zs page')"

definition insert_invisible :: "('p \<Rightarrow> pystr \<Rightarrow> rat \<Rightarrow> rat \<times> 'p) \<Rightarrow> 'p \<Rightarrow> pystr \<Rightarrow> 'p" where
  "insert_invisible tb page text = try_sizes tb text FONT_SIZES page"

fun add_layers :: "('p \<Rightarrow> pystr \<Rightarrow> rat \<Rightarrow> rat \<times> 'p) \<Rightarrow> pystr list \<Rightarrow> nat \<Rightarrow> 'p list \<Rightarrow> 'p list" where
  "add_layers tb texts i [] = []"
| "add_layers tb texts i (page # pages) =
     (let text = (if i < length texts then texts ! i else [])
      in (if strip text = [] then page else insert_invisible tb page text) # add_layers tb texts (Suc i) pages)"

definition build_searchable_pdf ::
  "'w files \<Rightarrow> ('w, 'p) pdf_output \<Rightarrow> pystr \<Rightarrow> pystr list \<Rightarrow> pystr \<Rightarrow> ('w, pystr) prog" where
  "build_searchable_pdf F P source page_texts dest =
     bindE (make_dir F (parent dest)) (\<lambda>_.
     bindE (if lower (path_suffix source) = lit ''.pdf'' then open_source P source else convert_image P source) (\<lambda>pages.
     bindE (finallyE (save_pdf P dest (add_layers (textbox P) page_texts 0 pages)) (close_output P)) (\<lambda>_.
     retE dest)))"

definition textbox_ok :: "('p \<Rightarrow> pystr \<Rightarrow> rat \<Rightarrow> rat \<times> 'p) \<Rightarrow> bool" where
  "textbox_ok tb \<longleftrightarrow> (\<forall>page text z. fst (tb page text z) < 0 \<longrightarrow> snd (tb page text z) = page)"

section \<open>The layer\<close>

lemma try_sizes_find:
  assumes "textbox_ok tb"
  shows "try_sizes tb text zs page = (case List.find (\<lambda>z. 0 \<le> fst (tb page text z)) zs of
     Some z \<Rightarrow> snd (tb page text z) | None \<Rightarrow> snd (tb page (take 20000 text) 1))"
proof (induction zs)
  case (Cons z zs)
  obtain l p where tb: "tb page text z = (l, p)" by fastforce
  show ?case
  proof (cases "0 \<le> l")
    case False
    then have "p = page" using assms tb unfolding textbox_ok_def by (metis fst_conv not_le snd_conv)
    then show ?thesis using False tb Cons by simp
  qed (simp add: tb)
qed simp

lemma add_layers_nth:
  "length (add_layers tb texts i pages) = length pages \<and> (k < length pages \<longrightarrow>
     add_layers tb texts i pages ! k =
       (let text = (if i + k < length texts then texts ! (i + k) else [])
        in if strip text = [] then pages ! k else insert_invisible tb (pages ! k) text))"
proof (induction pages arbitrary: i k)
  case (Cons page pages)
  then show ?case by (cases k) (auto simp: Let_def)
qed simp

section \<open>Properties\<close>

text \<open>
  The text layer. Page \<open>k\<close> of the result is page \<open>k\<close> of the source, with the \<open>k\<close>-th text inserted at
  the largest of the font sizes at which it fits; pages without text are untouched, and no page is
  added or lost.
\<close>

theorem layers_at_largest_fitting_size:
  assumes "textbox_ok tb" and "k < length pages" "k < length texts" and "strip (texts ! k) \<noteq> []"
    and "List.find (\<lambda>z. 0 \<le> fst (tb (pages ! k) (texts ! k) z)) FONT_SIZES = Some z"
  shows "length (add_layers tb texts 0 pages) = length pages \<and>
    add_layers tb texts 0 pages ! k = snd (tb (pages ! k) (texts ! k) z)"
  using add_layers_nth [of tb texts 0 pages k] assms
  by (simp add: Let_def insert_invisible_def try_sizes_find)

definition counting_box :: "pystr list \<Rightarrow> pystr \<Rightarrow> rat \<Rightarrow> rat \<times> pystr list" where
  \<comment> \<open>a page that holds 24 characters at one point; it is the list of its texts\<close>
  "counting_box page text z = (let left = 24 - of_nat (length text) * z
     in (left, if left < 0 then page else page @ [text]))"

lemma counting_box_ok: "textbox_ok counting_box"
  by (simp add: textbox_ok_def counting_box_def Let_def)

lemma layers_at_largest_fitting_size_witness:
  "add_layers counting_box [lit ''abcde''] 0 [[], [lit ''x'']] ! 0 = [lit ''abcde'']"
proof -
  have "strip (lit ''abcde'') = lit ''abcde''" by (rule strip_nonws) (simp add: is_ws_def py_simps)
  then show ?thesis
    using layers_at_largest_fitting_size [OF counting_box_ok, of 0 "[[], [lit ''x'']]" "[lit ''abcde'']" "9/2"]
    by (simp add: FONT_SIZES_def counting_box_def Let_def py_simps)
qed

text \<open>
  Text that does not fit is dropped. The comment at the end of \<open>_insert_invisible\<close> promises to
  keep what fits rather than drop the page; but a text of at most 20000 characters that fits at none
  of the sizes, the last of which is one point, is tried once more unchanged at one point, so the
  page gets no text layer at all.
\<close>

theorem oversized_text_dropped:
  assumes "textbox_ok tb" and "length text \<le> 20000"
    and "List.find (\<lambda>z. 0 \<le> fst (tb page text z)) FONT_SIZES = None"
  shows "insert_invisible tb page text = page"
proof -
  have "1 \<in> set FONT_SIZES" by (simp add: FONT_SIZES_def)
  then have "\<not> 0 \<le> fst (tb page text 1)" using assms(3) [unfolded find_None_iff] by blast
  then have "fst (tb page text 1) < 0" by (simp only: not_le)
  then have "snd (tb page text 1) = page" using assms(1) unfolding textbox_ok_def by blast
  moreover have "take 20000 text = text" using assms(2) by (rule take_all)
  ultimately show ?thesis
    unfolding insert_invisible_def try_sizes_find [OF assms(1)] assms(3) option.case by (simp only:)
qed

lemma oversized_text_dropped_witness:
  "insert_invisible counting_box [] (replicate 25 97) = []"
  by (rule oversized_text_dropped [OF counting_box_ok]) (simp_all add: FONT_SIZES_def counting_box_def Let_def)

end
