(* ===== verification/Auth.thy ===== *)
theory Auth
  imports Config Ratelimit
begin

text \<open>
  \<open>gateway/auth.py\<close>: API keys, tenants and the rate limit of a request. \<open>compare_digest\<close> is the
  standard library's comparison of two strings, which refuses text outside ASCII.
\<close>

record principal =
  p_api_key :: pystr
  p_tenant :: pystr

definition masked :: "principal \<Rightarrow> pystr" where
  "masked p = (if length (p_api_key p) > 4 then take 4 (p_api_key p) @ lit ''***'' else lit ''***'')"

definition ascii :: "pystr \<Rightarrow> bool" where
  "ascii s \<longleftrightarrow> list_all (\<lambda>c. c < 128) s"

definition compare_digest :: "pystr \<Rightarrow> pystr \<Rightarrow> exn + bool" where
  "compare_digest a b = (if ascii a \<and> ascii b then Inr (a = b)
     else Inl (TypeError (lit ''comparing strings with non-ASCII characters is not supported'')))"

definition unauthorized :: exn where
  "unauthorized = HTTPException 401 (lit ''invalid or missing API key'')"

fun find_key :: "pystr \<Rightarrow> (pystr \<times> pystr) list \<Rightarrow> exn + principal" where
  "find_key presented [] = Inl unauthorized"
| "find_key presented ((key, tenant) # rest) = (case compare_digest presented key of
     Inl e \<Rightarrow> Inl e
   | Inr True \<Rightarrow> Inr \<lparr>p_api_key = key, p_tenant = tenant\<rparr>
   | Inr False \<Rightarrow> find_key presented rest)"

definition presented_key :: "pystr \<Rightarrow> pystr \<Rightarrow> pystr" where
  "presented_key x_api_key authorization =
     (let presented = strip x_api_key
      in if presented = [] \<and> startswith (lower authorization) (lit ''bearer '')
         then strip (drop 7 authorization) else presented)"

definition require_api_key :: "settings \<Rightarrow> pystr \<Rightarrow> pystr \<Rightarrow> exn + principal" where
  "require_api_key S x_api_key authorization = find_key (presented_key x_api_key authorization) (api_key_map S)"

definition rate_limited ::
  "(rat \<Rightarrow> pystr) \<Rightarrow> (pystr \<Rightarrow> ('w, limit_decision) prog) option \<Rightarrow> principal \<Rightarrow> ('w, unit) prog" where
  \<comment> \<open>the limiter is that of the application's state, if it has one; the first argument prints a float\<close>
  "rate_limited show_float limiter p = (case limiter of None \<Rightarrow> retE ()
     | Some check \<Rightarrow> bindE (check (p_api_key p)) (\<lambda>d. if \<not> ok d
         then raiseE (HTTPException 429 (lit ''rate limit exceeded, retry in '' @ show_float (retry_after_s d) @ lit ''s''))
         else retE ()))"

section \<open>Keys\<close>

lemma find_key_ascii:
  assumes "ascii presented" "\<forall>k\<in>fst ` set m. ascii k"
  shows "find_key presented m = (case map_of m presented of None \<Rightarrow> Inl unauthorized
    | Some t \<Rightarrow> Inr \<lparr>p_api_key = presented, p_tenant = t\<rparr>)"
  using assms by (induction m) (auto simp: compare_digest_def)

lemma strip_ascii: "ascii s \<Longrightarrow> ascii (strip s)"
  using set_strip [of s] by (auto simp: ascii_def list_all_iff)

lemma ascii_drop: "ascii s \<Longrightarrow> ascii (drop n s)"
  by (auto simp: ascii_def list_all_iff dest: in_set_dropD)

lemma presented_ascii: "ascii x \<Longrightarrow> ascii a \<Longrightarrow> ascii (presented_key x a)"
  by (simp add: presented_key_def Let_def strip_ascii ascii_drop)

lemma set_split_on: "w \<in> set (split_on c s) \<Longrightarrow> set w \<subseteq> set s"
  by (induction s arbitrary: w) (fastforce split: list.splits if_splits)+

lemma keys_ascii:
  assumes "ascii (api_keys S)" shows "\<forall>k\<in>fst ` set (api_key_map S). ascii k"
proof
  fix k assume "k \<in> fst ` set (api_key_map S)"
  then have "k \<in> fst ` set (key_entries S)"
    using api_key_map_last_wins [of S] by (metis dom_map_of_conv_image_fst image_set rev_map set_rev)
  then obtain w where "w \<in> set (split_on 44 (api_keys S))" and k: "k = before_sep 58 (strip w)"
    by (auto simp: key_entries_def key_entry_def Let_def)
  then have "set k \<subseteq> set (api_keys S)"
    using set_split_on set_strip [of w] by (fastforce simp: before_sep_def dest: set_takeWhileD)
  then show "ascii k" using assms by (auto simp: ascii_def list_all_iff)
qed

section \<open>Properties\<close>

text \<open>
  C29. Authentication is exact. With ASCII headers and an ASCII configuration a request is accepted
  exactly when the key it presents is the key of some entry of \<open>OCR_API_KEYS\<close>; it then acts for the
  tenant of the last entry with that key, \<open>default\<close> if that entry names none; and it is refused with
  401 otherwise.
\<close>

theorem authentication_exact:
  assumes "ascii x" "ascii a" "ascii (api_keys S)"
  shows "require_api_key S x a = (case map_of (rev (key_entries S)) (presented_key x a) of
      None \<Rightarrow> Inl (HTTPException 401 (lit ''invalid or missing API key''))
    | Some t \<Rightarrow> Inr \<lparr>p_api_key = presented_key x a, p_tenant = t\<rparr>)"
  using find_key_ascii [OF presented_ascii [OF assms(1,2)] keys_ascii [OF assms(3)]]
  unfolding require_api_key_def api_key_map_last_wins unauthorized_def .

lemma authentication_exact_witness:
  "require_api_key (default_settings\<lparr>api_keys := lit ''k1:a,k2''\<rparr>) [] (lit ''Bearer k2'') =
     Inr \<lparr>p_api_key = lit ''k2'', p_tenant = lit ''default''\<rparr>"
proof -
  let ?S = "default_settings\<lparr>api_keys := lit ''k1:a,k2''\<rparr>"
  have "key_entries ?S = [(lit ''k1'', lit ''a''), (lit ''k2'', lit ''default'')]"
    by (simp add: key_entries_def key_entry_def before_sep_def after_sep_def strip_nonws is_ws_def py_simps Let_def)
  moreover have "presented_key [] (lit ''Bearer k2'') = lit ''k2''"
    by (simp add: presented_key_def startswith_def lower1_def strip_nonws is_ws_def py_simps)
  ultimately show ?thesis
    using authentication_exact [of "[]" "lit ''Bearer k2''" ?S] by (simp add: ascii_def py_simps)
qed

text \<open>
  An entry without a key opens the gateway. If the configuration contains an entry that starts
  with a colon (\<open>:tenant\<close>, a key left empty), a request with no credentials at all is accepted.
\<close>

theorem empty_key_entry_opens_gateway:
  assumes "ascii (api_keys S)" and "strip w = 58 # t" "w \<in> set (split_on 44 (api_keys S))"
  shows "\<exists>p. require_api_key S [] [] = Inr p"
proof -
  have "key_entry (58 # t) \<in> set (key_entries S)"
    using assms(2,3) by (force simp: key_entries_def)
  then have "[] \<in> fst ` set (key_entries S)" by (force simp: key_entry_def before_sep_def Let_def)
  then have "map_of (rev (key_entries S)) [] \<noteq> None" by (simp add: map_of_eq_None_iff)
  moreover have "presented_key [] [] = []" by (simp add: presented_key_def startswith_def)
  ultimately show ?thesis
    using find_key_ascii [OF _ keys_ascii [OF assms(1)], of "[]"]
    by (auto simp: require_api_key_def api_key_map_last_wins ascii_def)
qed

lemma empty_key_entry_opens_gateway_witness:
  "\<exists>p. require_api_key (default_settings\<lparr>api_keys := lit ''k1:a,:b''\<rparr>) [] [] = Inr p"
  by (rule empty_key_entry_opens_gateway [where w = "lit '':b''" and t = "lit ''b''"])
    (simp_all add: ascii_def py_simps strip_nonws is_ws_def)

text \<open>
  A header outside ASCII is not refused but crashes. Whatever keys are configured (at least
  one), a request whose key contains a character outside ASCII ends with \<open>TypeError\<close>, which the
  gateway answers with 500, and not with 401.
\<close>

theorem non_ascii_key_crashes:
  assumes "\<not> ascii (presented_key x a)" and "api_key_map S \<noteq> []"
  shows "\<exists>m. require_api_key S x a = Inl (TypeError m)"
  using assms by (cases "api_key_map S") (auto simp: require_api_key_def compare_digest_def)

lemma non_ascii_key_crashes_witness:
  "\<exists>m. require_api_key default_settings [233] [] = Inl (TypeError m)"
  by (rule non_ascii_key_crashes)
    (simp_all add: presented_key_def ascii_def strip_nonws is_ws_def api_key_map_def default_settings_def
      key_entry_def before_sep_def after_sep_def py_simps Let_def)

end
