(* ===== verification/Gateway.thy ===== *)
theory Gateway
  imports Queue Database Documents Auth
begin

text \<open>
  \<open>gateway/main.py\<close>, the request handlers: submission, status and result, cancellation, the job list
  and the artifacts. A handler is a program over a Redis client \<open>R\<close>, a file system \<open>F\<close>, the PDF library
  \<open>M\<close> and \<open>app\<close>, the rest of the application's state. A response is the value the handler returns; a
  refusal is \<open>HTTPException\<close>. Routing, validation of the request and the rendering of a response
  belong to the web framework.
\<close>

record ('w, 't) app =
  limiter :: "(pystr \<Rightarrow> ('w, limit_decision) prog) option"
  show_float :: "rat \<Rightarrow> pystr"
  uuid12 :: "('w, pystr) prog"                         \<comment> \<open>\<open>uuid.uuid4().hex[:12]\<close>\<close>
  sha256 :: "byte list \<Rightarrow> pystr"
  utc_day :: "('w, pystr) prog"
  app_pool :: "('w, 't) pool"
  app_db :: database
  load_json :: "byte list \<Rightarrow> exn + json"               \<comment> \<open>UTF-8 and \<open>json.loads\<close>\<close>
  decode :: "byte list \<Rightarrow> exn + pystr"

definition slug :: "nat \<Rightarrow> pystr" where
  "slug code = (case map_of [(400, ''bad_request''), (401, ''unauthorized''), (404, ''not_found''), (409, ''conflict''),
     (413, ''payload_too_large''), (415, ''unsupported_media_type''), (429, ''too_many_requests''), (503, ''unavailable'')] code
     of Some s \<Rightarrow> lit s | None \<Rightarrow> lit ''error'')"

record error_response =
  er_status :: nat
  er_error :: pystr
  er_detail :: pystr
  er_request_id :: "pystr option"

definition http_error :: "pystr option \<Rightarrow> nat \<Rightarrow> pystr \<Rightarrow> error_response" where
  \<comment> \<open>the handler of \<open>HTTPException\<close>\<close>
  "http_error request_id code detail = \<lparr>er_status = code,
     er_error = (if code \<ge> 500 then lit ''HTTPException'' else slug code), er_detail = detail, er_request_id = request_id\<rparr>"

section \<open>Submission\<close>

record job_accepted =
  ja_job_id :: pystr
  ja_status :: job_status
  ja_stream_url :: pystr
  ja_ws_url :: pystr
  ja_result_url :: pystr

definition accepted :: "pystr \<Rightarrow> job_accepted" where
  "accepted job_id = \<lparr>ja_job_id = job_id, ja_status = Queued,
     ja_stream_url = lit ''/v1/ocr/'' @ job_id @ lit ''/stream'', ja_ws_url = lit ''/v1/ocr/'' @ job_id @ lit ''/ws'',
     ja_result_url = lit ''/v1/ocr/'' @ job_id\<rparr>"

definition ALLOWED_SUFFIXES :: "pystr list" where
  \<comment> \<open>sorted\<close>
  "ALLOWED_SUFFIXES = [lit ''.bmp'', lit ''.jpeg'', lit ''.jpg'', lit ''.pdf'', lit ''.png'', lit ''.tif'', lit ''.tiff'', lit ''.webp'']"

definition list_repr :: "pystr list \<Rightarrow> pystr" where
  "list_repr xs = lit ''['' @ join (lit '', '') (map (\<lambda>x. [39] @ x @ [39]) xs) @ lit '']''"

fun chunks :: "(exn + byte list) list \<Rightarrow> (exn + byte list) list" where
  \<comment> \<open>\<open>_chunks\<close>: the answers of \<open>upload.read\<close> up to the first empty one\<close>
  "chunks [] = []"
| "chunks (Inl e # rs) = [Inl e]"
| "chunks (Inr c # rs) = (if c = [] then [] else Inr c # chunks rs)"

definition idem_key :: "pystr \<Rightarrow> pystr \<Rightarrow> pystr" where
  "idem_key tenant key = (if key \<noteq> [] then lit ''idem:'' @ tenant @ lit '':'' @ key else [])"

definition discard :: "'w files \<Rightarrow> settings \<Rightarrow> stored_blob \<Rightarrow> nat \<Rightarrow> pystr \<Rightarrow> ('w, 'a) prog" where
  \<comment> \<open>delete the blob, then refuse the request\<close>
  "discard F S blob code detail =
     bindE (delete_blob F (uploads_dir S) (sb_key blob)) (\<lambda>_. raiseE (HTTPException code detail))"

definition record_job ::
  "'w redis \<Rightarrow> settings \<Rightarrow> ('w, 't) time_api \<Rightarrow> principal \<Rightarrow> pystr \<Rightarrow> pystr \<Rightarrow> stored_blob \<Rightarrow> int \<Rightarrow> pystr \<Rightarrow>
   ('w, job_accepted) prog" where
  \<comment> \<open>\<open>submit\<close> from \<open>events.set_status\<close> on\<close>
  "record_job R S T p filename job_id blob pages idem =
     bindE (now_utc T) (\<lambda>created.
     bindE (set_status R S T job_id Queued
        [(''filename'', Some (if filename \<noteq> [] then filename else sb_key blob)), (''path'', Some (sb_path blob)),
         (''sha256'', Some (sb_sha256 blob)), (''bytes'', Some (show_int (sb_size blob))), (''tenant'', Some (p_tenant p)),
         (''page_count'', Some (show_int pages)), (''pages_done'', Some (show_int 0)), (''attempts'', Some (show_int 0)),
         (''created_at'', Some (iso T created))]) (\<lambda>_.
     bindE (enqueue R S job_id [(''tenant'', p_tenant p)]) (\<lambda>_.
     bindE (if idem \<noteq> [] then setex R idem 86400 job_id else retE ()) (\<lambda>_.
     retE (accepted job_id)))))"

definition admit_blob ::
  "'w redis \<Rightarrow> settings \<Rightarrow> ('w, 't) time_api \<Rightarrow> 'w files \<Rightarrow> 'w pymupdf \<Rightarrow> ('w, 't) app \<Rightarrow> principal \<Rightarrow> pystr \<Rightarrow>
   pystr \<Rightarrow> pystr \<Rightarrow> pystr \<Rightarrow> stored_blob \<Rightarrow> ('w, job_accepted) prog" where
  \<comment> \<open>\<open>submit\<close> from the stored blob on\<close>
  "admit_blob R S T F M A p filename suff idem job_id blob =
     (if sb_size blob = 0 then discard F S blob 400 (lit ''empty upload'')
      else if \<not> matches_extension suff (sb_head blob) then discard F S blob 415
        (lit ''content is '' @ describe (sb_head blob) @ lit '', which does not match the '' @ suff @ lit '' extension'')
      else bindE (probe_page_count M (sb_path blob) (max_pages S)) (\<lambda>pages.
        if pages = 0 then discard F S blob 400 (lit ''unreadable or encrypted document'')
        else bindE (utc_day A) (\<lambda>day.
        bindE (quota_check (get_key R) (quota_pages_per_day S) (p_tenant p) day pages) (\<lambda>d.
        if \<not> ok d then discard F S blob 429
          (lit ''daily page quota exhausted ('' @ show_int (quota_pages_per_day S) @ lit '' pages/day)'')
        else record_job R S T p filename job_id blob pages idem))))"

definition submit_new ::
  "'w redis \<Rightarrow> settings \<Rightarrow> ('w, 't) time_api \<Rightarrow> 'w files \<Rightarrow> 'w pymupdf \<Rightarrow> ('w, 't) app \<Rightarrow> principal \<Rightarrow> pystr \<Rightarrow>
   (exn + byte list) list \<Rightarrow> pystr \<Rightarrow> pystr \<Rightarrow> ('w, job_accepted) prog" where
  "submit_new R S T F M A p filename body suff idem =
     bindE (uuid12 A) (\<lambda>job_id.
     bindE (catchE (put_stream F (sha256 A) (uploads_dir S) (job_id @ suff) (chunks body) (Some (max_upload_bytes S)))
              (\<lambda>e. case e of UploadTooLarge n \<Rightarrow>
                  raiseE (HTTPException 413 (lit ''file exceeds '' @ show_int (max_upload_mb S) @ lit '' MB''))
                | _ \<Rightarrow> raiseE e)) (\<lambda>blob.
     admit_blob R S T F M A p filename suff idem job_id blob))"

definition submit ::
  "'w redis \<Rightarrow> settings \<Rightarrow> ('w, 't) time_api \<Rightarrow> 'w files \<Rightarrow> 'w pymupdf \<Rightarrow> ('w, 't) app \<Rightarrow> principal \<Rightarrow> pystr \<Rightarrow>
   (exn + byte list) list \<Rightarrow> pystr \<Rightarrow> ('w, job_accepted) prog" where
  \<comment> \<open>a missing file name is the empty text\<close>
  "submit R S T F M A p filename body idempotency_key =
     bindE (rate_limited (show_float A) (limiter A) p) (\<lambda>_.
       let suff = lower (path_suffix (if filename \<noteq> [] then filename else lit ''upload.bin''));
           idem = idem_key (p_tenant p) idempotency_key
       in if suff \<notin> set ALLOWED_SUFFIXES then raiseE (HTTPException 415 (lit ''unsupported type '' @
            (if suff \<noteq> [] then suff else lit ''(none)'') @ lit ''; allowed: '' @ list_repr ALLOWED_SUFFIXES))
          else bindE (if idem \<noteq> [] then get_key R idem else retE None) (\<lambda>existing.
            case non_empty existing of Some j \<Rightarrow> retE (accepted j)
            | None \<Rightarrow> submit_new R S T F M A p filename body suff idem))"

section \<open>Results\<close>

definition unknown_job :: exn where
  "unknown_job = HTTPException 404 (lit ''unknown job'')"

definition load_job :: "'w redis \<Rightarrow> pystr \<Rightarrow> principal \<Rightarrow> ('w, dict) prog" where
  "load_job R job_id p = bindE (get_job R job_id) (\<lambda>job.
     if job = [] then raiseE unknown_job
     else if dget_or job ''tenant'' (lit ''default'') \<noteq> p_tenant p then raiseE unknown_job
     else retE job)"

datatype 't body =
    Stored "'t ocr_result"                   \<comment> \<open>from the database\<close>
  | Saved json                               \<comment> \<open>the JSON file of the result\<close>
  | Live "'t job_state" rat                  \<comment> \<open>the job hash, with its progress\<close>

definition live_result :: "('w, 't) time_api \<Rightarrow> 'w files \<Rightarrow> ('w, 't) app \<Rightarrow> pystr \<Rightarrow> dict \<Rightarrow> ('w, 't body) prog" where
  "live_result T F A job_id job =
     (let state = bindE (parse_state T job_id job) (\<lambda>s. retE (Live s (state_progress s)))
      in case non_empty (dget job ''result_path'') of
           Some path \<Rightarrow> if dget job ''status'' = Some (status_value Completed)
             then bindE (file_exists F path) (\<lambda>b. if b
               then bindE (read_bytes F path) (\<lambda>t. bindE (ofE (load_json A t)) (\<lambda>v. retE (Saved v)))
               else state)
             else state
         | None \<Rightarrow> state)"

definition result_of_job ::
  "'w redis \<Rightarrow> ('w, 't) time_api \<Rightarrow> 'w files \<Rightarrow> ('w, 't) app \<Rightarrow> pystr \<Rightarrow> principal \<Rightarrow> ('w, 't body) prog" where
  \<comment> \<open>the endpoint \<open>result\<close>\<close>
  "result_of_job R T F A job_id p = (\<lambda>w. case load_job R job_id p w of
     (Inl (HTTPException c m), w') \<Rightarrow> bindE (get_result (app_pool A) (app_db A) job_id) (\<lambda>stored. case stored of
         None \<Rightarrow> raiseE (HTTPException c m)
       | Some r \<Rightarrow> if r_tenant r \<noteq> p_tenant p then raiseE (HTTPException c m) else retE (Stored r)) w'
   | (Inl e, w') \<Rightarrow> (Inl e, w')
   | (Inr job, w') \<Rightarrow> live_result T F A job_id job w')"

record cancel_response =
  cr_job_id :: pystr
  cr_status :: pystr
  cr_cancelled :: bool

definition cancel :: "'w redis \<Rightarrow> settings \<Rightarrow> ('w, 't) time_api \<Rightarrow> pystr \<Rightarrow> principal \<Rightarrow> ('w, cancel_response) prog" where
  "cancel R S T job_id p = bindE (load_job R job_id p) (\<lambda>job.
     bindE (parse_state T job_id job) (\<lambda>state.
     if terminal (js_status state)
     then retE \<lparr>cr_job_id = job_id, cr_status = status_value (js_status state), cr_cancelled = False\<rparr>
     else bindE (request_cancel R S job_id) (\<lambda>_.
       retE \<lparr>cr_job_id = job_id, cr_status = lit ''cancelling'', cr_cancelled = True\<rparr>)))"

definition recent_jobs :: "('w, 't) app \<Rightarrow> principal \<Rightarrow> int \<Rightarrow> ('w, (pystr \<times> 't job_row) list) prog" where
  "recent_jobs A p limit = recent (app_pool A) (app_db A) (Some (p_tenant p)) limit"

section \<open>Artifacts\<close>

definition artifact :: "'w redis \<Rightarrow> 'w files \<Rightarrow> pystr \<Rightarrow> principal \<Rightarrow> string \<Rightarrow> ('w, pystr) prog" where
  \<comment> \<open>the path; a missing status prints as \<open>None\<close>\<close>
  "artifact R F job_id p fld = bindE (load_job R job_id p) (\<lambda>job.
     if dget job ''status'' \<noteq> Some (status_value Completed)
     then raiseE (HTTPException 409 (lit ''job is '' @ dget_or job ''status'' (lit ''None'') @ lit '', artifacts not ready''))
     else case non_empty (dget job fld) of
       None \<Rightarrow> raiseE (HTTPException 404 (lit fld @ lit '' not available for this job''))
     | Some raw \<Rightarrow> bindE (file_exists F raw) (\<lambda>b.
         if b then retE raw else raiseE (HTTPException 404 (lit fld @ lit '' not available for this job''))))"

definition text_artifact :: "'w redis \<Rightarrow> 'w files \<Rightarrow> ('w, 't) app \<Rightarrow> pystr \<Rightarrow> principal \<Rightarrow> ('w, json) prog" where
  "text_artifact R F A job_id p = bindE (artifact R F job_id p ''result_path'') (\<lambda>path.
     bindE (read_bytes F path) (\<lambda>t. bindE (ofE (load_json A t)) (\<lambda>payload.
     ofE (jget payload (lit ''full_text'') (JStr [])))))"

definition markdown_artifact :: "'w redis \<Rightarrow> 'w files \<Rightarrow> ('w, 't) app \<Rightarrow> pystr \<Rightarrow> principal \<Rightarrow> ('w, pystr) prog" where
  "markdown_artifact R F A job_id p = bindE (artifact R F job_id p ''markdown_path'') (\<lambda>path.
     bindE (read_bytes F path) (\<lambda>t. ofE (decode A t)))"

definition pdf_artifact :: "'w redis \<Rightarrow> 'w files \<Rightarrow> pystr \<Rightarrow> principal \<Rightarrow> ('w, byte list) prog" where
  \<comment> \<open>\<open>FileResponse\<close> sends the file's content\<close>
  "pdf_artifact R F job_id p = bindE (artifact R F job_id p ''pdf_path'') (read_bytes F)"

section \<open>Readiness\<close>

record health_response =
  hr_code :: nat
  hr_status :: pystr
  hr_redis :: bool
  hr_engine :: bool
  hr_postgres :: pystr

definition readyz :: "settings \<Rightarrow> ('w, bool) prog \<Rightarrow> ('w, bool) prog \<Rightarrow> ('w, 't) app \<Rightarrow> ('w, health_response) prog" where
  \<comment> \<open>the arguments are \<open>redis_ping\<close> and the engine client's \<open>health\<close>\<close>
  "readyz S ping engine A = bindE ping (\<lambda>r. bindE engine (\<lambda>e. bindE (healthy (app_pool A) (app_db A)) (\<lambda>d.
     retE \<lparr>hr_code = (if r then 200 else 503), hr_status = (if r then lit ''ok'' else lit ''degraded''), hr_redis = r,
       hr_engine = e, hr_postgres = (if d then lit ''ok'' else if postgres_enabled S then lit ''down'' else lit ''disabled'')\<rparr>)))"

end
