(* ===== verification/Gateway_Safety.thy ===== *)
theory Gateway_Safety
  imports Gateway Job_Store
begin

text \<open>
  What the gateway guarantees. The interface \<open>gateway\<close> puts a Redis server and a file store side by
  side: the commands of one leave the other alone, and so does the rest of the application. Every
  command may fail. The lemmas compute the effect of a submission that returns and of one that is
  refused; the properties of the handlers follow.
\<close>

section \<open>Undisturbed state\<close>

definition steady :: "('w \<Rightarrow> 's) \<Rightarrow> ('w, 'a) prog \<Rightarrow> bool" where
  "steady view m \<longleftrightarrow> (\<forall>w. view (snd (m w)) = view w)"

named_theorems steady_rules "programs that leave a view alone"

lemma steadyD: "steady view m \<Longrightarrow> m w = (r, w') \<Longrightarrow> view w' = view w"
  unfolding steady_def by (metis snd_conv)

lemma steady_retE [steady_rules]: "steady view (retE a)"
  by (simp add: steady_def retE_def)

lemma steady_raiseE [steady_rules]: "steady view (raiseE e)"
  by (simp add: steady_def raiseE_def)

lemma steady_ofE [steady_rules]: "steady view (ofE r)"
  by (simp add: steady_def ofE_def)

lemma steady_bindE [steady_rules]: "steady view m \<Longrightarrow> (\<And>a. steady view (k a)) \<Longrightarrow> steady view (bindE m k)"
  unfolding steady_def bindE_def by (auto split: prod.splits sum.splits) (metis snd_conv)+

lemma steady_catchE [steady_rules]: "steady view m \<Longrightarrow> (\<And>e. steady view (h e)) \<Longrightarrow> steady view (catchE m h)"
  unfolding steady_def catchE_def by (auto split: prod.splits sum.splits) (metis snd_conv)+

lemma steady_finallyE [steady_rules]: "steady view m \<Longrightarrow> steady view f \<Longrightarrow> steady view (finallyE m f)"
  unfolding steady_def finallyE_def by (auto split: prod.splits sum.splits) (metis snd_conv)+

lemma steady_if [steady_rules]: "steady view m \<Longrightarrow> steady view n \<Longrightarrow> steady view (if b then m else n)"
  by simp

lemma steady_outcome: "outcome view m c \<Longrightarrow> (\<And>s a s'. c s a s' \<Longrightarrow> s' = s) \<Longrightarrow> steady view m"
  unfolding steady_def
proof
  fix w assume c: "outcome view m c" and eq: "\<And>s a s'. c s a s' \<Longrightarrow> s' = s"
  obtain r w' where m: "m w = (r, w')" by fastforce
  show "view (snd (m w)) = view w"
  proof (cases r)
    case (Inl e)
    then show ?thesis using outcome_InlD [OF c, of w e w'] m eq by auto
  next
    case (Inr a)
    then show ?thesis using outcome_InrD [OF c, of w a w'] m eq by auto
  qed
qed

definition job_fields ::
  "('w, 't) time_api \<Rightarrow> principal \<Rightarrow> pystr \<Rightarrow> stored_blob \<Rightarrow> int \<Rightarrow> 't \<Rightarrow> (string \<times> pystr option) list" where
  "job_fields T p filename blob pages created =
     [(''filename'', Some (if filename \<noteq> [] then filename else sb_key blob)), (''path'', Some (sb_path blob)),
      (''sha256'', Some (sb_sha256 blob)), (''bytes'', Some (show_int (sb_size blob))), (''tenant'', Some (p_tenant p)),
      (''page_count'', Some (show_int pages)), (''pages_done'', Some (show_int 0)), (''attempts'', Some (show_int 0)),
      (''created_at'', Some (iso T created))]"

locale gateway = job_store view R T + file_store disk F
  for view :: "'w \<Rightarrow> store" and R :: "'w redis" and disk :: "'w \<Rightarrow> table" and F :: "'w files"
    and S :: settings and T :: "('w, 't) time_api" +
  fixes M :: "'w pymupdf" and A :: "('w, 't) app"
  assumes files_leave_store: "steady view (make_dir F p)" "steady view (open_write F p)" "steady view (write_chunk F p c)"
      "steady view (close_write F p)" "steady view (unlink F p)" "steady view (file_exists F p)" "steady view (read_bytes F p)"
    and redis_leaves_disk: "steady disk (get_key R k)" "steady disk (hset_expire R k d ttl)" "steady disk (xadd R k d b)"
      "steady disk (setex R k ttl v)" "steady disk (hgetall R k)"
    and app_leaves_store: "steady view (uuid12 A)" "steady view (utc_day A)" 
      "limiter A = Some check \<Longrightarrow> steady view (check k)" "steady view (pdf_open M p)" "steady view (pdf_close M h)"
      "steady view (fetch_job (app_pool A) k)" "steady view (fetch_pages (app_pool A) k)"
    and app_leaves_disk: "steady disk (uuid12 A)" "steady disk (utc_day A)" "steady disk (now_utc T)"
      "limiter A = Some check \<Longrightarrow> steady disk (check k)" "steady disk (pdf_open M p)" "steady disk (pdf_close M h)"
begin

lemmas steady_store [steady_rules] = files_leave_store app_leaves_store(1,2,4-7)

lemmas steady_disk [steady_rules] = redis_leaves_disk app_leaves_disk(1-3,5,6)

lemma steady_reads [steady_rules]: "steady view (hgetall R k)" "steady view (get_key R k)"
  by (rule steady_outcome [OF effect_outcome], rule hgetall_effect get_effect, simp add: does_hgetall_def does_get_def)+

lemma steady_now [steady_rules]: "steady view (now_utc T)"
  by (rule steady_outcome [OF effect_outcome], rule now_effect) (simp add: does_nothing_def)

lemma steady_limited [steady_rules]:
  "steady view (rate_limited (show_float A) (limiter A) p)" "steady disk (rate_limited (show_float A) (limiter A) p)"
  unfolding rate_limited_def
  by (cases "limiter A"; simp add: steady_rules;
      (intro steady_rules app_leaves_store(3) app_leaves_disk(4); assumption)?)+

lemma steady_quota [steady_rules]:
  "steady view (quota_check (get_key R) n tn day k)" "steady disk (quota_check (get_key R) n tn day k)"
proof -
  have body: "steady v (case x of None \<Rightarrow> retE 0 | Some t \<Rightarrow> if t = [] then retE 0
      else (case parse_int t of Some n \<Rightarrow> retE n | None \<Rightarrow> raiseE (ValueError t)))" for v :: "'w \<Rightarrow> 's" and x
    by (cases x) (auto split: option.split intro: steady_rules)
  then show "steady view (quota_check (get_key R) n tn day k)" "steady disk (quota_check (get_key R) n tn day k)"
    unfolding quota_check_def quota_used_def by (intro steady_rules body)+
qed

lemma steady_probe [steady_rules]:
  "steady view (probe_page_count M path n)" "steady disk (probe_page_count M path n)"
  unfolding probe_page_count_def by (intro steady_rules)+

lemma steady_receive [steady_rules]: "steady view (receive F dest mb cs n head fed)"
proof (induction cs arbitrary: n head fed)
  case (Cons c cs)
  then show ?case by (cases c) (auto simp: Let_def intro!: steady_rules)
qed (simp add: steady_rules)

lemma steady_put [steady_rules]: "steady view (put_stream F sha base key cs mb)"
  unfolding put_stream_def by (intro steady_rules) (auto intro!: steady_rules)

lemma steady_delete [steady_rules]: "steady view (delete_blob F base key)"
  unfolding delete_blob_def by (intro steady_rules)

lemma steady_discard [steady_rules]: "steady view (discard F S blob code detail)"
  unfolding discard_def by (intro steady_rules)

section \<open>A submission that returns\<close>

lemma steady_record_disk [steady_rules]: "steady disk (record_job R S T p fn j blob pages idem)"
  unfolding record_job_def set_status_def enqueue_def Let_def by (intro steady_rules)

lemma record_job_InrD:
  assumes "record_job R S T p fn j blob pages idem w = (Inr a, w')"
  shows "a = accepted j \<and> (\<exists>t c i. view w' = (if idem \<noteq> [] then put_value idem j else (\<lambda>s. s))
      (put_entry (queue_stream S) 0 (i, [(''job_id'', j), (''tenant'', p_tenant p)])
        (put_hash (job_key j) (status_dict T t Queued (job_fields T p fn blob pages c)) (view w))) \<and>
      s_cursor (view w) (queue_stream S) < i \<and> (\<forall>e\<in>set (s_stream (view w) (queue_stream S)). fst e < i))"
proof -
  obtain c w1 w2 w3 i where now: "now_utc T w = (Inr c, w1)"
    and st: "set_status R S T j Queued (job_fields T p fn blob pages c) w1 = (Inr (), w2)"
    and enq: "enqueue R S j [(''tenant'', p_tenant p)] w2 = (Inr i, w3)"
    and idem: "(if idem \<noteq> [] then setex R idem 86400 j else retE ()) w3 = (Inr (), w')" and a: "a = accepted j"
    using assms unfolding record_job_def job_fields_def by (auto simp: bindE_Inr_iff)
  obtain t where "view w2 = put_hash (job_key j) (status_dict T t Queued (job_fields T p fn blob pages c)) (view w)"
    using set_status_InrD [OF st] now_InrD [OF now] by auto
  moreover have "view w' = (if idem \<noteq> [] then put_value idem j else (\<lambda>s. s)) (view w3)"
    using idem by (auto split: if_splits dest: setex_InrD)
  ultimately have "view w' = (if idem \<noteq> [] then put_value idem j else (\<lambda>s. s))
      (put_entry (queue_stream S) 0 (i, [(''job_id'', j), (''tenant'', p_tenant p)])
        (put_hash (job_key j) (status_dict T t Queued (job_fields T p fn blob pages c)) (view w)))"
    "s_cursor (view w) (queue_stream S) < i" "\<forall>e\<in>set (s_stream (view w) (queue_stream S)). fst e < i"
    using enqueue_InrD [OF enq] by simp_all
  with a show ?thesis by blast
qed

lemma discard_if:
  "(if b then discard F S blob code detail else m) w = (Inr a, w') \<longleftrightarrow> \<not> b \<and> m w = (Inr a, w')"
  by (auto simp: discard_def bindE_Inr_iff)

lemma admit_blob_InrD:
  assumes "admit_blob R S T F M A p fn suff idem j blob w = (Inr a, w')"
  shows "sb_size blob \<noteq> 0 \<and> matches_extension suff (sb_head blob) \<and>
    (\<exists>pages w1. pages \<noteq> 0 \<and> view w1 = view w \<and> disk w1 = disk w \<and>
      record_job R S T p fn j blob pages idem w1 = (Inr a, w'))"
proof -
  have ok: "sb_size blob \<noteq> 0" "matches_extension suff (sb_head blob)"
    using assms unfolding admit_blob_def discard_if by simp_all
  obtain pages w1 day w2 d w3 where pages: "probe_page_count M (sb_path blob) (max_pages S) w = (Inr pages, w1)" "pages \<noteq> 0"
    and day: "utc_day A w1 = (Inr day, w2)"
    and d: "quota_check (get_key R) (quota_pages_per_day S) (p_tenant p) day pages w2 = (Inr d, w3)"
    and rec: "record_job R S T p fn j blob pages idem w3 = (Inr a, w')"
    using assms unfolding admit_blob_def discard_if bindE_Inr_iff by blast
  have "view w3 = view w"
    using steadyD [OF steady_probe(1) pages(1)] steadyD [OF app_leaves_store(2) day] steadyD [OF steady_quota(1) d] by simp
  moreover have "disk w3 = disk w"
    using steadyD [OF steady_probe(2) pages(1)] steadyD [OF app_leaves_disk(2) day] steadyD [OF steady_quota(2) d] by simp
  ultimately show ?thesis using ok pages(2) rec by blast
qed

lemma submit_new_InrD:
  assumes "submit_new R S T F M A p fn body suff idem w = (Inr a, w')"
  shows "\<exists>blob pages w1. view w1 = view w \<and> disk w' = disk w1 \<and>
    record_job R S T p fn (ja_job_id a) blob pages idem w1 = (Inr a, w') \<and> pages \<noteq> 0 \<and> sb_size blob \<noteq> 0 \<and>
    matches_extension suff (sb_head blob) \<and> sb_head blob = take HEAD_BYTES (chunk_bytes (chunks body)) \<and>
    sb_size blob = int (length (chunk_bytes (chunks body))) \<and> sb_size blob \<le> max_upload_bytes S \<and>
    (\<exists>f. disk w1 (sb_path blob) = Some f \<and> content f = chunk_bytes (chunks body)) \<and>
    (\<exists>u u'. uuid12 A u = (Inr (ja_job_id a), u'))"
proof -
  obtain j w1 where j: "uuid12 A w = (Inr j, w1)"
    and rest: "bindE (catchE (put_stream F (sha256 A) (uploads_dir S) (j @ suff) (chunks body) (Some (max_upload_bytes S)))
              (\<lambda>e. case e of UploadTooLarge n \<Rightarrow>
                  raiseE (HTTPException 413 (lit ''file exceeds '' @ show_int (max_upload_mb S) @ lit '' MB''))
                | _ \<Rightarrow> raiseE e)) (admit_blob R S T F M A p fn suff idem j) w1 = (Inr a, w')"
    using assms unfolding submit_new_def bindE_Inr_iff by blast
  obtain blob w2 where put: "put_stream F (sha256 A) (uploads_dir S) (j @ suff) (chunks body) (Some (max_upload_bytes S)) w1 = (Inr blob, w2)"
    and adm: "admit_blob R S T F M A p fn suff idem j blob w2 = (Inr a, w')"
    using rest by (auto simp: bindE_Inr_iff catchE_def split: prod.splits sum.splits exn.splits)
  note b = put_stream_InrD [OF put]
  obtain pages w3 where adm: "sb_size blob \<noteq> 0" "matches_extension suff (sb_head blob)" "pages \<noteq> 0"
    "view w3 = view w2" "disk w3 = disk w2" and rec: "record_job R S T p fn j blob pages idem w3 = (Inr a, w')"
    using admit_blob_InrD [OF adm] by blast
  have "chunks body \<noteq> []" using b adm(1) by auto
  have "view w3 = view w"
    using adm(4) steadyD [OF steady_put put] steadyD [OF app_leaves_store(1) j] by simp
  moreover have "ja_job_id a = j" using record_job_InrD [OF rec] by (auto simp: accepted_def)
  moreover have "disk w' = disk w3" by (rule steadyD [OF steady_record_disk rec])
  ultimately show ?thesis
    using b adm rec j \<open>chunks body \<noteq> []\<close> by (intro exI [of _ blob] exI [of _ pages] exI [of _ w3]) auto
qed

lemma submit_InrD:
  assumes "submit R S T F M A p fn body key w = (Inr a, w')"
  defines "suff \<equiv> lower (path_suffix (if fn \<noteq> [] then fn else lit ''upload.bin''))"
  shows "(key \<noteq> [] \<and> ja_job_id a \<noteq> [] \<and> s_value (view w) (idem_key (p_tenant p) key) = Some (ja_job_id a) \<and>
      view w' = view w \<and> a = accepted (ja_job_id a)) \<or>
    ((idem_key (p_tenant p) key \<noteq> [] \<longrightarrow> non_empty (s_value (view w) (idem_key (p_tenant p) key)) = None) \<and>
     (\<exists>w1. view w1 = view w \<and> submit_new R S T F M A p fn body suff (idem_key (p_tenant p) key) w1 = (Inr a, w')))"
proof -
  let ?idem = "idem_key (p_tenant p) key"
  obtain w1 where rl: "rate_limited (show_float A) (limiter A) p w = (Inr (), w1)"
    and rest: "bindE (if ?idem \<noteq> [] then get_key R ?idem else retE None) (\<lambda>existing.
            case non_empty existing of Some j \<Rightarrow> retE (accepted j)
            | None \<Rightarrow> submit_new R S T F M A p fn body suff ?idem) w1 = (Inr a, w')"
    using assms(1) unfolding submit_def Let_def bindE_Inr_iff suff_def [symmetric]
    by (auto simp: bindE_Inr_iff split: if_splits)
  obtain x w2 where x: "(if ?idem \<noteq> [] then get_key R ?idem else retE None) w1 = (Inr x, w2)"
    and fin: "(case non_empty x of Some j \<Rightarrow> retE (accepted j)
            | None \<Rightarrow> submit_new R S T F M A p fn body suff ?idem) w2 = (Inr a, w')"
    using rest unfolding bindE_Inr_iff by blast
  have v1: "view w1 = view w" by (rule steadyD [OF steady_limited(1) rl])
  have v2: "view w2 = view w" "?idem \<noteq> [] \<Longrightarrow> x = s_value (view w) ?idem" "?idem = [] \<Longrightarrow> x = None"
    using x v1 get_InrD [of ?idem w1 x w2] by (auto split: if_splits)
  show ?thesis
  proof (cases "non_empty x")
    case None
    then show ?thesis using fin v2 by auto
  next
    case (Some j)
    then have j: "x = Some j" "j \<noteq> []" by (auto simp: non_empty_def split: option.splits list.splits)
    then have "?idem \<noteq> []" using v2(3) by auto
    then have "key \<noteq> []" by (auto simp: idem_key_def)
    then show ?thesis using fin Some j v2 \<open>?idem \<noteq> []\<close> by (auto simp: accepted_def)
  qed
qed

lemma load_job_foreign:
  assumes "dget_or (s_hash (view w) (job_key j)) ''tenant'' (lit ''default'') \<noteq> p_tenant p"
  shows "\<exists>e w'. load_job R j p w = (Inl e, w') \<and> (e = unknown_job \<or> get_job R j w = (Inl e, w')) \<and> view w' = view w"
proof -
  obtain r w1 where get: "get_job R j w = (r, w1)" by fastforce
  have w1: "view w1 = view w"
    using steadyD [OF steady_reads(1)] get by (simp add: get_job_def)
  show ?thesis
  proof (cases r)
    case (Inr job)
    then have "job = s_hash (view w) (job_key j)" using get_job_InrD get by blast
    with get Inr w1 assms show ?thesis by (simp add: load_job_def bindE_def raiseE_def)
  qed (use get w1 in \<open>simp add: load_job_def bindE_def\<close>)
qed

lemma submit_queues:
  assumes "submit R S T F M A p fn body key w = (Inr a, w')"
    and "s_value (view w) (idem_key (p_tenant p) key) = None"
  shows "\<exists>i. s_stream (view w') = (s_stream (view w))(queue_stream S := s_stream (view w) (queue_stream S) @
      [(i, [(''job_id'', ja_job_id a), (''tenant'', p_tenant p)])]) \<and>
    s_cursor (view w') (queue_stream S) < i"
proof -
  obtain w1 where v1: "view w1 = view w" and new: "submit_new R S T F M A p fn body
      (lower (path_suffix (if fn \<noteq> [] then fn else lit ''upload.bin''))) (idem_key (p_tenant p) key) w1 = (Inr a, w')"
    using submit_InrD [OF assms(1)] assms(2) by auto
  obtain blob pages w2 where v2: "view w2 = view w" and
    rec: "record_job R S T p fn (ja_job_id a) blob pages (idem_key (p_tenant p) key) w2 = (Inr a, w')"
    using submit_new_InrD [OF new] v1 by auto
  from record_job_InrD [OF rec] v2 obtain t c i where "view w' = (if idem_key (p_tenant p) key \<noteq> []
      then put_value (idem_key (p_tenant p) key) (ja_job_id a) else (\<lambda>s. s))
      (put_entry (queue_stream S) 0 (i, [(''job_id'', ja_job_id a), (''tenant'', p_tenant p)])
        (put_hash (job_key (ja_job_id a)) (status_dict T t Queued (job_fields T p fn blob pages c)) (view w)))"
    and "s_cursor (view w) (queue_stream S) < i" by auto
  then show ?thesis by (intro exI [of _ i]) simp
qed

lemma reserve_all:
  assumes "reserve R S n w = (Inr js, w')"
    and "length (filter (\<lambda>e. s_cursor (view w) (queue_stream S) < fst e) (s_stream (view w) (queue_stream S))) \<le> n"
    and "(i, f) \<in> set (s_stream (view w) (queue_stream S))" "s_cursor (view w) (queue_stream S) < i" "dget f ''job_id'' = Some j"
  shows "\<lparr>qj_entry_id = i, qj_job_id = j, qj_deliveries = 1, qj_fields = f\<rparr> \<in> set js \<and>
    i \<in> s_pend (view w') (queue_stream S)"
proof -
  let ?waiting = "filter (\<lambda>e. s_cursor (view w) (queue_stream S) < fst e) (s_stream (view w) (queue_stream S))"
  obtain es where read: "xreadgroup R (queue_stream S) n w = (Inr es, w')"
    and js: "js = List.map_filter (\<lambda>(i, f). map_option
      (\<lambda>j. \<lparr>qj_entry_id = i, qj_job_id = j, qj_deliveries = 1, qj_fields = f\<rparr>) (dget f ''job_id'')) es"
    using assms(1) by (auto simp: reserve_def bindE_Inr_iff)
  from outcome_InrD [OF effect_outcome [OF xreadgroup_effect] read] assms(2)
  have es: "es = ?waiting" and w': "es \<noteq> [] \<Longrightarrow> fst ` set es \<subseteq> s_pend (view w') (queue_stream S)"
    by (auto simp: does_xreadgroup_def)
  have mem: "(i, f) \<in> set es" using assms(3,4) by (simp add: es)
  then have "i \<in> s_pend (view w') (queue_stream S)" using w' by force
  moreover have "\<lparr>qj_entry_id = i, qj_job_id = j, qj_deliveries = 1, qj_fields = f\<rparr> \<in> set js"
    using mem assms(5) unfolding js map_filter_def by force
  ultimately show ?thesis by blast
qed

lemma submit_keyed:
  assumes "submit R S T F M A p fn body key w = (Inr a, w')" and "key \<noteq> []"
  shows "s_value (view w') (idem_key (p_tenant p) key) = Some (ja_job_id a) \<and> a = accepted (ja_job_id a) \<and>
    (ja_job_id a \<noteq> [] \<or> (\<exists>u u'. uuid12 A u = (Inr (ja_job_id a), u')))"
proof -
  let ?idem = "idem_key (p_tenant p) key"
  have key: "?idem \<noteq> []" using assms(2) by (simp add: idem_key_def lit_def)
  show ?thesis using submit_InrD [OF assms(1)]
  proof
    assume "(?idem \<noteq> [] \<longrightarrow> non_empty (s_value (view w) ?idem) = None) \<and>
      (\<exists>w0. view w0 = view w \<and> submit_new R S T F M A p fn body
        (lower (path_suffix (if fn \<noteq> [] then fn else lit ''upload.bin''))) ?idem w0 = (Inr a, w'))"
    then obtain blob pages v u u' where rec: "record_job R S T p fn (ja_job_id a) blob pages ?idem v = (Inr a, w')"
      and "uuid12 A u = (Inr (ja_job_id a), u')"
      using submit_new_InrD by blast
    moreover have "s_value (view w') ?idem = Some (ja_job_id a)" "a = accepted (ja_job_id a)"
      using record_job_InrD [OF rec] key by auto
    ultimately show ?thesis by blast
  qed auto
qed

lemma submit_replays:
  assumes "submit R S T F M A p fn body key w = (Inr a, w')" and "key \<noteq> []"
    and "s_value (view w) (idem_key (p_tenant p) key) = Some j" "j \<noteq> []"
  shows "a = accepted j \<and> view w' = view w"
proof -
  have "idem_key (p_tenant p) key \<noteq> []" using assms(2) by (simp add: idem_key_def lit_def)
  moreover have "non_empty (Some j) = Some j" using assms(4) by simp
  ultimately show ?thesis
    using submit_InrD [OF assms(1)] assms(3) by simp
qed

end

lemma queued_fields:
  "dget (dict_update h (status_dict T t Queued (job_fields T p fn blob pages c))) ''status'' = Some (status_value Queued)"
  "dget (dict_update h (status_dict T t Queued (job_fields T p fn blob pages c))) ''tenant'' = Some (p_tenant p)"
  "dget (dict_update h (status_dict T t Queued (job_fields T p fn blob pages c))) ''path'' = Some (sb_path blob)"
  "dget (dict_update h (status_dict T t Queued (job_fields T p fn blob pages c))) ''attempts'' = Some (show_int 0)"
  "dget (dict_update h (status_dict T t Queued (job_fields T p fn blob pages c))) ''page_count'' = Some (show_int pages)"
  "dget (dict_update h (status_dict T t Queued (job_fields T p fn blob pages c))) ''created_at'' = Some (iso T c)"
  by (simp_all add: status_dict_def job_fields_def)

section \<open>Refusals\<close>

definition no_http :: "('w, 'a) prog \<Rightarrow> bool" where
  \<comment> \<open>never raises the gateway's own exception\<close>
  "no_http m \<longleftrightarrow> (\<forall>w c d. fst (m w) \<noteq> Inl (HTTPException c d))"

named_theorems no_http_rules "programs that never raise HTTPException"

lemma no_httpD: "no_http m \<Longrightarrow> m w \<noteq> (Inl (HTTPException c d), w')"
  unfolding no_http_def by (metis fst_conv)

lemma no_http_retE [no_http_rules]: "no_http (retE a)"
  by (simp add: no_http_def retE_def)

lemma no_http_bindE [no_http_rules]: "no_http m \<Longrightarrow> (\<And>a. no_http (k a)) \<Longrightarrow> no_http (bindE m k)"
  unfolding no_http_def bindE_def by (auto split: prod.splits sum.splits) (metis fst_conv)+

lemma no_http_catch [no_http_rules]: "(\<And>e. no_http (h e)) \<Longrightarrow> no_http (catchE m h)"
  unfolding no_http_def catchE_def by (auto split: prod.splits sum.splits)

lemma no_http_if [no_http_rules]: "no_http m \<Longrightarrow> no_http n \<Longrightarrow> no_http (if b then m else n)"
  by simp

lemma bindE_http:
  "bindE m k w = (Inl (HTTPException c d), w') \<Longrightarrow> no_http m \<Longrightarrow>
   \<exists>a w1. m w = (Inr a, w1) \<and> k a w1 = (Inl (HTTPException c d), w')"
  by (auto simp: bindE_def split: prod.splits sum.splits dest: no_httpD)

locale polite_gateway = gateway view R disk F S T M A
  for view :: "'w \<Rightarrow> store" and R :: "'w redis" and disk :: "'w \<Rightarrow> table" and F :: "'w files"
    and S :: settings and T :: "('w, 't) time_api" and M :: "'w pymupdf" and A :: "('w, 't) app" +
  assumes polite [no_http_rules]: "no_http (get_key R k)" "no_http (hset_expire R k d ttl)" "no_http (xadd R k d b)"
      "no_http (setex R k ttl v)" "no_http (now_utc T)" "no_http (utc_day A)" "no_http (uuid12 A)"
    and removable: "fst (unlink F q w) = Inr ()"
begin

lemma no_http_record [no_http_rules]: "no_http (record_job R S T p fn j blob pages idem)"
  unfolding record_job_def set_status_def enqueue_def Let_def by (intro no_http_rules)

lemma no_http_probe [no_http_rules]: "no_http (probe_page_count M path n)"
  unfolding probe_page_count_def by (intro no_http_rules)

lemma no_http_quota [no_http_rules]: "no_http (quota_check (get_key R) n tn day k)"
  unfolding quota_check_def quota_used_def by (intro no_http_rules)

definition untouched :: "'w \<Rightarrow> 'w \<Rightarrow> bool" where
  "untouched w w' \<longleftrightarrow> view w' = view w \<and> (\<forall>q. disk w' q = disk w q \<or> disk w' q = None)"

lemma untouched_same: "view w' = view w \<Longrightarrow> disk w' = disk w \<Longrightarrow> untouched w w'"
  by (simp add: untouched_def)

lemma discard_removes:
  assumes "path_for (uploads_dir S) (sb_key blob) = Inr (sb_path blob)"
    and "discard F S blob code detail w = (r, w')"
  shows "view w' = view w \<and> disk w' = (disk w)(sb_path blob := None)"
proof -
  obtain w1 where u: "unlink F (sb_path blob) w = (Inr (), w1)"
    using removable [of "sb_path blob" w] by (metis (full_types) prod.collapse)
  then have "w' = w1"
    using assms by (auto simp: discard_def delete_blob_def bindE_def ofE_def raiseE_def)
  moreover have "disk w1 q = disk w q" if "q \<noteq> sb_path blob" for q
    using touches(6) [of "sb_path blob"] u that unfolding touches_only_def by (metis singletonD snd_conv)
  ultimately show ?thesis
    using unlinked [OF u] steadyD [OF files_leave_store(5) u] by auto
qed

lemma admit_blob_refuses:
  assumes "admit_blob R S T F M A p fn suff idem j blob w = (Inl (HTTPException c d), w')"
    and "path_for (uploads_dir S) (sb_key blob) = Inr (sb_path blob)"
  shows "view w' = view w \<and> disk w' = (disk w)(sb_path blob := None)"
proof -
  let ?probe = "probe_page_count M (sb_path blob) (max_pages S)"
  let ?quota = "quota_check (get_key R) (quota_pages_per_day S) (p_tenant p)"
  consider r detail where "discard F S blob r detail w = (Inl (HTTPException c d) :: exn + job_accepted, w')"
    | pages w1 r detail where "?probe w = (Inr pages, w1)" "discard F S blob r detail w1 = (Inl (HTTPException c d) :: exn + job_accepted, w')"
    | pages w1 day w2 e w3 r detail where "?probe w = (Inr pages, w1)" "utc_day A w1 = (Inr day, w2)"
        "?quota day pages w2 = (Inr e, w3)" "discard F S blob r detail w3 = (Inl (HTTPException c d) :: exn + job_accepted, w')"
  proof (cases "sb_size blob = 0 \<or> \<not> matches_extension suff (sb_head blob)")
    case True
    then have "\<exists>r detail. discard F S blob r detail w = (Inl (HTTPException c d) :: exn + job_accepted, w')"
      using assms(1) unfolding admit_blob_def by (cases "sb_size blob = 0") (simp_all, blast+)
    then show ?thesis using that(1) by blast
  next
    case False
    then have "bindE ?probe (\<lambda>pages. if pages = 0 then discard F S blob 400 (lit ''unreadable or encrypted document'')
        else bindE (utc_day A) (\<lambda>day. bindE (?quota day pages) (\<lambda>d. if \<not> ok d then discard F S blob 429
          (lit ''daily page quota exhausted ('' @ show_int (quota_pages_per_day S) @ lit '' pages/day)'')
        else record_job R S T p fn j blob pages idem))) w = (Inl (HTTPException c d), w')"
      using assms(1) by (simp add: admit_blob_def)
    from bindE_http [OF this no_http_probe] obtain pages w1 where pages: "?probe w = (Inr pages, w1)"
      and next1: "(if pages = 0 then discard F S blob 400 (lit ''unreadable or encrypted document'')
        else bindE (utc_day A) (\<lambda>day. bindE (?quota day pages) (\<lambda>d. if \<not> ok d then discard F S blob 429
          (lit ''daily page quota exhausted ('' @ show_int (quota_pages_per_day S) @ lit '' pages/day)'')
        else record_job R S T p fn j blob pages idem))) w1 = (Inl (HTTPException c d), w')" by blast
    show ?thesis
    proof (cases "pages = 0")
      case True
      then show ?thesis using pages next1 that(2) by simp
    next
      case False
      then have "bindE (utc_day A) (\<lambda>day. bindE (?quota day pages) (\<lambda>d. if \<not> ok d then discard F S blob 429
          (lit ''daily page quota exhausted ('' @ show_int (quota_pages_per_day S) @ lit '' pages/day)'')
        else record_job R S T p fn j blob pages idem)) w1 = (Inl (HTTPException c d), w')" using next1 by simp
      from bindE_http [OF this polite(6)] obtain day w2 where day: "utc_day A w1 = (Inr day, w2)"
        and next2: "bindE (?quota day pages) (\<lambda>d. if \<not> ok d then discard F S blob 429
          (lit ''daily page quota exhausted ('' @ show_int (quota_pages_per_day S) @ lit '' pages/day)'')
        else record_job R S T p fn j blob pages idem) w2 = (Inl (HTTPException c d), w')" by blast
      from bindE_http [OF next2 no_http_quota] obtain e w3 where e: "?quota day pages w2 = (Inr e, w3)"
        and next3: "(if \<not> ok e then discard F S blob 429
          (lit ''daily page quota exhausted ('' @ show_int (quota_pages_per_day S) @ lit '' pages/day)'')
        else record_job R S T p fn j blob pages idem) w3 = (Inl (HTTPException c d), w')" by blast
      have "\<not> ok e" using next3 no_httpD [OF no_http_record] by (auto split: if_splits)
      then show ?thesis using pages day e next3 that(3) by simp
    qed
  qed
  then show ?thesis
  proof cases
    case 1
    then show ?thesis using discard_removes [OF assms(2)] by blast
  next
    case 2
    then show ?thesis
      using discard_removes [OF assms(2) 2(2)] steadyD [OF steady_probe(1) 2(1)] steadyD [OF steady_probe(2) 2(1)] by simp
  next
    case 3
    then show ?thesis
      using discard_removes [OF assms(2) 3(4)] steadyD [OF steady_probe(1) 3(1)] steadyD [OF steady_probe(2) 3(1)]
        steadyD [OF app_leaves_store(2) 3(2)] steadyD [OF app_leaves_disk(2) 3(2)]
        steadyD [OF steady_quota(1) 3(3)] steadyD [OF steady_quota(2) 3(3)] by simp
  qed
qed

lemma submit_new_refuses:
  assumes "submit_new R S T F M A p fn body suff idem w = (Inl (HTTPException c d), w')"
    and body: "\<forall>e\<in>set body. \<forall>c d. e \<noteq> Inl (HTTPException c d)"
  shows "untouched w w'"
proof -
  let ?max = "Some (max_upload_bytes S)"
  obtain j w1 where j: "uuid12 A w = (Inr j, w1)"
    and rest: "bindE (catchE (put_stream F (sha256 A) (uploads_dir S) (j @ suff) (chunks body) ?max)
              (\<lambda>e. case e of UploadTooLarge n \<Rightarrow>
                  raiseE (HTTPException 413 (lit ''file exceeds '' @ show_int (max_upload_mb S) @ lit '' MB''))
                | _ \<Rightarrow> raiseE e)) (admit_blob R S T F M A p fn suff idem j) w1 = (Inl (HTTPException c d), w')"
    using bindE_http [OF assms(1) [unfolded submit_new_def] polite(7)] by blast
  have w1: "view w1 = view w" "disk w1 = disk w"
    using steadyD [OF app_leaves_store(1) j] steadyD [OF app_leaves_disk(1) j] by simp_all
  obtain r w2 where put: "put_stream F (sha256 A) (uploads_dir S) (j @ suff) (chunks body) ?max w1 = (r, w2)" by fastforce
  have v2: "view w2 = view w" using steadyD [OF steady_put put] w1 by simp
  show ?thesis
  proof (cases r)
    case (Inl e)
    then have "w' = w2" using rest put by (auto simp: bindE_def catchE_def raiseE_def split: exn.splits)
    then show ?thesis
      using put_stream_InlD [OF put [unfolded Inl] removable] v2 w1 by (auto simp: untouched_def split: if_splits)
  next
    case (Inr blob)
    then have adm: "admit_blob R S T F M A p fn suff idem j blob w2 = (Inl (HTTPException c d), w')"
      using rest put by (simp add: bindE_def catchE_def)
    note b = put_stream_InrD [OF put [unfolded Inr]]
    then have "path_for (uploads_dir S) (sb_key blob) = Inr (sb_path blob)" by auto
    from admit_blob_refuses [OF adm this] b v2 w1 show ?thesis by (auto simp: untouched_def split: if_splits)
  qed
qed

lemma submit_refuses:
  assumes "submit R S T F M A p fn body key w = (Inl (HTTPException c d), w')"
    and body: "\<forall>e\<in>set body. \<forall>c d. e \<noteq> Inl (HTTPException c d)"
  shows "untouched w w'"
proof -
  let ?suff = "lower (path_suffix (if fn \<noteq> [] then fn else lit ''upload.bin''))"
  let ?idem = "idem_key (p_tenant p) key"
  let ?limit = "rate_limited (show_float A) (limiter A) p"
  obtain r w1 where rl: "?limit w = (r, w1)" by fastforce
  have w1: "view w1 = view w" "disk w1 = disk w"
    using steadyD [OF steady_limited(1) rl] steadyD [OF steady_limited(2) rl] by simp_all
  show ?thesis
  proof (cases "\<exists>u. r = Inr u \<and> ?suff \<in> set ALLOWED_SUFFIXES")
    case False
    then have "w' = w1"
      using assms(1) rl by (cases r) (auto simp: submit_def bindE_def Let_def raiseE_def)
    then show ?thesis using w1 by (simp add: untouched_def)
  next
    case True
    then have "bindE (if ?idem \<noteq> [] then get_key R ?idem else retE None) (\<lambda>existing.
            case non_empty existing of Some j \<Rightarrow> retE (accepted j)
            | None \<Rightarrow> submit_new R S T F M A p fn body ?suff ?idem) w1 = (Inl (HTTPException c d), w')"
      using assms(1) rl by (auto simp: submit_def bindE_def [of ?limit] Let_def)
    from bindE_http [OF this] obtain x w2 where
      x: "(if ?idem \<noteq> [] then get_key R ?idem else retE None) w1 = (Inr x, w2)"
      and fin: "(case non_empty x of Some j \<Rightarrow> retE (accepted j)
            | None \<Rightarrow> submit_new R S T F M A p fn body ?suff ?idem) w2 = (Inl (HTTPException c d), w')"
      by (auto intro: no_http_rules polite split: if_splits)
    have w2: "view w2 = view w" "disk w2 = disk w"
      using x w1 steadyD [OF steady_reads(2)] steadyD [OF redis_leaves_disk(1)] by (auto split: if_splits)
    have "submit_new R S T F M A p fn body ?suff ?idem w2 = (Inl (HTTPException c d), w')"
      using fin by (cases "non_empty x") (auto simp: retE_def)
    from submit_new_refuses [OF this body] w2 show ?thesis by (simp add: untouched_def)
  qed
qed

end

end
