(* ===== verification/Gateway_Run.thy ===== *)
theory Gateway_Run
  imports Gateway_Safety
begin

text \<open>
  The gateway on the in-memory Redis server and file system, an interpretation of both interfaces,
  and the properties of its handlers: what an accepted upload leaves behind, that a refused one
  leaves nothing, replays, the separation of tenants.
\<close>

section \<open>The gateway in memory\<close>

definition world_time :: "(mem_world, nat) time_api" where
  "world_time = \<lparr>iso = show_nat,
     from_iso = (\<lambda>t. case parse_int t of Some n \<Rightarrow> Inr (nat n) | None \<Rightarrow> Inl (ValueError t)),
     now_utc = getE clock, seconds_since = (\<lambda>a b. Inr (of_nat a - of_nat b)), perf = getE (\<lambda>w. of_nat (clock w))\<rparr>"

definition world_app :: "(mem_world, nat) app" where
  \<comment> \<open>every key may send two requests per run\<close>
  "world_app = \<lparr>limiter = Some (\<lambda>k. retE open_decision), show_float = (\<lambda>x. []),
     uuid12 = getE (\<lambda>w. [106, 48 + clock w mod 10]), sha256 = (\<lambda>d. show_nat (length d)),
     utc_day = retE (lit ''20250101''),
     app_pool = \<lparr>create_pool = retE (), select_one = retE 1, transaction = (\<lambda>f. raiseE (OSError [])),
       fetch_job = (\<lambda>k. retE None), fetch_pages = (\<lambda>k. retE []), select_recent = (\<lambda>t n. retE [])\<rparr>,
     app_db = \<lparr>enabled = False, connected = False\<rparr>, load_json = (\<lambda>t. Inr JNull), decode = (\<lambda>t. Inr [])\<rparr>"

lemma steady_getE: "steady view (getE f)"
  by (simp add: steady_def getE_def)

lemma steady_modE: "(\<And>w. view (f w) = view w) \<Longrightarrow> steady view (modE f)"
  by (simp add: steady_def modE_def)

lemma steady_run_command: "steady disk_of (run_command f)"
  by (auto simp: steady_def run_command_def disk_of_def Let_def split: prod.split list.split fault.split)

lemma steady_with_file: "(\<And>f. steady view (k f)) \<Longrightarrow> steady view (with_file p k)"
  unfolding with_file_def by (intro steady_rules steady_getE) (auto split: option.split intro: steady_rules)

lemma no_http_run_command: "no_http (run_command f)"
  by (auto simp: no_http_def run_command_def Let_def split: prod.split list.split fault.split)

lemma disk_of_other: "disk_of (w\<lparr>db := d\<rparr>) = disk_of w" "disk_of (w\<lparr>faults := fs\<rparr>) = disk_of w"
  "disk_of (w\<lparr>clock := t\<rparr>) = disk_of w"
  by (simp_all add: disk_of_def)

lemma fst_modE: "fst (modE f w) = Inr ()"
  by (simp add: modE_def)

lemma db_put_file: "db (put_file p c w) = db w" "faults (put_file p c w) = faults w" "clock (put_file p c w) = clock w"
  by (simp_all add: put_file_def)

lemma no_http_getE: "no_http (getE f)"
  by (simp add: no_http_def getE_def)

interpretation mem_gateway: polite_gateway db mem_redis disk_of mem_files S world_time sample_pymupdf world_app
  for S :: settings
proof unfold_locales
  show "effect db (now_utc world_time) does_nothing"
    by (simp add: world_time_def effect_def outcome_def does_nothing_def quiet_def tri_def getE_def)
  show "limiter world_app = Some check \<Longrightarrow> steady db (check k)" "limiter world_app = Some check \<Longrightarrow> steady disk_of (check k)"
    for check k by (auto simp: world_app_def steady_rules)
qed (simp_all add: mem_files_def mem_redis_def world_time_def world_app_def sample_pymupdf_def steady_rules steady_getE
    steady_modE steady_run_command steady_with_file no_http_rules no_http_run_command no_http_getE fst_modE
    db_put_file)


section \<open>Submission\<close>

lemma matches_extension_take: "matches_extension suff (take HEAD_BYTES b) = matches_extension suff b"
  by (simp add: matches_extension_def sniff_take HEAD_BYTES_def)

text \<open>
  C2. An accepted upload is stored, recorded and queued. When \<open>submit\<close> returns and the answer is not
  the replay of an earlier one, the new job's hash has status \<open>queued\<close>, the tenant of the caller
  and the path of the upload; the file at that path holds exactly the received bytes, is not empty, is
  within the limit and has the type its name claims; the queue has one entry more, for this job, which no
  worker has been given yet; no other hash, no other queue and no pending list has changed; and the
  idempotency key, if there is one, leads to the job.
\<close>

theorem accepted_upload_is_queued:
  assumes "gateway view R disk F T M A"
    and "submit R S T F M A p fn body key w = (Inr a, w')"
    and "s_value (view w) (idem_key (p_tenant p) key) = None"
  shows "a = accepted (ja_job_id a) \<and>
    (\<exists>path f i. let h = s_hash (view w') (job_key (ja_job_id a)); bytes = chunk_bytes (chunks body) in
      dget h ''status'' = Some (status_value Queued) \<and> dget h ''tenant'' = Some (p_tenant p) \<and>
      dget h ''path'' = Some path \<and> disk w' path = Some f \<and> content f = bytes \<and>
      bytes \<noteq> [] \<and> int (length bytes) \<le> max_upload_bytes S \<and>
      matches_extension (lower (path_suffix (if fn \<noteq> [] then fn else lit ''upload.bin''))) bytes \<and>
      (\<forall>k. k \<noteq> job_key (ja_job_id a) \<longrightarrow> s_hash (view w') k = s_hash (view w) k) \<and>
      s_stream (view w') = (s_stream (view w))(queue_stream S :=
        s_stream (view w) (queue_stream S) @ [(i, [(''job_id'', ja_job_id a), (''tenant'', p_tenant p)])]) \<and>
      s_cursor (view w') = s_cursor (view w) \<and> s_cursor (view w) (queue_stream S) < i \<and>
      s_pend (view w') = s_pend (view w) \<and>
      (key \<noteq> [] \<longrightarrow> s_value (view w') (idem_key (p_tenant p) key) = Some (ja_job_id a)))"
proof -
  let ?suff = "lower (path_suffix (if fn \<noteq> [] then fn else lit ''upload.bin''))"
  let ?idem = "idem_key (p_tenant p) key"
  obtain w1 where v1: "view w1 = view w"
    and new: "submit_new R S T F M A p fn body ?suff ?idem w1 = (Inr a, w')"
    using gateway.submit_InrD [OF assms(1,2)] assms(3) by auto
  obtain blob pages w2 f where v2: "view w2 = view w" and d2: "disk w' = disk w2"
    and rec: "record_job R S T p fn (ja_job_id a) blob pages ?idem w2 = (Inr a, w')"
    and size: "sb_size blob \<noteq> 0" "sb_size blob = int (length (chunk_bytes (chunks body)))" "sb_size blob \<le> max_upload_bytes S"
    and type: "matches_extension ?suff (sb_head blob)" "sb_head blob = take HEAD_BYTES (chunk_bytes (chunks body))"
    and f: "disk w2 (sb_path blob) = Some f" "content f = chunk_bytes (chunks body)"
    using gateway.submit_new_InrD [OF assms(1) new] v1 by auto
  obtain t c i where store: "view w' = (if ?idem \<noteq> [] then put_value ?idem (ja_job_id a) else (\<lambda>s. s))
      (put_entry (queue_stream S) 0 (i, [(''job_id'', ja_job_id a), (''tenant'', p_tenant p)])
        (put_hash (job_key (ja_job_id a)) (status_dict T t Queued (job_fields T p fn blob pages c)) (view w)))"
    and i: "s_cursor (view w) (queue_stream S) < i" and a: "a = accepted (ja_job_id a)"
    using gateway.record_job_InrD [OF assms(1) rec] v2 by auto
  have idem: "?idem \<noteq> [] \<longleftrightarrow> key \<noteq> []" by (simp add: idem_key_def lit_def)
  have bytes: "matches_extension ?suff (chunk_bytes (chunks body))" "chunk_bytes (chunks body) \<noteq> []"
    "int (length (chunk_bytes (chunks body))) \<le> max_upload_bytes S"
    using type size by (auto simp: matches_extension_take)
  show ?thesis
    by (rule conjI [OF a], rule exI [of _ "sb_path blob"], rule exI [of _ f], rule exI [of _ i])
      (use bytes f i idem in \<open>simp add: store Let_def queued_fields d2 del: status_value.simps\<close>)
qed

definition sample_png :: "byte list" where
  "sample_png = [0x89, 0x50, 0x4e, 0x47, 0x0d, 0x0a, 0x1a, 0x0a]"

definition sample_user :: principal where
  "sample_user = \<lparr>p_api_key = lit ''k1'', p_tenant = lit ''acme''\<rparr>"

abbreviation "mem_submit \<equiv> submit mem_redis default_settings world_time mem_files sample_pymupdf world_app"

lemma sample_gate:
  "lower (path_suffix (lit ''a.png'')) = lit ''.png''" "lit ''.png'' \<in> set ALLOWED_SUFFIXES"
  "matches_extension (lit ''.png'') sample_png" "lower (lit ''.png'') \<noteq> PDF_SUFFIX"
  "path_suffix (lit ''storage/uploads/j6.png'') = lit ''.png''" "path_suffix (lit ''storage/uploads/j5.png'') = lit ''.png''"
  by (simp_all add: path_suffix_def path_name_def PDF_SUFFIX_def lower1_def py_simps ALLOWED_SUFFIXES_def
      matches_extension_def sample_png_def sniff_def startswith_def extension_kinds_def)


lemma sample_submit:
  "\<exists>a w'. mem_submit sample_user (lit ''a.png'') [Inr sample_png, Inr []] (lit ''k'') empty_world = (Inr a, w') \<and>
     faults w' = [] \<and> ja_job_id a \<noteq> []"
  unfolding submit_def Let_def sample_gate(1)
  using sample_gate
  by (simp add: rate_limited_def world_app_def open_decision_def idem_key_def py_simps mem_redis_def run_command_def
      prog_defs empty_world_def submit_new_def put_stream_def path_for_def mem_files_def with_file_def Let_def
      admit_blob_def probe_page_count_def quota_check_def quota_used_def quota_key_def record_job_def set_status_def 
      enqueue_def world_time_def discard_def HEAD_BYTES_def startswith_def uploads_dir_def slash_def default_settings_def
      max_upload_bytes_def lower1_def PDF_SUFFIX_def sample_png_def db_put_file accepted_def)

lemma accepted_upload_is_queued_witness:
  "\<exists>a w'. mem_submit sample_user (lit ''a.png'') [Inr sample_png, Inr []] (lit ''k'') empty_world = (Inr a, w') \<and>
     dget (s_hash (db w') (job_key (ja_job_id a))) ''tenant'' = Some (lit ''acme'')"
proof -
  obtain a w' where run: "mem_submit sample_user (lit ''a.png'') [Inr sample_png, Inr []] (lit ''k'') empty_world = (Inr a, w')"
    using sample_submit by blast
  have "s_value (db empty_world) x = None" for x by (simp add: empty_world_def)
  from accepted_upload_is_queued [OF mem_gateway.gateway_axioms run this] have
    "dget (s_hash (db w') (job_key (ja_job_id a))) ''tenant'' = Some (p_tenant sample_user)"
    by (auto simp: Let_def)
  with run show ?thesis by (auto simp: sample_user_def)
qed


lemma sample_refusal:
  "\<exists>d w'. mem_submit sample_user (lit ''a.png'') [Inr [37, 80, 68, 70, 45]] [] empty_world = (Inl (HTTPException 415 d), w')"
  unfolding submit_def Let_def sample_gate(1)
  using sample_gate
  by (simp add: rate_limited_def world_app_def open_decision_def idem_key_def py_simps
      prog_defs empty_world_def submit_new_def put_stream_def path_for_def mem_files_def with_file_def Let_def
      admit_blob_def discard_def HEAD_BYTES_def startswith_def uploads_dir_def slash_def default_settings_def
      max_upload_bytes_def lower1_def PDF_SUFFIX_def db_put_file matches_extension_def extension_kinds_def sniff_def
      delete_blob_def)



lemma sample_replay:
  assumes "faults w = []" "s_value (db w) (idem_key (p_tenant p) key) = Some j" "j \<noteq> []" "key \<noteq> []"
  shows "\<exists>w'. mem_submit p (lit ''a.png'') body key w = (Inr (accepted j), w')"
proof -
  have "idem_key (p_tenant p) key \<noteq> []" "lit ''a.png'' \<noteq> []" using assms(4) by (simp_all add: idem_key_def lit_def)
  then show ?thesis
    unfolding submit_def Let_def
    using sample_gate(2) assms
    by (simp add: sample_gate(1) rate_limited_def world_app_def open_decision_def mem_redis_def run_command_def prog_defs Let_def)
qed


text \<open>
  Tenants that contain a colon share keys. A tenant may be named \<open>a:b\<close> (the key map splits an entry
  at its first colon only), and the idempotency key concatenates tenant and key with colons: a
  submission of tenant \<open>a:b\<close> with key \<open>x\<close> is answered with the job that tenant \<open>a\<close> submitted with key
  \<open>b:x\<close>, a job of somebody else, and its document is dropped.
\<close>

theorem colon_tenant_gets_foreign_job:
  assumes "gateway view R disk F T M A" and "key \<noteq> []" and "p_tenant q = p_tenant p @ 58 # b"
    and "s_value (view w) (idem_key (p_tenant p) (b @ 58 # key)) = Some j" and "j \<noteq> []"
    and "submit R S T F M A q fn body key w = (Inr a, w')"
  shows "a = accepted j \<and> view w' = view w"
proof -
  have "idem_key (p_tenant q) key = idem_key (p_tenant p) (b @ 58 # key)"
    using assms(2) by (simp add: idem_key_def assms(3) lit_def)
  with gateway.submit_replays [OF assms(1,6,2)] assms(4,5) show ?thesis by simp
qed

lemma colon_tenant_gets_foreign_job_witness:
  "\<exists>w a w'. mem_submit \<lparr>p_api_key = lit ''k2'', p_tenant = lit ''a:b''\<rparr> (lit ''a.png'') [] (lit ''x'') w = (Inr a, w') \<and>
     s_value (db w) (idem_key (lit ''a'') (lit ''b:x'')) = Some (lit ''j1'') \<and> ja_job_id a = lit ''j1'' \<and> db w' = db w"
proof -
  let ?q = "\<lparr>p_api_key = lit ''k2'', p_tenant = lit ''a:b''\<rparr>" and ?p = "\<lparr>p_api_key = lit ''k1'', p_tenant = lit ''a''\<rparr>"
  let ?w = "empty_world\<lparr>db := (db empty_world)\<lparr>s_value := (\<lambda>k. Some (lit ''j1''))\<rparr>\<rparr>"
  have q: "lit ''x'' \<noteq> []" "p_tenant ?q = p_tenant ?p @ 58 # lit ''b''" "lit ''j1'' \<noteq> []" "faults ?w = []"
    "s_value (db ?w) k = Some (lit ''j1'')" for k
    by (simp_all add: py_simps empty_world_def)
  from sample_replay [OF q(4,5,3,1)] obtain w' where
    run: "mem_submit ?q (lit ''a.png'') [] (lit ''x'') ?w = (Inr (accepted (lit ''j1'')), w')" by blast
  from colon_tenant_gets_foreign_job [OF mem_gateway.gateway_axioms q(1,2,5,3) run]
  have "db w' = db ?w" by blast
  moreover have "ja_job_id (accepted (lit ''j1'')) = lit ''j1''" by (simp add: accepted_def)
  ultimately show ?thesis using run q(5) by blast
qed

text \<open>
  A failed append strands the job. \<open>submit\<close> records the job before it appends it to the queue and
  undoes nothing: when only the append fails, the client gets an error, the job's status stays \<open>queued\<close>
  although no queue holds it, and the upload stays on disk.
\<close>

theorem failed_enqueue_strands_job:
  "\<exists>w'. mem_submit sample_user (lit ''a.png'') [Inr sample_png] []
      (empty_world\<lparr>faults := [Fine, Fine, Before (lit ''reset'')]\<rparr>) = (Inl (ConnectionError (lit ''reset'')), w') \<and>
    dget (s_hash (db w') (job_key (lit ''j5''))) ''status'' = Some (status_value Queued) \<and>
    s_stream (db w') = (\<lambda>k. []) \<and> disk_of w' (lit ''storage/uploads/j5.png'') \<noteq> None"
  unfolding submit_def Let_def sample_gate(1)
  using sample_gate
  by (simp add: rate_limited_def world_app_def open_decision_def idem_key_def py_simps mem_redis_def run_command_def
      prog_defs empty_world_def submit_new_def put_stream_def path_for_def mem_files_def with_file_def Let_def
      admit_blob_def probe_page_count_def quota_check_def quota_used_def quota_key_def record_job_def set_status_def 
      enqueue_def world_time_def discard_def HEAD_BYTES_def startswith_def uploads_dir_def slash_def default_settings_def
      max_upload_bytes_def lower1_def PDF_SUFFIX_def sample_png_def db_put_file accepted_def job_key_def
      disk_of_other dget_def)

text \<open>
  C19. An accepted job reaches a worker. When a submission has been accepted, a worker that reserves at least as
  many jobs as wait in the queue is given the new one, with its id and tenant, and the entry is in
  the pending list until it is acknowledged.
\<close>

theorem accepted_job_is_delivered:
  assumes "gateway view R disk F T M A"
    and "submit R S T F M A p fn body key w = (Inr a, w1)"
    and "s_value (view w) (idem_key (p_tenant p) key) = None"
    and "view w2 = view w1" and "reserve R S n w2 = (Inr js, w3)"
    and "length (filter (\<lambda>e. s_cursor (view w2) (queue_stream S) < fst e) (s_stream (view w2) (queue_stream S))) \<le> n"
  shows "\<exists>job\<in>set js. qj_job_id job = ja_job_id a \<and> dget (qj_fields job) ''tenant'' = Some (p_tenant p) \<and>
    qj_entry_id job \<in> s_pend (view w3) (queue_stream S)"
proof -
  obtain i where q: "s_stream (view w1) = (s_stream (view w))(queue_stream S := s_stream (view w) (queue_stream S) @
      [(i, [(''job_id'', ja_job_id a), (''tenant'', p_tenant p)])])" and c: "s_cursor (view w1) (queue_stream S) < i"
    using gateway.submit_queues [OF assms(1-3)] by blast
  have i: "(i, [(''job_id'', ja_job_id a), (''tenant'', p_tenant p)]) \<in> set (s_stream (view w1) (queue_stream S))"
    by (simp add: q)
  let ?f = "[(''job_id'', ja_job_id a), (''tenant'', p_tenant p)]"
  have "dget ?f ''job_id'' = Some (ja_job_id a)" by (simp add: dget_def)
  from gateway.reserve_all [OF assms(1,5,6) i [folded assms(4)] c [folded assms(4)] this]
  show ?thesis by (intro bexI) (auto simp: dget_def)
qed

lemma accepted_job_is_delivered_witness:
  "\<exists>a w1 js w2. mem_submit sample_user (lit ''a.png'') [Inr sample_png, Inr []] (lit ''k'') empty_world = (Inr a, w1) \<and>
     reserve mem_redis default_settings 1 w1 = (Inr js, w2) \<and> (\<exists>job\<in>set js. qj_job_id job = ja_job_id a)"
proof -
  obtain a w1 where run: "mem_submit sample_user (lit ''a.png'') [Inr sample_png, Inr []] (lit ''k'') empty_world = (Inr a, w1)"
    and w1: "faults w1 = []"
    using sample_submit by blast
  have none: "s_value (db empty_world) x = None" for x by (simp add: empty_world_def)
  obtain i where "s_stream (db w1) = (s_stream (db empty_world))(queue_stream default_settings :=
        s_stream (db empty_world) (queue_stream default_settings) @ [(i, [(''job_id'', ja_job_id a), (''tenant'', p_tenant sample_user)])])"
    using mem_gateway.submit_queues [OF run none] by blast
  then have one: "length (filter (\<lambda>e. s_cursor (db w1) (queue_stream default_settings) < fst e)
      (s_stream (db w1) (queue_stream default_settings))) \<le> 1"
    by (simp add: empty_world_def)
  obtain js w2 where res: "reserve mem_redis default_settings 1 w1 = (Inr js, w2)"
    using w1 by (simp add: reserve_def mem_redis_def run_command_def prog_defs Let_def)
  from accepted_job_is_delivered [OF mem_gateway.gateway_axioms run none refl res one] run res
  show ?thesis by blast
qed



end
