(* ===== verification/Streaming.thy ===== *)
theory Streaming
  imports Gateway
begin

text \<open>
  The streaming endpoints of \<open>gateway/main.py\<close>. A generator is a program over what its consumer does
  with a value it yields; \<open>client\<close> is the connection: what is sent, and whether the client is gone.
  The loops run until the job ends, which may be never: their first argument bounds the number of
  rounds, and the answer \<open>False\<close> means that the stream is still open after that many rounds.
\<close>

record 'w client =
  disconnected :: "('w, bool) prog"
  send :: "pystr \<Rightarrow> ('w, unit) prog"

record 'w slots =
  locked :: "('w, bool) prog"
  acquire :: "('w, unit) prog"
  release :: "('w, unit) prog"

section \<open>Frames\<close>

fun sid_text :: "sid \<Rightarrow> pystr" where
  "sid_text (a, b) = show_nat a @ [45] @ show_nat b"

definition id_text :: "sid option \<Rightarrow> pystr" where
  "id_text i = (case i of None \<Rightarrow> lit ''None'' | Some i \<Rightarrow> sid_text i)"

definition event_json :: "'t stream_event \<Rightarrow> json" where
  "event_json ev = JObj [(lit ''type'', JStr (event_value (ev_type ev))), (lit ''job_id'', JStr (ev_job_id ev)),
     (lit ''page'', case ev_page ev of None \<Rightarrow> JNull | Some p \<Rightarrow> JInt p), (lit ''data'', JStr (ev_data ev)),
     (lit ''seq'', JInt (ev_seq ev))]"

definition no_float :: "rat \<Rightarrow> pystr" where
  \<comment> \<open>no event holds a float\<close>
  "no_float x = []"

definition sse :: "'t stream_event \<Rightarrow> pystr" where
  "sse ev = lit ''id: '' @ id_text (ev_id ev) @ [10] @ lit ''event: '' @ event_value (ev_type ev) @ [10] @
     lit ''data: '' @ dumps no_float (event_json ev) @ [10, 10]"

definition keepalive :: pystr where
  "keepalive = lit '': keepalive'' @ [10, 10]"

definition status_json :: "pystr \<Rightarrow> pystr \<Rightarrow> json" where
  "status_json job_id st = JObj [(lit ''job_id'', JStr job_id), (lit ''status'', JStr st)]"

definition named_frame :: "string \<Rightarrow> json \<Rightarrow> pystr" where
  \<comment> \<open>the frames without an id: \<open>status\<close> and \<open>end\<close>\<close>
  "named_frame name v = lit ''event: '' @ lit name @ [10] @ lit ''data: '' @ dumps_ascii no_float v @ [10, 10]"

section \<open>The event source\<close>

fun emit_batch ::
  "('t stream_event option \<Rightarrow> ('w, unit) prog) \<Rightarrow> 't stream_event list \<Rightarrow> cursor \<Rightarrow> ('w, cursor option) prog" where
  \<comment> \<open>\<open>None\<close>: a terminal event has been yielded\<close>
  "emit_batch emit [] c = retE (Some c)"
| "emit_batch emit (ev # evs) c = bindE (emit (Some ev)) (\<lambda>_.
     if event_terminal (ev_type ev) then retE None
     else emit_batch emit evs (case ev_id ev of Some i \<Rightarrow> From_id i | None \<Rightarrow> c))"

definition job_over :: "dict \<Rightarrow> exn + bool" where
  \<comment> \<open>\<open>not job or JobStatus(job.get("status", "queued")).terminal\<close>\<close>
  "job_over job = (if job = [] then Inr True
     else map_sum id terminal (parse_status (dget_or job ''status'' (status_value Queued))))"

fun event_source ::
  "nat \<Rightarrow> 'w redis \<Rightarrow> ('w, 't) time_api \<Rightarrow> ('w, bool) prog \<Rightarrow> ('t stream_event option \<Rightarrow> ('w, unit) prog) \<Rightarrow>
   pystr \<Rightarrow> cursor \<Rightarrow> ('w, bool) prog" where
  "event_source 0 R T gone emit job_id c = retE False"
| "event_source (Suc rounds) R T gone emit job_id c = bindE gone (\<lambda>g. if g then retE True
     else bindE (read_events R T job_id c 500) (\<lambda>batch. if batch = []
       then bindE (get_job R job_id) (\<lambda>job. bindE (ofE (job_over job)) (\<lambda>over. if over then retE True
         else bindE (emit None) (\<lambda>_. event_source rounds R T gone emit job_id c)))
       else bindE (emit_batch emit batch c) (\<lambda>next. case next of None \<Rightarrow> retE True
         | Some c \<Rightarrow> event_source rounds R T gone emit job_id c)))"

section \<open>Server-sent events\<close>

definition finally_done :: "('w, bool) prog \<Rightarrow> ('w, unit) prog \<Rightarrow> ('w, bool) prog" where
  \<comment> \<open>\<open>try .. finally\<close> around a loop that may still be running\<close>
  "finally_done m f = (\<lambda>w. case m w of (Inr False, w') \<Rightarrow> (Inr False, w') | (r, w') \<Rightarrow> finallyE (\<lambda>w. (r, w)) f w')"

definition generator ::
  "nat \<Rightarrow> 'w redis \<Rightarrow> ('w, 't) time_api \<Rightarrow> 'w client \<Rightarrow> 'w slots \<Rightarrow> pystr \<Rightarrow> dict \<Rightarrow> cursor \<Rightarrow> ('w, bool) prog" where
  "generator rounds R T C L job_id job start =
     bindE (acquire L) (\<lambda>_. finally_done
       (bindE (ofE (parse_status (dget_or job ''status'' (status_value Queued)))) (\<lambda>st.
        bindE (send C (named_frame ''status'' (status_json job_id (status_value st)))) (\<lambda>_.
        bindE (event_source rounds R T (disconnected C)
          (\<lambda>x. send C (case x of Some ev \<Rightarrow> sse ev | None \<Rightarrow> keepalive)) job_id start) (\<lambda>done. if \<not> done then retE False
        else bindE (get_job R job_id) (\<lambda>final.
          bindE (send C (named_frame ''end'' (status_json job_id (dget_or final ''status'' (lit ''unknown''))))) (\<lambda>_.
          retE True))))))
       (release L))"

definition start_cursor :: "cursor option \<Rightarrow> bool \<Rightarrow> cursor" where
  \<comment> \<open>\<open>Last-Event-ID\<close>, if there is one, else \<open>FROM_START\<close> or \<open>FROM_NOW\<close>\<close>
  "start_cursor last_event_id replay = (case last_event_id of Some c \<Rightarrow> c
     | None \<Rightarrow> if replay then From_id (0, 0) else From_now)"

definition stream ::
  "nat \<Rightarrow> 'w redis \<Rightarrow> ('w, 't) time_api \<Rightarrow> 'w client \<Rightarrow> 'w slots \<Rightarrow> pystr \<Rightarrow> principal \<Rightarrow> cursor option \<Rightarrow> bool \<Rightarrow>
   ('w, bool) prog" where
  \<comment> \<open>the endpoint, and the response body the server then draws from the generator\<close>
  "stream rounds R T C L job_id p last_event_id replay = bindE (load_job R job_id p) (\<lambda>job.
     bindE (locked L) (\<lambda>full. if full then raiseE (HTTPException 503 (lit ''too many open streams''))
     else generator rounds R T C L job_id job (start_cursor last_event_id replay)))"

section \<open>The WebSocket\<close>

record 'w socket =
  accept :: "('w, unit) prog"
  send_json :: "json \<Rightarrow> ('w, unit) prog"
  close_code :: "nat \<Rightarrow> pystr \<Rightarrow> ('w, unit) prog"
  close_socket :: "('w, unit) prog"

definition ws_json :: "'t stream_event \<Rightarrow> json" where
  "ws_json ev = (case event_json ev of JObj kvs \<Rightarrow> JObj (kvs @ [(lit ''id'', case ev_id ev of None \<Rightarrow> JNull | Some i \<Rightarrow> JStr (sid_text i))])
     | v \<Rightarrow> v)"

definition typed_json :: "string \<Rightarrow> pystr \<Rightarrow> (pystr \<times> json) list \<Rightarrow> json" where
  "typed_json ty job_id rest = JObj ([(lit ''type'', JStr (lit ty)), (lit ''job_id'', JStr job_id)] @ rest)"

fun ws_batch :: "'w socket \<Rightarrow> 't stream_event list \<Rightarrow> cursor \<Rightarrow> bool \<Rightarrow> ('w, cursor \<times> bool) prog" where
  "ws_batch W [] c final = retE (c, final)"
| "ws_batch W (ev # evs) c final = bindE (send_json W (ws_json ev)) (\<lambda>_.
     ws_batch W evs (case ev_id ev of Some i \<Rightarrow> From_id i | None \<Rightarrow> c) (final \<or> event_terminal (ev_type ev)))"

fun ws_loop :: "nat \<Rightarrow> 'w redis \<Rightarrow> ('w, 't) time_api \<Rightarrow> 'w socket \<Rightarrow> pystr \<Rightarrow> cursor \<Rightarrow> ('w, bool) prog" where
  "ws_loop 0 R T W job_id c = retE False"
| "ws_loop (Suc rounds) R T W job_id c = bindE (read_events R T job_id c 500) (\<lambda>batch. if batch = []
     then bindE (get_job R job_id) (\<lambda>job. bindE (ofE (job_over job)) (\<lambda>over. if over then retE True
       else bindE (send_json W (typed_json ''keepalive'' job_id [])) (\<lambda>_. ws_loop rounds R T W job_id c)))
     else bindE (ws_batch W batch c False) (\<lambda>(c, final). if final then retE True else ws_loop rounds R T W job_id c))"

definition websocket_stream ::
  "nat \<Rightarrow> 'w redis \<Rightarrow> settings \<Rightarrow> ('w, 't) time_api \<Rightarrow> 'w socket \<Rightarrow> pystr \<Rightarrow> pystr \<Rightarrow> pystr \<Rightarrow> cursor option \<Rightarrow>
   ('w, bool) prog" where
  \<comment> \<open>the arguments after the job: \<open>?api_key=\<close>, the \<open>X-API-Key\<close> header and \<open>?last_event_id=\<close>\<close>
  "websocket_stream rounds R S T W job_id query_key header_key last_event_id =
     (case map_of (api_key_map S) (if query_key \<noteq> [] then query_key else header_key) of
        None \<Rightarrow> bindE (close_code W 4401 (lit ''invalid api key'')) (\<lambda>_. retE True)
      | Some tenant \<Rightarrow> bindE (get_job R job_id) (\<lambda>job.
          if job = [] \<or> dget_or job ''tenant'' (lit ''default'') \<noteq> tenant
          then bindE (close_code W 4404 (lit ''unknown job'')) (\<lambda>_. retE True)
          else bindE (accept W) (\<lambda>_. finally_done
            (catchE (bindE (send_json W (typed_json ''status'' job_id
                [(lit ''status'', JStr (dget_or job ''status'' (status_value Queued)))])) (\<lambda>_.
              ws_loop rounds R T W job_id (case last_event_id of Some c \<Rightarrow> c | None \<Rightarrow> From_id (0, 0))))
              (\<lambda>e. retE True))
            (catchE (close_socket W) (\<lambda>e. case e of OtherError n m \<Rightarrow>
               if n = lit ''RuntimeError'' then retE () else raiseE e | _ \<Rightarrow> raiseE e)))))"

end
