(* ===== verification/Stream_Order.thy ===== *)
theory Stream_Order
  imports Streaming Job_Store
begin

text \<open>
  What a stream delivers. While a client is served other processes append to the job's event log;
  the interface \<open>live_events\<close> says of every operation of the event source that the log may have grown
  meanwhile, and of a read that it answers from the log as it was at some moment of the call. The
  list \<open>sent\<close> is what the client has been given. The lemmas show that it is always the log after
  the starting cursor, from its beginning, without gap or repetition.
\<close>

section \<open>Growing logs\<close>

definition increasing :: "(sid \<times> 'd) list \<Rightarrow> bool" where
  "increasing l \<longleftrightarrow> sorted_wrt (<) (map fst l)"

definition grew :: "entry list \<Rightarrow> entry list \<Rightarrow> bool" where
  "grew l l' \<longleftrightarrow> prefix l l' \<and> (increasing l \<longrightarrow> increasing l')"

lemma grew_refl [simp, intro]: "grew l l"
  by (simp add: grew_def)

lemma grew_trans: "grew l l' \<Longrightarrow> grew l' l'' \<Longrightarrow> grew l l''"
  by (auto simp: grew_def intro: prefix_order.trans)

definition past :: "sid \<Rightarrow> (sid \<times> 'd) list \<Rightarrow> (sid \<times> 'd) list" where
  \<comment> \<open>what is newer than an id\<close>
  "past i l = filter (\<lambda>e. i < fst e) l"

lemma prefix_past: "prefix l l' \<Longrightarrow> prefix (past i l) (past i l')"
  unfolding past_def by (auto simp: prefix_def)

lemma increasing_past: "increasing l \<Longrightarrow> increasing (past i l)"
  unfolding past_def increasing_def by (induction l) auto

text \<open>After a prefix of the newer entries the cursor is the id of its last one.\<close>

lemma past_split:
  assumes "increasing l" "prefix es (past i l)" "es \<noteq> []"
  shows "past i l = es @ past (fst (last es)) l"
proof -
  obtain rest where rest: "past i l = es @ rest" using assms(2) by (auto simp: prefix_def)
  have inc: "sorted_wrt (<) (map fst (es @ rest))"
    using increasing_past [OF assms(1), of i] by (simp add: increasing_def rest)
  have le: "fst e \<le> fst (last es)" if "e \<in> set es" for e
  proof -
    obtain ds d where "es = ds @ [d]" using assms(3) by (metis rev_exhaust)
    with inc that show ?thesis by (auto simp: sorted_wrt_append intro: less_imp_le)
  qed
  have gt: "fst (last es) < fst e" if "e \<in> set rest" for e
    using inc that assms(3) by (auto simp: sorted_wrt_append)
  have "i < fst (last es)"
    using rest assms(3) by (metis (mono_tags, lifting) last_in_set mem_Collect_eq past_def set_append set_filter UnI1)
  then have "past (fst (last es)) l = past (fst (last es)) (past i l)"
    unfolding past_def by (auto intro!: filter_cong simp: filter_filter)
  also have "\<dots> = rest"
    unfolding rest using le gt by (auto simp: past_def filter_empty_conv not_less intro!: filter_True)
  finally show ?thesis by (simp add: rest)
qed

section \<open>The interface\<close>

definition shows_entry :: "pystr \<Rightarrow> 't stream_event \<Rightarrow> entry \<Rightarrow> bool" where
  \<comment> \<open>the event is the parsed entry\<close>
  "shows_entry job_id ev e \<longleftrightarrow> ev_id ev = Some (fst e) \<and> ev_job_id ev = job_id \<and>
     ev_data ev = dget_or (snd e) ''data'' [] \<and>
     (\<exists>t. dget (snd e) ''type'' = Some t \<and> parse_event_type t = Inr (ev_type ev))"

definition delivered :: "'t stream_event option list \<Rightarrow> 't stream_event list" where
  \<comment> \<open>the events among what was yielded\<close>
  "delivered out = List.map_filter id out"

lemma delivered_simps [simp]: "delivered [] = []" "delivered (a @ b) = delivered a @ delivered b"
  "delivered (Some ev # out) = ev # delivered out" "delivered (None # out) = delivered out"
  by (simp_all add: delivered_def map_filter_def)

lemma last_shown:
  assumes "list_all2 (shows_entry job_id) evs es" "evs \<noteq> []"
  shows "es \<noteq> [] \<and> ev_id (last evs) = Some (fst (last es))"
proof -
  have len: "length evs = length es" by (rule list_all2_lengthD [OF assms(1)])
  then have "es \<noteq> []" using assms(2) by auto
  moreover have "shows_entry job_id (last evs) (last es)"
    using assms calculation len by (auto simp: list_all2_conv_all_nth last_conv_nth)
  ultimately show ?thesis by (simp add: shows_entry_def)
qed

locale live_events =
  fixes history :: "'w \<Rightarrow> entry list" and sent :: "'w \<Rightarrow> 't stream_event option list"
    and R :: "'w redis" and T :: "('w, 't) time_api" and job_id :: pystr
    and gone :: "('w, bool) prog" and emit :: "'t stream_event option \<Rightarrow> ('w, unit) prog"
  assumes others: "gone w = (b, w') \<Longrightarrow> grew (history w) (history w') \<and> sent w' = sent w"
    "hgetall R (job_key job_id) w = (d, w') \<Longrightarrow> grew (history w) (history w') \<and> sent w' = sent w"
    "now_utc T w = (t, w') \<Longrightarrow> grew (history w) (history w') \<and> sent w' = sent w"
    "xread R (events_stream job_id) c n w = (r, w') \<Longrightarrow> grew (history w) (history w') \<and> sent w' = sent w"
    and read: "xread R (events_stream job_id) (From_id i) n w = (Inr es, w') \<Longrightarrow>
      \<exists>l. grew (history w) l \<and> grew l (history w') \<and> es = take n (past i l)"
    and emitted: "emit x w = (Inr u, w') \<Longrightarrow> grew (history w) (history w') \<and> sent w' = sent w @ [x]"
      "emit x w = (Inl e, w') \<Longrightarrow> grew (history w) (history w') \<and> sent w' = sent w"
begin

lemma parse_event_spec:
  "parse_event T job_id i d w = (r, w') \<Longrightarrow> grew (history w) (history w') \<and> sent w' = sent w \<and>
     (\<forall>ev. r = Inr ev \<longrightarrow> shows_entry job_id ev (i, d))"
  unfolding parse_event_def prog_defs
  by (auto simp: shows_entry_def retE_def ofE_def split: prod.splits sum.splits option.splits dest: others(3))

lemma mapE_parse:
  "mapE (\<lambda>(i, d). parse_event T job_id i d) es w = (r, w') \<Longrightarrow> grew (history w) (history w') \<and> sent w' = sent w \<and>
     (\<forall>evs. r = Inr evs \<longrightarrow> list_all2 (shows_entry job_id) evs es)"
proof (induction es arbitrary: w r w')
  case (Cons e es)
  obtain i d where e: "e = (i, d)" by fastforce
  obtain r1 w1 where one: "parse_event T job_id i d w = (r1, w1)" by fastforce
  obtain r2 w2 where rest: "mapE (\<lambda>(i, d). parse_event T job_id i d) es w1 = (r2, w2)" by fastforce
  from Cons.prems one rest show ?case
    using parse_event_spec [OF one] Cons.IH [OF rest]
    by (cases r1; cases r2) (auto simp: e bindE_def retE_def intro: grew_trans)
qed (simp add: retE_def)

lemma read_events_spec:
  assumes "read_events R T job_id (From_id i) n w = (r, w')"
  shows "grew (history w) (history w') \<and> sent w' = sent w \<and>
    (\<forall>evs. r = Inr evs \<longrightarrow> (\<exists>l. grew (history w) l \<and> grew l (history w') \<and> list_all2 (shows_entry job_id) evs (take n (past i l))))"
proof -
  obtain r1 w1 where x: "xread R (events_stream job_id) (From_id i) n w = (r1, w1)" by fastforce
  show ?thesis
  proof (cases r1)
    case (Inl e)
    then show ?thesis using assms x others(4) [OF x] by (auto simp: read_events_def bindE_def)
  next
    case (Inr es)
    then have m: "mapE (\<lambda>(i, d). parse_event T job_id i d) es w1 = (r, w')"
      using assms x by (simp add: read_events_def bindE_def)
    show ?thesis
      using others(4) [OF x] mapE_parse [OF m] read [OF x [unfolded Inr]] by (auto intro: grew_trans)
  qed
qed

text \<open>A batch is given to the client from its start, up to a terminal event or an exception.\<close>

lemma emit_batch_spec:
  assumes "emit_batch emit evs c w = (r, w')" and "\<forall>ev\<in>set evs. ev_id ev \<noteq> None"
  shows "grew (history w) (history w') \<and> (\<exists>k. sent w' = sent w @ map Some (take k evs) \<and>
    (case r of Inr (Some c') \<Rightarrow> k = length evs \<and> c' = (if evs = [] then c else From_id (the (ev_id (last evs))))
     | Inr None \<Rightarrow> k \<noteq> 0 \<and> k \<le> length evs \<and> event_terminal (ev_type (last (take k evs))) | Inl e \<Rightarrow> True))"
  using assms
proof (induction evs arbitrary: c w)
  case Nil
  then show ?case by (auto simp: retE_def)
next
  case (Cons ev evs)
  obtain r1 w1 where e: "emit (Some ev) w = (r1, w1)" by fastforce
  show ?case
  proof (cases r1)
    case (Inl x)
    then show ?thesis using Cons.prems(1) e emitted(2) [of "Some ev" w] by (auto simp: bindE_def intro!: exI [of _ 0])
  next
    case (Inr u)
    then have sent1: "grew (history w) (history w1)" "sent w1 = sent w @ [Some ev]" using emitted(1) e by auto
    show ?thesis
    proof (cases "event_terminal (ev_type ev)")
      case True
      then have "r = Inr None" "w' = w1" using Cons.prems(1) e Inr by (auto simp: bindE_def retE_def)
      then show ?thesis using sent1 True by (auto intro!: exI [of _ "Suc 0"])
    next
      case False
      then have "emit_batch emit evs (From_id (the (ev_id ev))) w1 = (r, w')"
        using Cons.prems e Inr by (auto simp: bindE_def)
      from Cons.IH [OF this] Cons.prems(2) obtain k where g: "grew (history w1) (history w')"
        and k: "sent w' = sent w1 @ map Some (take k evs)"
        "case r of Inr (Some c') \<Rightarrow> k = length evs \<and> c' = (if evs = [] then From_id (the (ev_id ev)) else From_id (the (ev_id (last evs))))
          | Inr None \<Rightarrow> k \<noteq> 0 \<and> k \<le> length evs \<and> event_terminal (ev_type (last (take k evs))) | Inl e \<Rightarrow> True"
        by auto
      show ?thesis
        using sent1 g k by (intro conjI exI [of _ "Suc k"]) (auto intro: grew_trans split: sum.splits option.splits)
    qed
  qed
qed

text \<open>What one connection delivers, given the cursor it starts from and the log it ends with.\<close>

definition follows :: "sid \<Rightarrow> 'w \<Rightarrow> 'w \<Rightarrow> entry list \<Rightarrow> bool" where
  "follows i w w' es \<longleftrightarrow> grew (history w) (history w') \<and> prefix es (past i (history w')) \<and>
     (\<exists>out. sent w' = sent w @ out \<and> list_all2 (shows_entry job_id) (delivered out) es)"

lemma follows_nothing: "grew (history w) (history w') \<Longrightarrow> sent w' = sent w \<Longrightarrow> follows i w w' []"
  by (simp add: follows_def)

lemma follows_before:
  "grew (history w) (history w1) \<Longrightarrow> sent w1 = sent w \<Longrightarrow> follows i w1 w' es \<Longrightarrow> follows i w w' es"
  by (auto simp: follows_def intro: grew_trans)

lemma follows_tick:
  assumes "grew (history w) (history w1)" "sent w1 = sent w @ [None]" "follows i w1 w' es"
  shows "follows i w w' es"
proof -
  obtain out where "sent w' = sent w1 @ out" "list_all2 (shows_entry job_id) (delivered out) es"
    using assms(3) by (auto simp: follows_def)
  then have "sent w' = sent w @ (None # out)" "list_all2 (shows_entry job_id) (delivered (None # out)) es"
    using assms(2) by (simp_all add: delivered_def map_filter_def)
  then show ?thesis using assms(1,3) unfolding follows_def by (blast intro: grew_trans)
qed

lemma follows_more:
  assumes "increasing (history w)" "follows i w w1 es" "es \<noteq> []" "follows (fst (last es)) w1 w' fs"
  shows "follows i w w' (es @ fs)"
proof -
  have inc: "increasing (history w1)" "increasing (history w')" and g: "grew (history w) (history w')" "prefix (history w1) (history w')"
    using assms by (auto simp: follows_def grew_def intro: prefix_order.trans)
  have "prefix es (past i (history w'))"
    using assms(2) prefix_order.trans [OF _ prefix_past [OF g(2), of i]] by (auto simp: follows_def)
  from past_split [OF inc(2) this assms(3)] assms(4) have "prefix (es @ fs) (past i (history w'))"
    by (simp add: follows_def)
  moreover obtain out out' where out: "sent w1 = sent w @ out" "list_all2 (shows_entry job_id) (delivered out) es"
    "sent w' = sent w1 @ out'" "list_all2 (shows_entry job_id) (delivered out') fs"
    using assms(2,4) by (auto simp: follows_def)
  then have "sent w' = sent w @ (out @ out')" "list_all2 (shows_entry job_id) (delivered (out @ out')) (es @ fs)"
    by (simp_all add: list_all2_appendI)
  ultimately show ?thesis using g(1) unfolding follows_def by blast
qed

lemma follows_reconnected:
  assumes "increasing (history w)" "follows i w w1 es" "es \<noteq> []" "grew (history w1) (history w2)"
    "follows (fst (last es)) w2 w3 fs"
  shows "prefix (es @ fs) (past i (history w3))"
proof -
  have g: "prefix (history w1) (history w3)" and inc: "increasing (history w3)"
    using assms by (auto simp: follows_def grew_def intro: prefix_order.trans)
  have "prefix es (past i (history w3))"
    using assms(2) prefix_order.trans [OF _ prefix_past [OF g, of i]] by (auto simp: follows_def)
  from past_split [OF inc this assms(3)] assms(5) show ?thesis by (simp add: follows_def)
qed

lemma delivered_Some [simp]: "delivered (map Some evs) = evs"
  by (induction evs) (simp_all add: delivered_def map_filter_def)

text \<open>A batch: what is given of it, and the cursor after it.\<close>

lemma batch_follows:
  assumes "read_events R T job_id (From_id i) n w = (Inr evs, w1)" "emit_batch emit evs (From_id i) w1 = (r, w')"
  shows "\<exists>es. follows i w w' es \<and> (\<forall>c. r = Inr (Some c) \<longrightarrow> (evs \<noteq> [] \<longrightarrow> es \<noteq> [] \<and> c = From_id (fst (last es))))"
proof -
  obtain l where g1: "grew (history w) (history w1)" "sent w1 = sent w" and l: "grew (history w) l" "grew l (history w1)"
    and all: "list_all2 (shows_entry job_id) evs (take n (past i l))"
    using read_events_spec [OF assms(1)] by auto
  have ids: "\<forall>ev\<in>set evs. ev_id ev \<noteq> None"
    using all by (fastforce simp: list_all2_conv_all_nth in_set_conv_nth shows_entry_def)
  obtain k where g2: "grew (history w1) (history w')" and k: "sent w' = sent w1 @ map Some (take k evs)"
    and r: "case r of Inr (Some c') \<Rightarrow> k = length evs \<and> c' = (if evs = [] then From_id i else From_id (the (ev_id (last evs))))
     | Inr None \<Rightarrow> k \<noteq> 0 \<and> k \<le> length evs \<and> event_terminal (ev_type (last (take k evs))) | Inl e \<Rightarrow> True"
    using emit_batch_spec [OF assms(2) ids] by blast
  define es where "es = take k (take n (past i l))"
  have es: "list_all2 (shows_entry job_id) (take k evs) es" unfolding es_def by (rule list_all2_takeI [OF all])
  have "prefix es (past i l)" unfolding es_def by (meson prefix_order.trans take_is_prefix)
  moreover have "prefix l (history w')" using l g2 by (auto simp: grew_def intro: prefix_order.trans)
  ultimately have "prefix es (past i (history w'))" using prefix_past prefix_order.trans by blast
  then have "follows i w w' es"
    using es k g1 g2 unfolding follows_def by (auto intro: grew_trans)
  moreover have "es \<noteq> [] \<and> c = From_id (fst (last es))" if "r = Inr (Some c)" "evs \<noteq> []" for c
  proof -
    have "take k evs = evs" "c = From_id (the (ev_id (last evs)))" using r that by auto
    with es that(2) last_shown [of job_id evs es] show ?thesis by auto
  qed
  ultimately show ?thesis by blast
qed

lemma event_source_spec:
  assumes "event_source rounds R T gone emit job_id (From_id i) w = (r, w')" "increasing (history w)"
  shows "\<exists>es. follows i w w' es"
  using assms
proof (induction rounds arbitrary: i w)
  case 0
  then have "w' = w" by (simp add: retE_def)
  then show ?case using follows_nothing [of w w'] by blast
next
  case (Suc rounds)
  obtain g w1 where gone: "gone w = (g, w1)" by fastforce
  note g1 = others(1) [OF gone]
  obtain b w2 where read: "read_events R T job_id (From_id i) 500 w1 = (b, w2)" by fastforce
  have g2: "grew (history w) (history w2)" "sent w2 = sent w" using g1 read_events_spec [OF read] by (auto intro: grew_trans)
  have inc: "increasing (history w1)" "increasing (history w2)" using Suc.prems(2) g1 g2 by (auto simp: grew_def)
  consider "w' = w1" | "w' = w2" | (idle) "g = Inr False" "b = Inr []" | (batch) evs where "g = Inr False" "b = Inr evs" "evs \<noteq> []"
    using Suc.prems(1) gone read by (cases g; cases b) (auto simp: bindE_def retE_def split: if_splits)
  then show ?case
  proof cases
    case idle
    obtain d w3 where job: "get_job R job_id w2 = (d, w3)" by fastforce
    have g3: "grew (history w) (history w3)" "sent w3 = sent w"
      using g2 others(2) [OF job [unfolded get_job_def]] by (auto intro: grew_trans)
    obtain u w4 where e: "emit None w3 = (u, w4)" by fastforce
    have "w' = w3 \<or> (\<exists>x. u = Inl x \<and> w' = w4) \<or>
        (u = Inr () \<and> event_source rounds R T gone emit job_id (From_id i) w4 = (r, w'))"
      using Suc.prems(1) gone read idle job e
      by (cases d; cases u) (auto simp: bindE_def retE_def ofE_def split: if_splits sum.splits)
    then show ?thesis
    proof (elim disjE exE conjE)
      assume "w' = w3" then show ?thesis using follows_nothing g3 by blast
    next
      fix x assume "u = Inl x" "w' = w4"
      then show ?thesis using emitted(2) e g3 follows_nothing by (metis grew_trans)
    next
      assume u: "u = Inr ()" and rest: "event_source rounds R T gone emit job_id (From_id i) w4 = (r, w')"
      have e4: "grew (history w3) (history w4)" "sent w4 = sent w3 @ [None]" using emitted(1) e u by auto
      then have "increasing (history w4)" using inc g3 Suc.prems(2) by (auto simp: grew_def)
      from Suc.IH [OF rest this] obtain es where "follows i w4 w' es" by blast
      then show ?thesis using follows_before [OF g3] follows_tick [OF e4] by blast
    qed
  next
    case batch
    obtain n w3 where out: "emit_batch emit evs (From_id i) w2 = (n, w3)" by fastforce
    obtain es where es: "follows i w1 w3 es" and c: "\<forall>c. n = Inr (Some c) \<longrightarrow> es \<noteq> [] \<and> c = From_id (fst (last es))"
      using batch_follows [OF read [unfolded batch(2)] out] batch(3) by blast
    note first = follows_before [OF g1 [THEN conjunct1] g1 [THEN conjunct2] es]
    have "w' = w3 \<or> (\<exists>c. n = Inr (Some c) \<and> event_source rounds R T gone emit job_id c w3 = (r, w'))"
      using Suc.prems(1) gone read batch out by (cases n) (auto simp: bindE_def retE_def split: option.splits)
    then show ?thesis
    proof (elim disjE exE conjE)
      assume "w' = w3" then show ?thesis using first by blast
    next
      fix c' assume n: "n = Inr (Some c')" and rest: "event_source rounds R T gone emit job_id c' w3 = (r, w')"
      then have "es \<noteq> []" "c' = From_id (fst (last es))" using c by auto
      moreover have "increasing (history w3)" using es inc(1) by (auto simp: follows_def grew_def)
      ultimately obtain fs where "follows (fst (last es)) w3 w' fs" using Suc.IH rest by blast
      then show ?thesis using follows_more [OF Suc.prems(2) first \<open>es \<noteq> []\<close>] by blast
    qed
  qed (use follows_nothing g1 g2 in blast)+
qed

end

section \<open>Replay\<close>

text \<open>
  A client that connects when the job is over is given its events from the log, which nobody writes any
  more. The interface is a Redis server that does not fail and a client that stays.
\<close>

fun upto_terminal :: "'t stream_event list \<Rightarrow> 't stream_event list" where
  "upto_terminal [] = []"
| "upto_terminal (ev # evs) = ev # (if event_terminal (ev_type ev) then [] else upto_terminal evs)"

definition over :: "'t stream_event list \<Rightarrow> bool" where
  "over evs \<longleftrightarrow> (\<exists>ev\<in>set evs. event_terminal (ev_type ev))"

lemma upto_terminal_append: "upto_terminal (xs @ ys) = (if over xs then upto_terminal xs else xs @ upto_terminal ys)"
  by (induction xs) (auto simp: over_def)

lemma upto_terminal_all: "\<not> over evs \<Longrightarrow> upto_terminal evs = evs"
  by (induction evs) (auto simp: over_def)

definition logged :: "('w, 't) time_api \<Rightarrow> (sid \<times> 't stream_event) list \<Rightarrow> entry list" where
  \<comment> \<open>the log after events have been published, each under the id the server gave it\<close>
  "logged T es = map (\<lambda>(i, ev). (i, event_fields T ev)) es"

definition stamped :: "(sid \<times> 't stream_event) list \<Rightarrow> 't stream_event list" where
  "stamped es = map (\<lambda>(i, ev). ev\<lparr>ev_id := Some i\<rparr>) es"

lemma past_logged: "past i (logged T es) = logged T (past i es)"
  by (induction es) (auto simp: past_def logged_def)

lemma set_past: "x \<in> set (past i es) \<Longrightarrow> x \<in> set es"
  by (simp add: past_def)

lemma take_logged: "take n (logged T es) = logged T (take n es)"
  by (simp add: logged_def take_map)

lemma parse_logged:
  assumes "time_ok T" "\<forall>(i, ev)\<in>set es. ev_job_id ev = job_id"
  shows "mapE (\<lambda>(i, d). parse_event T job_id i d) (logged T es) w = (Inr (stamped es), w)"
  using assms(2)
proof (induction es)
  case (Cons e es)
  obtain i ev where e: "e = (i, ev)" by fastforce
  then have "parse_event T job_id i (event_fields T ev) w = (Inr (ev\<lparr>ev_id := Some i\<rparr>), w)"
    using parse_event_fields [OF assms(1), of ev i w] Cons.prems by simp
  with Cons show ?case by (simp add: e logged_def stamped_def bindE_def retE_def)
qed (simp add: logged_def stamped_def retE_def)

locale replaying = reliable_redis view R
  for view :: "'w \<Rightarrow> store" and R :: "'w redis" +
  fixes T :: "('w, 't) time_api" and sent :: "'w \<Rightarrow> 't stream_event option list"
    and gone :: "('w, bool) prog" and emit :: "'t stream_event option \<Rightarrow> ('w, unit) prog"
  assumes time: "time_ok T"
    and read_silent: "sent (snd (xread R k c n w)) = sent w"
    and stays: "\<exists>w'. gone w = (Inr False, w') \<and> view w' = view w \<and> sent w' = sent w"
    and takes: "\<exists>w'. emit x w = (Inr (), w') \<and> view w' = view w \<and> sent w' = sent w @ [x]"
begin

lemma read_logged:
  assumes "s_stream (view w) (events_stream job_id) = logged T es" "\<forall>(i, ev)\<in>set es. ev_job_id ev = job_id"
  shows "\<exists>w'. read_events R T job_id (From_id i) n w = (Inr (stamped (take n (past i es))), w') \<and>
    view w' = view w \<and> sent w' = sent w"
proof -
  let ?es = "take n (past i es)"
  obtain a w' where x: "xread R (events_stream job_id) (From_id i) n w = (Inr a, w')"
    using returnsD [OF no_fault(9)] by blast
  from outcome_InrD [OF effect_outcome [OF xread_effect] x] assms(1)
  have "a = logged T ?es" "view w' = view w"
    by (simp_all add: does_xread_def past_logged take_logged flip: past_def)
  moreover have "\<forall>(i, ev)\<in>set ?es. ev_job_id ev = job_id" using assms(2) by (auto dest!: in_set_takeD set_past)
  moreover have "sent w' = sent w" using read_silent [of "events_stream job_id" "From_id i" n w] x by simp
  ultimately show ?thesis
    using x parse_logged [OF time, of ?es] by (simp add: read_events_def bindE_def)
qed

lemma emit_batch_all:
  "\<exists>w'. emit_batch emit evs c w = (Inr (if over evs then None
      else Some (if evs = [] then c else case ev_id (last evs) of Some i \<Rightarrow> From_id i | None \<Rightarrow> c)), w') \<and>
    view w' = view w \<and> sent w' = sent w @ map Some (upto_terminal evs)"
  if "\<forall>ev\<in>set evs. ev_id ev \<noteq> None"
  using that
proof (induction evs arbitrary: c w)
  case (Cons ev evs)
  obtain w1 where e: "emit (Some ev) w = (Inr (), w1)" "view w1 = view w" "sent w1 = sent w @ [Some ev]"
    using takes by blast
  obtain i where i: "ev_id ev = Some i" using Cons.prems by auto
  obtain w2 where "emit_batch emit evs (From_id i) w1 = (Inr (if over evs then None
      else Some (if evs = [] then From_id i else case ev_id (last evs) of Some i \<Rightarrow> From_id i | None \<Rightarrow> From_id i)), w2)"
    and w2: "view w2 = view w1" "sent w2 = sent w1 @ map Some (upto_terminal evs)"
    using Cons.IH [of "From_id i" w1] Cons.prems by auto
  moreover have "ev_id (last evs) \<noteq> None" if "evs \<noteq> []" using Cons.prems that by auto
  ultimately show ?case
    using e i by (cases "event_terminal (ev_type ev)") (auto simp: bindE_def retE_def over_def)
qed (simp add: retE_def over_def)

lemma replay_reaches_end:
  assumes "s_stream (view w) (events_stream job_id) = logged T es" "\<forall>(i, ev)\<in>set es. ev_job_id ev = job_id"
    and "increasing es" and "over (stamped (past i es))"
    and "length (past i es) < rounds"
  shows "\<exists>w'. event_source rounds R T gone emit job_id (From_id i) w = (Inr True, w') \<and>
    sent w' = sent w @ map Some (upto_terminal (stamped (past i es)))"
  using assms(1,4,5)
proof (induction rounds arbitrary: i w)
  case (Suc rounds)
  let ?es = "past i es"
  let ?b = "take 500 ?es"
  obtain w1 where w1: "gone w = (Inr False, w1)" "view w1 = view w" "sent w1 = sent w" using stays by blast
  obtain w2 where w2: "read_events R T job_id (From_id i) 500 w1 = (Inr (stamped ?b), w2)" "view w2 = view w" "sent w2 = sent w"
    using read_logged [of w1 job_id es i 500] Suc.prems(1) assms(2) w1 by auto
  have ne: "?es \<noteq> []" using Suc.prems(2) by (auto simp: over_def stamped_def)
  have ids: "\<forall>ev\<in>set (stamped ?b). ev_id ev \<noteq> None" by (auto simp: stamped_def)
  have last: "ev_id (last (stamped ?b)) = Some (fst (last ?b))"
    using ne by (simp add: stamped_def last_map case_prod_beta)
  obtain w3 where w3: "emit_batch emit (stamped ?b) (From_id i) w2 =
      (Inr (if over (stamped ?b) then None else Some (From_id (fst (last ?b)))), w3)"
    "view w3 = view w" "sent w3 = sent w @ map Some (upto_terminal (stamped ?b))"
    using emit_batch_all [OF ids, of "From_id i" w2] w2 ne last by (auto simp: stamped_def)
  have parts: "stamped ?es = stamped ?b @ stamped (drop 500 ?es)"
    by (simp add: stamped_def flip: map_append)
  show ?case
  proof (cases "over (stamped ?b)")
    case True
    then show ?thesis
      using w1 w2 w3 ne by (simp add: bindE_def retE_def parts upto_terminal_append) (simp add: stamped_def)
  next
    case False
    have "?b \<noteq> []" using ne by simp
    from past_split [OF assms(3) take_is_prefix this] have "?b @ past (fst (last ?b)) es = ?b @ drop 500 ?es"
      by simp
    then have rest: "past (fst (last ?b)) es = drop 500 ?es" by blast
    have "over (stamped (drop 500 ?es))" using Suc.prems(2) False unfolding parts by (auto simp: over_def)
    moreover have "length (drop 500 ?es) < rounds" using Suc.prems(3) ne by (cases ?es) auto
    ultimately obtain w' where "event_source rounds R T gone emit job_id (From_id (fst (last ?b))) w3 = (Inr True, w')"
      "sent w' = sent w3 @ map Some (upto_terminal (stamped (drop 500 ?es)))"
      using Suc.IH [of w3 "fst (last ?b)"] w3(2) Suc.prems(1) rest by auto
    then show ?thesis
      using w1 w2 w3 False ne upto_terminal_all [OF False]
      by (simp add: bindE_def parts upto_terminal_append) (simp add: stamped_def)
  qed
qed simp

end

end
