(* ===== verification/Stream_Run.thy ===== *)
theory Stream_Run
  imports Stream_Order
begin

text \<open>
  The properties of the streams: what a client of \<open>server-sent events\<close> reads in the text it is sent,
  order and completeness of the events, and the two ways in which events are missed. The interfaces
  are interpreted on a Redis server in memory that other processes write to: before every read
  the next of a script of writes takes place.
\<close>

section \<open>Reading server-sent events\<close>

text \<open>The client's reader: fields of a message line by line, a blank line ends it. A message is the last
  event id, the event's name and its data.\<close>

type_synonym message = "pystr \<times> pystr \<times> pystr"

definition field_value :: "pystr \<Rightarrow> pystr" where
  "field_value l = (let v = after_sep 58 l in if take 1 v = [32] then drop 1 v else v)"

fun read_lines :: "pystr \<Rightarrow> pystr \<Rightarrow> pystr option \<Rightarrow> pystr list \<Rightarrow> message list" where
  "read_lines i name d [] = []"
| "read_lines i name d (l # ls) =
     (if l = [] then (case d of None \<Rightarrow> read_lines i [] None ls | Some t \<Rightarrow> (i, name, t) # read_lines i [] None ls)
      else if before_sep 58 l = lit ''id'' then read_lines (field_value l) name d ls
      else if before_sep 58 l = lit ''event'' then read_lines i (field_value l) d ls
      else if before_sep 58 l = lit ''data''
        then read_lines i name (Some (case d of None \<Rightarrow> field_value l | Some t \<Rightarrow> t @ [10] @ field_value l)) ls
      else read_lines i name d ls)"

definition messages :: "pystr \<Rightarrow> message list" where
  "messages t = read_lines [] [] None (split_on 10 t)"

definition frame :: "'t stream_event option \<Rightarrow> pystr" where
  \<comment> \<open>what the generator sends for a value of the event source\<close>
  "frame x = (case x of Some ev \<Rightarrow> sse ev | None \<Rightarrow> keepalive)"

lemma split_line: "10 \<notin> set l \<Longrightarrow> split_on 10 (l @ 10 # t) = l # split_on 10 t"
  by (induction l) (auto split: list.splits)

lemma no_newline: "printable s \<Longrightarrow> 10 \<notin> set s"
  by (auto simp: printable_def)

lemma printable_sid: "printable (id_text i)"
  by (cases i) (auto simp: id_text_def lit_def split: prod.split)

lemma printable_event: "printable (event_value t)" "printable (dumps no_float v)"
  by (cases t; simp add: lit_def) (rule printable_dumps, simp add: no_float_def)


lemma field_simps:
  "before_sep 58 (lit ''id: '' @ v) = lit ''id''" "field_value (lit ''id: '' @ v) = v"
  "before_sep 58 (lit ''event: '' @ v) = lit ''event''" "field_value (lit ''event: '' @ v) = v"
  "before_sep 58 (lit ''data: '' @ v) = lit ''data''" "field_value (lit ''data: '' @ v) = v"
  "before_sep 58 (lit '': keepalive'') = []"
  by (simp_all add: before_sep_def after_sep_def field_value_def lit_def)

lemma field_names: "lit ''id'' \<noteq> lit ''event''" "lit ''id'' \<noteq> lit ''data''" "lit ''event'' \<noteq> lit ''data''"
  "[] \<noteq> lit ''id''" "[] \<noteq> lit ''event''" "[] \<noteq> lit ''data''" "lit ''id: '' @ v \<noteq> []" "lit ''event: '' @ v \<noteq> []"
  "lit ''data: '' @ v \<noteq> []" "lit '': keepalive'' \<noteq> []"
  by (simp_all add: lit_def)

lemma read_sse:
  "read_lines i [] None (split_on 10 (sse ev @ t)) =
     (id_text (ev_id ev), event_value (ev_type ev), dumps no_float (event_json ev)) #
     read_lines (id_text (ev_id ev)) [] None (split_on 10 t)"
proof -
  let ?id = "lit ''id: '' @ id_text (ev_id ev)" and ?name = "lit ''event: '' @ event_value (ev_type ev)"
    and ?data = "lit ''data: '' @ dumps no_float (event_json ev)"
  have "10 \<notin> set ?id" "10 \<notin> set ?name" "10 \<notin> set ?data"
    using no_newline [OF printable_sid] no_newline [OF printable_event(1)] no_newline [OF printable_event(2)]
    by (simp_all add: lit_def)
  moreover have "sse ev @ t = ?id @ 10 # ?name @ 10 # ?data @ 10 # [] @ 10 # t" by (simp add: sse_def)
  ultimately have "split_on 10 (sse ev @ t) = ?id # ?name # ?data # [] # split_on 10 t"
    by (simp only: split_line simp_thms append_Nil split_on.simps if_True)
  then show ?thesis by (simp add: field_simps field_names field_names [symmetric])
qed

lemma read_keepalive: "read_lines i [] None (split_on 10 (keepalive @ t)) = read_lines i [] None (split_on 10 t)"
proof -
  have "10 \<notin> set (lit '': keepalive'')" by (simp add: lit_def)
  then have "split_on 10 (keepalive @ t) = lit '': keepalive'' # [] # split_on 10 t"
    using split_line [of "lit '': keepalive''" "10 # t"] by (simp add: keepalive_def)
  then show ?thesis by (simp add: field_simps field_names)
qed

lemma read_frames:
  "read_lines i [] None (split_on 10 (concat (map frame out))) =
     map (\<lambda>ev. (id_text (ev_id ev), event_value (ev_type ev), dumps no_float (event_json ev))) (delivered out)"
proof (induction out arbitrary: i)
  case (Cons x out)
  then show ?case
    by (cases x) (simp_all add: frame_def read_sse read_keepalive delivered_def map_filter_def)
qed (simp add: delivered_def map_filter_def)

text \<open>
  The client reads what the event source yielded. The text of a stream, keepalives included, is read
  by a client of server-sent events as one message per event, in order, with the event's id,
  which it will send as \<open>Last-Event-ID\<close>, its type and its JSON; whatever text the event holds (line
  breaks, quotes, control characters), it cannot end the message, and a reader of JSON gets it
  back from the string after \<open>"data":\<close>.
\<close>

theorem stream_text_read_back:
  "messages (concat (map frame out)) =
     map (\<lambda>ev. (id_text (ev_id ev), event_value (ev_type ev), dumps no_float (event_json ev))) (delivered out) \<and>
   (\<forall>ev :: 't stream_event. \<exists>a b. dumps no_float (event_json ev) = a @ lit '', '' @ json_str (lit ''data'') @ lit '': '' @ [34] @ b \<and>
      map_option fst (read_str b) = Some (ev_data ev))"
proof
  show "messages (concat (map frame out)) =
     map (\<lambda>ev. (id_text (ev_id ev), event_value (ev_type ev), dumps no_float (event_json ev))) (delivered out)"
    by (simp add: messages_def read_frames)
  show "\<forall>ev :: 't stream_event. \<exists>a b. dumps no_float (event_json ev) =
      a @ lit '', '' @ json_str (lit ''data'') @ lit '': '' @ [34] @ b \<and> map_option fst (read_str b) = Some (ev_data ev)"
  proof
    fix ev :: "'t stream_event"
    let ?field = "\<lambda>n v. json_str (lit n) @ lit '': '' @ dumps no_float v"
    let ?page = "case ev_page ev of None \<Rightarrow> JNull | Some p \<Rightarrow> JInt p"
    let ?a = "[123] @ ?field ''type'' (JStr (event_value (ev_type ev))) @ lit '', '' @ ?field ''job_id'' (JStr (ev_job_id ev)) @
      lit '', '' @ ?field ''page'' ?page"
    let ?b = "tl (json_str (ev_data ev)) @ lit '', '' @ ?field ''seq'' (JInt (ev_seq ev)) @ [125]"
    have "dumps no_float (event_json ev) = ?a @ lit '', '' @ json_str (lit ''data'') @ lit '': '' @ [34] @ ?b"
      by (simp add: event_json_def json_str_def del: dumps.simps(1,3))
    moreover have "read_str ?b = Some (ev_data ev, lit '', '' @ ?field ''seq'' (JInt (ev_seq ev)) @ [125])"
      by (rule read_json_str)
    ultimately show "\<exists>a b. dumps no_float (event_json ev) = a @ lit '', '' @ json_str (lit ''data'') @ lit '': '' @ [34] @ b \<and>
        map_option fst (read_str b) = Some (ev_data ev)"
      by (intro exI [of _ ?a] exI [of _ ?b] conjI) simp_all
  qed
qed

section \<open>Order\<close>



text \<open>
  C18. A finished job is replayed to its end. If the log holds what was published for the job, with a
  terminal event after the client's cursor, Redis does not fail and the client stays, the event
  source returns, within one round more than there are events, and the client has been given
  exactly the published events up to the first terminal one, each with its id.
\<close>

theorem finished_job_replayed:
  assumes "replaying view R T sent gone emit"
    and "s_stream (view w) (events_stream job_id) = logged T es" "\<forall>(i, ev)\<in>set es. ev_job_id ev = job_id"
    and "increasing es" and "over (stamped (past i es))" and "length (past i es) < rounds"
  shows "\<exists>w'. event_source rounds R T gone emit job_id (From_id i) w = (Inr True, w') \<and>
    sent w' = sent w @ map Some (upto_terminal (stamped (past i es)))"
  by (rule replaying.replay_reaches_end [OF assms])

section \<open>A server that others write to\<close>

datatype act = Append pystr dict | Put pystr dict

fun do_act :: "act \<Rightarrow> store \<Rightarrow> store" where
  "do_act (Append k d) s = put_entry k 0 (next_id s k, d) s"
| "do_act (Put k d) s = put_hash k d s"

record live_world = memory_db +
  script :: "act list list"                \<comment> \<open>what happens during the next commands\<close>
  outbox :: "nat stream_event option list"

definition meanwhile :: "live_world \<Rightarrow> live_world" where
  "meanwhile w = (case script w of [] \<Rightarrow> w | as # rest \<Rightarrow> w\<lparr>script := rest, db := fold do_act as (db w)\<rparr>)"

definition busy_redis :: "live_world redis" where
  "busy_redis = mem_redis\<lparr>hgetall := (\<lambda>k w. hgetall mem_redis k (meanwhile w)),
     xread := (\<lambda>k c n w. case c of
         From_now \<Rightarrow> (Inr (take n (drop (length (s_stream (db w) k)) (s_stream (db (meanwhile w)) k))), meanwhile w)
       | _ \<Rightarrow> xread mem_redis k c n (meanwhile w))\<rparr>"

definition db_time :: "('z memory_db_scheme, nat) time_api" where
  "db_time = \<lparr>iso = show_nat,
     from_iso = (\<lambda>t. case parse_int t of Some n \<Rightarrow> Inr (nat n) | None \<Rightarrow> Inl (ValueError t)),
     now_utc = getE clock, seconds_since = (\<lambda>a b. Inr (of_nat a - of_nat b)), perf = getE (\<lambda>w. of_nat (clock w))\<rparr>"

definition deliver :: "nat stream_event option \<Rightarrow> (live_world, unit) prog" where
  "deliver x = modE (\<lambda>w. w\<lparr>outbox := outbox w @ [x]\<rparr>)"

definition log_of :: "pystr \<Rightarrow> live_world \<Rightarrow> entry list" where
  "log_of job_id w = s_stream (db w) (events_stream job_id)"

lemma parse_show_nat: "parse_int (show_nat n) = Some (int n)"
  using parse_show_int [of "int n"] by (simp add: show_int_def)

lemma grew_act: "grew (s_stream s k) (s_stream (do_act a s) k)"
  by (cases a) (auto simp: grew_def increasing_def sorted_wrt_append next_id_greater)

lemma grew_acts: "grew (s_stream s k) (s_stream (fold do_act as s) k)"
  by (induction as arbitrary: s) (auto intro: grew_trans [OF grew_act])

lemma meanwhile_grew: "grew (log_of j w) (log_of j (meanwhile w))" "outbox (meanwhile w) = outbox w"
  by (auto simp: meanwhile_def log_of_def grew_acts split: list.split)

lemma run_command_read: "run_command (\<lambda>s t. (f s, s)) w = (r, w') \<Longrightarrow> log_of j w' = log_of j w \<and> outbox w' = outbox w \<and>
    (\<forall>a. r = Inr a \<longrightarrow> a = f (db w))"
  by (auto simp: run_command_def log_of_def Let_def split: list.splits fault.splits)

interpretation live_server: live_events "log_of j" outbox busy_redis db_time j "retE False" deliver
  for j :: pystr
proof unfold_locales
  show "grew (log_of j w) (log_of j w') \<and> outbox w' = outbox w"
    if "hgetall busy_redis (job_key j) w = (d, w')" for w d w'
    using that meanwhile_grew [where w = w]
    by (auto simp: busy_redis_def mem_redis_def dest!: run_command_read [where j = j])
  show "grew (log_of j w) (log_of j w') \<and> outbox w' = outbox w"
    if "xread busy_redis (events_stream j) c n w = (r, w')" for c n w r w'
    using that meanwhile_grew [where w = w]
    by (cases c) (auto simp: busy_redis_def mem_redis_def raiseE_def dest!: run_command_read [where j = j])
  show "\<exists>l. grew (log_of j w) l \<and> grew l (log_of j w') \<and> es = take n (past i l)"
    if "xread busy_redis (events_stream j) (From_id i) n w = (Inr es, w')" for i n w es w'
    using that meanwhile_grew [where w = w]
    by (intro exI [of _ "log_of j w'"])
      (auto simp: busy_redis_def mem_redis_def past_def log_of_def dest!: run_command_read [where j = j])
qed (auto simp: retE_def db_time_def getE_def deliver_def modE_def log_of_def)

interpretation calm_replay: replaying db calm_redis db_time outbox "retE False" deliver
proof unfold_locales
  show "time_ok (db_time :: (live_world, nat) time_api)"
    by (simp add: time_ok_def db_time_def parse_show_nat)
  show "outbox (snd (xread calm_redis k c n w)) = outbox w" for k c n and w :: live_world
    by (cases c) (simp_all add: calm_redis_def mem_redis_def calm_def run_command_def raiseE_def Let_def)
qed (auto simp: retE_def deliver_def modE_def)

section \<open>Examples\<close>

definition event :: "event_type \<Rightarrow> pystr \<Rightarrow> nat stream_event" where
  "event ty t = \<lparr>ev_type = ty, ev_job_id = lit ''j1'', ev_page = Some 0, ev_data = t, ev_seq = 1, ev_ts = 7, ev_id = None\<rparr>"

definition written :: "event_type \<Rightarrow> pystr \<Rightarrow> act" where
  \<comment> \<open>another process publishes it\<close>
  "written ty t = Append (events_stream (lit ''j1'')) (event_fields (db_time :: (live_world, nat) time_api) (event ty t))"

definition status_set :: "job_status \<Rightarrow> act" where
  "status_set st = Put (job_key (lit ''j1'')) [(''status'', status_value st)]"

definition idle_world :: "act list list \<Rightarrow> live_world" where
  "idle_world as = \<lparr>db = \<lparr>s_hash = (\<lambda>k. []), s_value = (\<lambda>k. None), s_stream = (\<lambda>k. []), s_cursor = (\<lambda>k. (0, 0)),
     s_pend = (\<lambda>k. {})\<rparr>, faults = [], clock = 5, script = as, outbox = []\<rparr>"

abbreviation "live_source rounds \<equiv> event_source rounds busy_redis db_time (retE False) deliver (lit ''j1'')"

lemma parse_written [simp]:
  "parse_event (db_time :: (live_world, nat) time_api) (lit ''j1'') i (event_fields (db_time :: (live_world, nat) time_api) (event ty t)) w =
     (Inr ((event ty t)\<lparr>ev_id := Some i\<rparr>), w)"
proof -
  have "time_ok (db_time :: (live_world, nat) time_api)" by (rule calm_replay.time)
  from parse_event_fields [OF this, of "event ty t" i w] show ?thesis by (simp add: event_def)
qed

lemma event_simps [simp]:
  "ev_type (event ty t) = ty" "ev_data (event ty t) = t" "dget (event_fields T (event ty t)) ''data'' = Some t"
  "ev_id (event ty t) = None" "ev_job_id (event ty t) = lit ''j1''"
  by (simp_all add: event_def event_fields_def dget_def)

lemma dget_status [simp]: "dget [(''status'', t)] ''status'' = Some t" "dget_or [(''status'', t)] ''status'' d = t"
  by (simp_all add: dget_def dget_or_def)

lemmas live_simps = event_terminal_def terminal_def log_of_def read_events_def busy_redis_def mem_redis_def run_command_def meanwhile_def deliver_def modE_def
  bindE_def retE_def ofE_def get_job_def job_over_def idle_world_def Let_def written_def status_set_def next_id_def
  put_entry_def put_hash_def

text \<open>
  A stream may end before the last events. The event source takes an empty read and then a terminal status as
  the end. Events that a worker publishes between the two are in the log but not delivered, and
  neither is the final \<open>job_complete\<close>, which follows the status: the client of the example is told
  that the stream is over after the token \<open>a\<close>, while the log holds the completed page.
\<close>

theorem stream_ends_early:
  "\<exists>w'. live_source 3 (From_id (0, 0)) (idle_world
      [[status_set Processing, written Token (lit ''a'')], [], [written Page_complete (lit ''ab''), status_set Completed]]) = (Inr True, w') \<and>
    map ev_data (delivered (outbox w')) = [lit ''a''] \<and>
    map (\<lambda>e. dget (snd e) ''data'') (log_of (lit ''j1'') w') = [Some (lit ''a''), Some (lit ''ab'')] \<and>
    dget (s_hash (db w') (job_key (lit ''j1''))) ''status'' = Some (status_value Completed)"
  by (simp add: numeral_3_eq_3 live_simps del: status_value.simps)

text \<open>
  A stream from now on loses events. With \<open>replay=false\<close> the cursor is \<open>$\<close>, which every read takes anew
  until one has answered: what is published after a read has timed out and before the next one
  starts is not delivered, although it was produced after the client subscribed.
\<close>

theorem from_now_loses_events:
  "\<exists>w'. live_source 2 (start_cursor None False) (idle_world
      [[], [status_set Processing, written Token (lit ''a'')], [written Job_complete (lit ''1'')]]) = (Inr True, w') \<and>
    map ev_data (delivered (outbox w')) = [lit ''1''] \<and>
    map (\<lambda>e. dget (snd e) ''data'') (log_of (lit ''j1'') w') = [Some (lit ''a''), Some (lit ''1'')]"
  by (simp add: numeral_2_eq_2 start_cursor_def live_simps del: status_value.simps)



lemma finished_job_replayed_witness:
  "\<exists>w w'. event_source 3 calm_redis db_time (retE False) deliver (lit ''j1'') (From_id (1, 0)) w = (Inr True, w') \<and>
     map ev_data (delivered (outbox w')) = [lit ''b'', lit ''1'']"
proof -
  let ?es = "[((1, 0), event Token (lit ''a'')), ((2, 0), event Token (lit ''b'')), ((3, 0), event Job_complete (lit ''1''))]"
  let ?log = "logged (db_time :: (live_world, nat) time_api) ?es"
  let ?w = "(idle_world [])\<lparr>db := (db (idle_world []))\<lparr>s_stream := (\<lambda>k. ?log)\<rparr>\<rparr>"
  have "s_stream (db ?w) (events_stream (lit ''j1'')) = ?log" "\<forall>(i, ev)\<in>set ?es. ev_job_id ev = lit ''j1''"
    "increasing ?es" "over (stamped (past (1, 0) ?es))" "length (past (1, 0) ?es) < 3"
    by (simp_all add: increasing_def over_def stamped_def past_def event_terminal_def)
  from finished_job_replayed [OF calm_replay.replaying_axioms, OF this] obtain w' where
    "event_source 3 calm_redis db_time (retE False) deliver (lit ''j1'') (From_id (1, 0)) ?w = (Inr True, w')"
    "outbox w' = outbox ?w @ map Some (upto_terminal (stamped (past (1, 0) ?es)))" by blast
  then show ?thesis
    by (intro exI [of _ ?w] exI [of _ w']) (simp add: past_def stamped_def event_terminal_def idle_world_def)
qed

end
