(* ===== verification/Token_Relay.thy ===== *)
theory Token_Relay
  imports Job_Store Engine
begin

text \<open>
  \<open>TokenRelay\<close> of \<open>workers/cpu_worker.py\<close>: the deltas of a page are collected and published in
  batches as \<open>token\<close> events. The relay is an object that several tasks share, so its programs run
  on a pair of the relay and the world; \<open>relay_add\<close>, \<open>relay_due\<close> and \<open>relay_take\<close> are its updates
  between two awaits, which the interleaving model of a page uses again.
\<close>

record relay =
  rl_job :: pystr
  rl_page :: int
  flush_chars :: nat
  flush_interval_s :: rat
  held :: "pystr list"       \<comment> \<open>\<open>_buf\<close>\<close>
  held_size :: nat           \<comment> \<open>\<open>_size\<close>\<close>
  last_flush :: rat          \<comment> \<open>\<open>_last\<close>\<close>
  rl_seq :: int              \<comment> \<open>\<open>_seq\<close>\<close>

definition new_relay :: "pystr \<Rightarrow> int \<Rightarrow> rat \<Rightarrow> relay" where
  "new_relay job_id page now = \<lparr>rl_job = job_id, rl_page = page, flush_chars = 24, flush_interval_s = 1/20,
     held = [], held_size = 0, last_flush = now, rl_seq = 0\<rparr>"

definition relay_add :: "pystr \<Rightarrow> relay \<Rightarrow> relay" where
  "relay_add delta r = r\<lparr>held := held r @ [delta], held_size := held_size r + length delta\<rparr>"

definition relay_due :: "rat \<Rightarrow> relay \<Rightarrow> bool" where
  "relay_due now r \<longleftrightarrow> held_size r \<ge> flush_chars r \<or> now - last_flush r \<ge> flush_interval_s r"

definition relay_take :: "rat \<Rightarrow> relay \<Rightarrow> relay" where
  "relay_take now r = r\<lparr>held := [], held_size := 0, last_flush := now, rl_seq := rl_seq r + 1\<rparr>"

definition token_event :: "relay \<Rightarrow> pystr \<Rightarrow> 't \<Rightarrow> 't stream_event" where
  "token_event r part now = \<lparr>ev_type = Token, ev_job_id = rl_job r, ev_page = Some (rl_page r), ev_data = part,
     ev_seq = rl_seq r, ev_ts = now, ev_id = None\<rparr>"

definition relay_flush :: "'w redis \<Rightarrow> settings \<Rightarrow> ('w, 't) time_api \<Rightarrow> (relay \<times> 'w, unit) prog" where
  "relay_flush R S T = bindE (getS held) (\<lambda>batch. if batch = [] then retE ()
     else bindE (liftS (perf T)) (\<lambda>now.
          bindE (modS (relay_take now)) (\<lambda>_.
          bindE (getS id) (\<lambda>r.
          bindE (liftS (now_utc T)) (\<lambda>ts.
          bindE (liftS (publish R S T (token_event r (concat batch) ts))) (\<lambda>_. retE ()))))))"

definition relay_call :: "'w redis \<Rightarrow> settings \<Rightarrow> ('w, 't) time_api \<Rightarrow> pystr \<Rightarrow> (relay \<times> 'w, unit) prog" where
  "relay_call R S T delta = bindE (modS (relay_add delta)) (\<lambda>_.
     bindE (liftS (perf T)) (\<lambda>now.
     bindE (getS (relay_due now)) (\<lambda>due. if due then relay_flush R S T else retE ())))"

text \<open>A relay that keeps its books: the size is that of the text it holds.\<close>

definition relay_ok :: "relay \<Rightarrow> bool" where
  "relay_ok r \<longleftrightarrow> held_size r = length (concat (held r))"

lemma relay_ok_simps [simp]:
  "relay_ok (new_relay j p now)" "relay_ok r \<Longrightarrow> relay_ok (relay_add d r)" "relay_ok (relay_take now r)"
  by (simp_all add: relay_ok_def new_relay_def relay_add_def relay_take_def)

text \<open>\<open>token_entries T r n ps es\<close>: the entries \<open>es\<close> are the token events of relay \<open>r\<close> for the texts \<open>ps\<close>,
  numbered from \<open>n + 1\<close> on.\<close>

definition token_entries :: "('w, 't) time_api \<Rightarrow> relay \<Rightarrow> int \<Rightarrow> pystr list \<Rightarrow> entry list \<Rightarrow> bool" where
  "token_entries T r n ps es \<longleftrightarrow> length es = length ps \<and> (\<forall>k < length ps. \<exists>ts.
     snd (es ! k) = event_fields T (token_event (r\<lparr>rl_seq := n + 1 + int k\<rparr>) (ps ! k) ts))"

lemma token_entries_Nil [simp]: "token_entries T r n [] []"
  by (simp add: token_entries_def)

lemma token_entries_snoc:
  assumes "token_entries T r n ps es" and "d = event_fields T (token_event (r\<lparr>rl_seq := n + 1 + int (length ps)\<rparr>) p ts)"
  shows "token_entries T r n (ps @ [p]) (es @ [(i, d)])"
  using assms by (auto simp: token_entries_def nth_append less_Suc_eq)

text \<open>What a relay has done since it was \<open>r0\<close> in store \<open>s0\<close> and was given the text \<open>t\<close>: the texts it published
  and the text it holds spell what it held and was given; the log of the job has grown by these token
  events, numbered without a gap, up to the trimming of its old end.\<close>

definition relayed :: "('w \<Rightarrow> store) \<Rightarrow> ('w, 't) time_api \<Rightarrow> relay \<Rightarrow> store \<Rightarrow> pystr \<Rightarrow> relay \<times> 'w \<Rightarrow> bool" where
  "relayed view T r0 s0 t rw \<longleftrightarrow> (\<exists>ps es n. let k = events_stream (rl_job r0); r = fst rw in
     token_entries T r0 (rl_seq r0) ps es \<and> rl_seq r = rl_seq r0 + int (length ps) \<and>
     concat ps @ concat (held r) = concat (held r0) @ t \<and>
     s_stream (view (snd rw)) k = drop n (s_stream s0 k @ es) \<and> n \<le> length (s_stream s0 k @ es) \<and>
     rl_job r = rl_job r0 \<and> rl_page r = rl_page r0)"

lemma relayed_refl: "relayed view T r (view w) [] (r, w)"
  by (auto simp: relayed_def Let_def intro!: exI [of _ "[]"] exI [of _ "0 :: nat"])

lemma relayed_held:
  assumes "relayed view T r0 s0 t (r, w)" and "rl_job r' = rl_job r" "rl_page r' = rl_page r" "rl_seq r' = rl_seq r"
    and "concat (held r') = concat (held r) @ u"
  shows "relayed view T r0 s0 (t @ u) (r', w)"
proof -
  from assms obtain ps es n where "concat ps @ concat (held r) = concat (held r0) @ t"
    and *: "token_entries T r0 (rl_seq r0) ps es" "rl_seq r = rl_seq r0 + int (length ps)"
      "s_stream (view w) (events_stream (rl_job r0)) = drop n (s_stream s0 (events_stream (rl_job r0)) @ es)"
      "n \<le> length (s_stream s0 (events_stream (rl_job r0)) @ es)" "rl_job r = rl_job r0" "rl_page r = rl_page r0"
    by (auto simp: relayed_def Let_def)
  then have "concat ps @ concat (held r') = concat (held r0) @ t @ u" by (simp add: assms(5))
  then show ?thesis
    unfolding relayed_def Let_def using * assms(2-4) by (intro exI [of _ ps] exI [of _ es] exI [of _ n]) simp
qed

lemma relayed_view: "relayed view T r0 s0 t (r, w) \<Longrightarrow> view w' = view w \<Longrightarrow> relayed view T r0 s0 t (r, w')"
  by (simp add: relayed_def)

lemma drop_drop_snoc: "c \<le> length (drop m xs) \<Longrightarrow> m \<le> length xs \<Longrightarrow> drop c (drop m xs) @ [x] = drop (m + c) (xs @ [x])"
  by (simp add: add.commute)

context job_store begin

lemma liftS_InrD: "liftS m (r, w) = (Inr a, r', w') \<Longrightarrow> r' = r \<and> m w = (Inr a, w')"
  by (auto simp: liftS_def split: prod.splits)

lemma flush_relayed:
  assumes clock: "effect view (perf T) does_nothing"
    and run: "relay_flush R S T (r, w) = (Inr u, r', w')" and was: "relayed view T r0 s0 t (r, w)"
  shows "relayed view T r0 s0 t (r', w') \<and> held r' = []"
proof (cases "held r = []")
  case True
  then show ?thesis using run was by (simp add: relay_flush_def bindE_def getS_def retE_def)
next
  case False
  obtain now w1 ts w2 i where p: "perf T w = (Inr now, w1)" and n: "now_utc T w1 = (Inr ts, w2)"
    and pub: "publish R S T (token_event (relay_take now r) (concat (held r)) ts) w2 = (Inr i, w')"
    and r': "r' = relay_take now r"
    using run False
    by (auto simp: relay_flush_def bindE_Inr_iff getS_def modS_def dest!: liftS_InrD)
  have same: "view w2 = view w" using does_nothing_InrD [OF clock p] now_InrD [OF n] by simp
  from was obtain ps es m where
    es: "token_entries T r0 (rl_seq r0) ps es" "rl_seq r = rl_seq r0 + int (length ps)"
      "concat ps @ concat (held r) = concat (held r0) @ t"
      "s_stream (view w) (events_stream (rl_job r0)) = drop m (s_stream s0 (events_stream (rl_job r0)) @ es)"
      "m \<le> length (s_stream s0 (events_stream (rl_job r0)) @ es)"
    and job: "rl_job r = rl_job r0" "rl_page r = rl_page r0"
    by (auto simp: relayed_def Let_def)
  let ?k = "events_stream (rl_job r0)"
  let ?d = "event_fields T (token_event (relay_take now r) (concat (held r)) ts)"
  obtain c where c: "c \<le> length (s_stream (view w) ?k)" "s_stream (view w') ?k = drop c (s_stream (view w) ?k) @ [(i, ?d)]"
    using outcome_InrD [OF effect_outcome [OF xadd_effect] pub [unfolded publish_def]] same
    by (auto simp: does_xadd_def token_event_def relay_take_def job)
  have d: "?d = event_fields T (token_event (r0\<lparr>rl_seq := rl_seq r0 + 1 + int (length ps)\<rparr>) (concat (held r)) ts)"
    by (simp add: token_event_def relay_take_def job es(2) ac_simps)
  have "token_entries T r0 (rl_seq r0) (ps @ [concat (held r)]) (es @ [(i, ?d)])"
    by (rule token_entries_snoc [OF es(1) d])
  moreover have "s_stream (view w') ?k = drop (m + c) ((s_stream s0 ?k @ es) @ [(i, ?d)])"
    unfolding c(2) es(4) by (rule drop_drop_snoc) (use c(1) es(4,5) in simp_all)
  moreover have "m + c \<le> length (s_stream s0 ?k @ es)" using c(1) es(4,5) by simp
  ultimately show ?thesis
    unfolding relayed_def Let_def r'
    using es(2,3) job
    by (intro conjI exI [of _ "ps @ [concat (held r)]"] exI [of _ "es @ [(i, ?d)]"] exI [of _ "m + c"])
      (simp_all add: relay_take_def del: drop_append)
qed

lemma call_relayed:
  assumes clock: "effect view (perf T) does_nothing"
    and run: "relay_call R S T d (r, w) = (Inr u, r', w')" and was: "relayed view T r0 s0 t (r, w)"
  shows "relayed view T r0 s0 (t @ d) (r', w')"
proof -
  obtain now w1 where p: "perf T w = (Inr now, w1)"
    and rest: "(if relay_due now (relay_add d r) then relay_flush R S T else retE ()) (relay_add d r, w1) = (Inr u, r', w')"
    using run by (auto simp: relay_call_def bindE_Inr_iff getS_def modS_def dest!: liftS_InrD)
  have "relayed view T r0 s0 (t @ d) (relay_add d r, w1)"
    using relayed_view [OF relayed_held [OF was, of "relay_add d r" d] does_nothing_InrD [OF clock p]]
    by (simp add: relay_add_def)
  with rest show ?thesis using flush_relayed [OF clock] by (auto split: if_splits)
qed

lemma calls_relayed:
  assumes clock: "effect view (perf T) does_nothing"
    and run: "mapE (relay_call R S T) ds (r, w) = (Inr us, r', w')" and was: "relayed view T r0 s0 t (r, w)"
  shows "relayed view T r0 s0 (t @ concat ds) (r', w')"
  using run was
proof (induction ds arbitrary: r w t us)
  case (Cons d ds)
  from Cons.prems(1) obtain u r1 w1 vs where "relay_call R S T d (r, w) = (Inr u, r1, w1)"
    and "mapE (relay_call R S T) ds (r1, w1) = (Inr vs, r', w')"
    by (auto simp: bindE_Inr_iff)
  from Cons.IH [OF this(2) call_relayed [OF clock this(1) Cons.prems(2)]] show ?case by simp
qed simp

end

text \<open>
  C28. The relayed tokens spell the text. A relay that is called with the deltas of a page and then flushed,
  and whose calls return, has appended to the job's log exactly \<open>token\<close> events of that page, numbered
  from 1 without a gap, whose texts put together are the deltas put together.
\<close>

theorem relayed_tokens_spell_text:
  assumes "job_store view R T" and "effect view (perf T) does_nothing"
    and "bindE (mapE (relay_call R S T) ds) (\<lambda>_. relay_flush R S T) (new_relay j p t0, w) = (Inr u, r', w')"
  shows "\<exists>ps es n. concat ps = concat ds \<and> token_entries T (new_relay j p t0) 0 ps es \<and>
    s_stream (view w') (events_stream j) = drop n (s_stream (view w) (events_stream j) @ es)"
proof -
  obtain us r1 w1 where calls: "mapE (relay_call R S T) ds (new_relay j p t0, w) = (Inr us, r1, w1)"
    and flush: "relay_flush R S T (r1, w1) = (Inr u, r', w')"
    using assms(3) by (auto simp: bindE_Inr_iff)
  have "relayed view T (new_relay j p t0) (view w) (concat ds) (r', w') \<and> held r' = []"
    using job_store.flush_relayed [OF assms(1,2) flush
        job_store.calls_relayed [OF assms(1,2) calls relayed_refl]] by simp
  then obtain ps es n where "token_entries T (new_relay j p t0) 0 ps es" "concat ps = concat ds"
    "s_stream (view w') (events_stream j) = drop n (s_stream (view w) (events_stream j) @ es)"
    by (auto simp: relayed_def Let_def new_relay_def simp del: drop_append)
  then show ?thesis by (intro exI conjI)
qed

end
