(* ===== verification/Tasks.thy ===== *)
theory Tasks
  imports Main
begin

text \<open>
  Concurrent tasks as labelled steps. A machine is a function from an action and a state to the next
  state, \<open>None\<close> where the action cannot happen; the actions carry what the environment chooses. \<open>runs\<close>
  are its finite runs, \<open>exec\<close> computes the state after a list of actions. Two interfaces: \<open>invariant\<close>, for
  properties of the actions so far and the state, and \<open>draining\<close>, for machines that come to an end.
\<close>

inductive runs :: "('a \<Rightarrow> 's \<Rightarrow> 's option) \<Rightarrow> 's \<Rightarrow> 'a list \<Rightarrow> 's \<Rightarrow> bool" for step s0 where
  start: "runs step s0 [] s0"
| step: "runs step s0 acts s \<Longrightarrow> step a s = Some s' \<Longrightarrow> runs step s0 (acts @ [a]) s'"

fun exec :: "('a \<Rightarrow> 's \<Rightarrow> 's option) \<Rightarrow> 'a list \<Rightarrow> 's \<Rightarrow> 's option" where
  "exec step [] s = Some s"
| "exec step (a # acts) s = (case step a s of None \<Rightarrow> None | Some s' \<Rightarrow> exec step acts s')"

inductive_cases runs_NilE: "runs step s0 [] s"
inductive_cases runs_snocE: "runs step s0 (acts @ [a]) s"

lemma exec_append: "exec step (acts @ bs) s = (case exec step acts s of None \<Rightarrow> None | Some s' \<Rightarrow> exec step bs s')"
  by (induction acts arbitrary: s) (auto split: option.splits)

lemma runs_iff_exec: "runs step s0 acts s \<longleftrightarrow> exec step acts s0 = Some s"
proof
  show "runs step s0 acts s \<Longrightarrow> exec step acts s0 = Some s"
    by (induction rule: runs.induct) (simp_all add: exec_append)
  show "exec step acts s0 = Some s \<Longrightarrow> runs step s0 acts s"
  proof (induction acts arbitrary: s rule: rev_induct)
    case Nil
    then show ?case by (simp add: runs.start)
  next
    case (snoc a acts)
    then obtain s1 where "exec step acts s0 = Some s1" "step a s1 = Some s"
      by (auto simp: exec_append split: option.splits)
    then show ?case using snoc.IH runs.step by metis
  qed
qed

lemma runs_trans: "runs step s0 acts s \<Longrightarrow> runs step s bs s' \<Longrightarrow> runs step s0 (acts @ bs) s'"
  by (simp add: runs_iff_exec exec_append)

locale invariant =
  fixes step :: "'a \<Rightarrow> 's \<Rightarrow> 's option" and s0 :: 's and inv :: "'a list \<Rightarrow> 's \<Rightarrow> bool"
  assumes holds_first: "inv [] s0"
    and kept: "inv acts s \<Longrightarrow> step a s = Some s' \<Longrightarrow> inv (acts @ [a]) s'"
begin

lemma holds: "runs step s0 acts s \<Longrightarrow> inv acts s"
  by (induction rule: runs.induct) (auto intro: holds_first kept)

end

locale draining =
  fixes step :: "'a \<Rightarrow> 's \<Rightarrow> 's option" and ok :: "'s \<Rightarrow> bool" and final :: "'s \<Rightarrow> bool" and work :: "'s \<Rightarrow> nat"
  assumes less_work: "ok s \<Longrightarrow> step a s = Some s' \<Longrightarrow> work s' < work s"
    and stays_ok: "ok s \<Longrightarrow> step a s = Some s' \<Longrightarrow> ok s'"
    and not_stuck: "ok s \<Longrightarrow> \<not> final s \<Longrightarrow> \<exists>a s'. step a s = Some s'"
begin

lemma run_bounded: "runs step s acts s' \<Longrightarrow> ok s \<Longrightarrow> ok s' \<and> length acts + work s' \<le> work s"
  by (induction rule: runs.induct) (auto dest: stays_ok less_work)

lemma ends: "ok s \<Longrightarrow> \<exists>acts s'. runs step s acts s' \<and> final s'"
proof (induction "work s" arbitrary: s rule: less_induct)
  case less
  show ?case
  proof (cases "final s")
    case True
    then show ?thesis using runs.start by metis
  next
    case False
    then obtain a s1 where a: "step a s = Some s1" using not_stuck less.prems by blast
    then obtain acts s' where "runs step s1 acts s'" "final s'"
      using less.hyps [OF less_work [OF less.prems a] stays_ok [OF less.prems a]] by blast
    then have "runs step s ([a] @ acts) s'" using a by (auto simp: runs_iff_exec)
    then show ?thesis using \<open>final s'\<close> by blast
  qed
qed

text \<open>However a run goes, it can go on to the end, and no run is longer than the work there is.\<close>

lemma always_ends: "ok s \<Longrightarrow> runs step s acts s' \<Longrightarrow> \<exists>bs s''. runs step s (acts @ bs) s'' \<and> final s''"
  using run_bounded ends runs_trans by metis

end

end
