(* ===== verification/Page_Regions.thy ===== *)
theory Page_Regions
  imports Token_Relay Postprocess Layout Tasks
begin

text \<open>
  The regions of one page, \<open>run_region\<close> in \<open>_process_page\<close> of \<open>workers/cpu_worker.py\<close>. The regions are tasks that
  run concurrently and share the relay and the lists of the page. A step is what a task does between
  two awaits; \<open>region_step\<close> gives the state after a step, \<open>None\<close> when the task is not at that point.
  What the engine answers and when, and which publication reaches Redis when, is the environment's choice: it
  is in the step.
\<close>

datatype phase =
    Waiting                                     \<comment> \<open>for the image or for the semaphore\<close>
  | Streaming
  | Relaying "pystr \<times> int"                    \<comment> \<open>the callback awaits a publication\<close>
  | Flushing "pystr \<times> int" stream_stats       \<comment> \<open>the flush after the stream does\<close>
  | Finished stream_stats                       \<comment> \<open>the task is done; the stream it had\<close>
  | Failed exn

record page_run =
  pg_relay :: relay
  pg_phase :: "phase list"
  pg_sent :: "(pystr \<times> int) list"     \<comment> \<open>the token events in the order in which Redis has them: text and number\<close>
  pg_lost :: "(pystr \<times> int) list"     \<comment> \<open>those whose publication raised\<close>
  pg_texts :: "pystr list"
  pg_ttfts :: "rat list"
  pg_tokens :: int
  pg_errors :: "pystr list"

datatype act =
    Begin nat                           \<comment> \<open>the semaphore is acquired, the request sent\<close>
  | Spoil nat exn                       \<comment> \<open>the crop or its encoding raises\<close>
  | Delta nat pystr rat rat             \<comment> \<open>a delta arrives; readings of the clock by the call and by the flush\<close>
  | Sent nat
  | Unsent nat exn
  | End nat stream_stats rat            \<comment> \<open>\<open>ocr_page_stream\<close> returns\<close>

definition new_page_run :: "relay \<Rightarrow> nat \<Rightarrow> page_run" where
  "new_page_run r n = \<lparr>pg_relay = r, pg_phase = replicate n Waiting, pg_sent = [], pg_lost = [],
     pg_texts = replicate n [], pg_ttfts = [], pg_tokens = 0, pg_errors = []\<rparr>"

fun holds_slot :: "phase \<Rightarrow> bool" where
  "holds_slot Streaming = True"
| "holds_slot (Relaying ev) = True"
| "holds_slot _ = False"

definition phase_of :: "page_run \<Rightarrow> nat \<Rightarrow> phase option" where
  "phase_of p i = (if i < length (pg_phase p) then Some (pg_phase p ! i) else None)"

definition set_phase :: "nat \<Rightarrow> phase \<Rightarrow> page_run \<Rightarrow> page_run" where
  "set_phase i ph p = p\<lparr>pg_phase := (pg_phase p)[i := ph]\<rparr>"

definition record_stats :: "nat \<Rightarrow> stream_stats \<Rightarrow> page_run \<Rightarrow> page_run" where
  "record_stats i st p = (case non_empty (error st) of
       Some e \<Rightarrow> p\<lparr>pg_errors := pg_errors p @ [e]\<rparr>
     | None \<Rightarrow> p\<lparr>pg_texts := (pg_texts p)[i := out st], pg_tokens := pg_tokens p + completion_tokens st,
         pg_ttfts := (if ttft_s st \<noteq> 0 then pg_ttfts p @ [ttft_s st] else pg_ttfts p)\<rparr>)"

definition flushed :: "relay \<Rightarrow> pystr \<times> int" where
  \<comment> \<open>what a flush of a relay that holds text publishes\<close>
  "flushed r = (concat (held r), rl_seq r + 1)"

fun region_step :: "settings \<Rightarrow> act \<Rightarrow> page_run \<Rightarrow> page_run option" where
  "region_step S (Begin i) p = (if phase_of p i = Some Waiting \<and> length (filter holds_slot (pg_phase p)) < region_concurrency S
     then Some (set_phase i Streaming p) else None)"
| "region_step S (Spoil i e) p = (if phase_of p i = Some Waiting then Some (set_phase i (Failed e) p) else None)"
| "region_step S (Delta i d now now') p = (if phase_of p i = Some Streaming
     then let r = relay_add d (pg_relay p) in
       Some (if relay_due now r then set_phase i (Relaying (flushed r)) (p\<lparr>pg_relay := relay_take now' r\<rparr>)
         else p\<lparr>pg_relay := r\<rparr>)
     else None)"
| "region_step S (Sent i) p = (case phase_of p i of
       Some (Relaying ev) \<Rightarrow> Some (set_phase i Streaming (p\<lparr>pg_sent := pg_sent p @ [ev]\<rparr>))
     | Some (Flushing ev st) \<Rightarrow> Some (set_phase i (Finished st) (record_stats i st (p\<lparr>pg_sent := pg_sent p @ [ev]\<rparr>)))
     | _ \<Rightarrow> None)"
| "region_step S (Unsent i e) p = (case phase_of p i of
       \<comment> \<open>the client of the engine catches what its callback raises\<close>
       Some (Relaying ev) \<Rightarrow> Some (set_phase i Streaming (p\<lparr>pg_lost := pg_lost p @ [ev]\<rparr>))
     | Some (Flushing ev st) \<Rightarrow> Some (set_phase i (Failed e) (p\<lparr>pg_lost := pg_lost p @ [ev]\<rparr>))
     | _ \<Rightarrow> None)"
| "region_step S (End i st now) p = (if phase_of p i = Some Streaming
     then if held (pg_relay p) = [] then Some (set_phase i (Finished st) (record_stats i st p))
       else Some (set_phase i (Flushing (flushed (pg_relay p)) st) (p\<lparr>pg_relay := relay_take now (pg_relay p)\<rparr>))
     else None)"

section \<open>What a run has seen\<close>

definition arrivals :: "act list \<Rightarrow> pystr list" where
  "arrivals acts = List.map_filter (\<lambda>a. case a of Delta i d now now' \<Rightarrow> Some d | _ \<Rightarrow> None) acts"

definition numbered :: "pystr list \<Rightarrow> (pystr \<times> int) list" where
  "numbered ps = map (\<lambda>k. (ps ! k, int k + 1)) [0..<length ps]"

definition region_text :: "stream_stats \<Rightarrow> pystr" where
  "region_text st = (if non_empty (error st) = None then out st else [])"

definition region_tokens :: "stream_stats \<Rightarrow> int" where
  "region_tokens st = (if non_empty (error st) = None then completion_tokens st else 0)"

definition region_errors :: "stream_stats \<Rightarrow> pystr multiset" where
  "region_errors st = (case non_empty (error st) of None \<Rightarrow> {#} | Some e \<Rightarrow> {#e#})"

fun in_flight :: "phase \<Rightarrow> (pystr \<times> int) multiset" where
  "in_flight (Relaying ev) = {#ev#}"
| "in_flight (Flushing ev st) = {#ev#}"
| "in_flight _ = {#}"

lemma arrivals_snoc [simp]: "arrivals (acts @ [a]) = arrivals acts @ (case a of Delta i d now now' \<Rightarrow> [d] | _ \<Rightarrow> [])"
  by (simp add: arrivals_def List.map_filter_def split: act.splits)

lemma numbered_snoc: "numbered (ps @ [p]) = numbered ps @ [(p, int (length ps) + 1)]"
  by (simp add: numbered_def nth_append)

lemma sum_update:
  fixes f g :: "nat \<Rightarrow> 'a :: comm_monoid_add"
  assumes "i < n" and "g i = f i + d" and "\<And>j. j \<noteq> i \<Longrightarrow> j < n \<Longrightarrow> g j = f j"
  shows "(\<Sum>j<n. g j) = (\<Sum>j<n. f j) + d"
proof -
  have "(\<Sum>j\<in>{..<n} - {i}. g j) = (\<Sum>j\<in>{..<n} - {i}. f j)" by (rule sum.cong) (use assms(3) in auto)
  then show ?thesis
    using assms(1,2) by (simp add: sum.remove [of "{..<n}" i] ac_simps)
qed

text \<open>A fact of every region that is the sum of a fact of its phase.\<close>

definition over_phases :: "(nat \<Rightarrow> phase \<Rightarrow> 'a :: comm_monoid_add) \<Rightarrow> page_run \<Rightarrow> 'a" where
  "over_phases f p = (\<Sum>i<length (pg_phase p). f i (pg_phase p ! i))"

lemma phase_of_Some [simp]: "phase_of p i = Some ph \<longleftrightarrow> i < length (pg_phase p) \<and> pg_phase p ! i = ph"
  by (auto simp: phase_of_def)

lemma over_set_phase:
  "i < length (pg_phase p) \<Longrightarrow> f i ph = f i (pg_phase p ! i) + d \<Longrightarrow> over_phases f (set_phase i ph p) = over_phases f p + d"
  unfolding over_phases_def set_phase_def by (simp add: sum_update [where i = i and d = d])

lemma over_set_phase_less:
  fixes f :: "nat \<Rightarrow> phase \<Rightarrow> 'a :: cancel_comm_monoid_add"
  assumes "i < length (pg_phase p)" "f i (pg_phase p ! i) = f i ph + d"
  shows "over_phases f p = over_phases f (set_phase i ph p) + d"
proof -
  have "over_phases f (set_phase i (pg_phase p ! i) (set_phase i ph p)) = over_phases f (set_phase i ph p) + d"
    by (rule over_set_phase) (use assms in \<open>simp_all add: set_phase_def\<close>)
  then show ?thesis by (simp add: set_phase_def)
qed

lemma over_phases_cong: "pg_phase q = pg_phase p \<Longrightarrow> over_phases f q = over_phases f p"
  by (simp add: over_phases_def)

lemma record_stats_simps [simp]:
  "pg_phase (record_stats i st p) = pg_phase p" "pg_relay (record_stats i st p) = pg_relay p"
  "pg_sent (record_stats i st p) = pg_sent p" "pg_lost (record_stats i st p) = pg_lost p"
  "length (pg_texts (record_stats i st p)) = length (pg_texts p)"
  "i < length (pg_texts p) \<Longrightarrow> pg_texts p ! i = [] \<Longrightarrow> pg_texts (record_stats i st p) = (pg_texts p)[i := region_text st]"
  "pg_tokens (record_stats i st p) = pg_tokens p + region_tokens st"
  "mset (pg_errors (record_stats i st p)) = mset (pg_errors p) + region_errors st"
  by (auto simp: record_stats_def region_text_def region_tokens_def region_errors_def split: option.splits)
    (metis list_update_id)+

lemma set_phase_simps [simp]:
  "pg_phase (set_phase i ph p) = (pg_phase p)[i := ph]" "pg_relay (set_phase i ph p) = pg_relay p"
  "pg_sent (set_phase i ph p) = pg_sent p" "pg_lost (set_phase i ph p) = pg_lost p"
  "pg_texts (set_phase i ph p) = pg_texts p" "pg_tokens (set_phase i ph p) = pg_tokens p"
  "pg_errors (set_phase i ph p) = pg_errors p"
  by (simp_all add: set_phase_def)

section \<open>Invariants\<close>

text \<open>The books of the relay: the texts it has taken, numbered from 1, are each sent, lost or on their way,
  and with what it holds they spell the deltas; it holds text only while a region streams.\<close>

definition books :: "act list \<Rightarrow> page_run \<Rightarrow> bool" where
  "books acts p \<longleftrightarrow> (\<exists>ps. rl_seq (pg_relay p) = int (length ps) \<and>
       concat ps @ concat (held (pg_relay p)) = concat (arrivals acts) \<and>
       mset (pg_sent p) + mset (pg_lost p) + over_phases (\<lambda>i. in_flight) p = mset (numbered ps)) \<and>
     (held (pg_relay p) \<noteq> [] \<longrightarrow> (\<exists>j<length (pg_phase p). holds_slot (pg_phase p ! j)))"

text \<open>The accounts of the page: what the tasks that are done have left in the shared lists.\<close>

fun text_at :: "phase \<Rightarrow> pystr" where
  "text_at (Finished st) = region_text st"
| "text_at _ = []"

fun tokens_at :: "phase \<Rightarrow> int" where
  "tokens_at (Finished st) = region_tokens st"
| "tokens_at _ = 0"

fun errors_at :: "phase \<Rightarrow> pystr multiset" where
  "errors_at (Finished st) = region_errors st"
| "errors_at _ = {#}"

definition accounts :: "act list \<Rightarrow> page_run \<Rightarrow> bool" where
  "accounts acts p \<longleftrightarrow> pg_texts p = map text_at (pg_phase p) \<and> pg_tokens p = over_phases (\<lambda>i. tokens_at) p \<and>
     mset (pg_errors p) = over_phases (\<lambda>i. errors_at) p"

lemma accounts_cong:
  "accounts acts p \<Longrightarrow> pg_phase q = pg_phase p \<Longrightarrow> pg_texts q = pg_texts p \<Longrightarrow> pg_tokens q = pg_tokens p \<Longrightarrow>
   pg_errors q = pg_errors p \<Longrightarrow> accounts acts' q"
  by (simp add: accounts_def over_phases_def)

lemma accounts_set_phase:
  assumes "accounts acts p" "i < length (pg_phase p)" "text_at ph = text_at (pg_phase p ! i)"
    "tokens_at ph = tokens_at (pg_phase p ! i)" "errors_at ph = errors_at (pg_phase p ! i)"
  shows "accounts acts' (set_phase i ph p)"
  using assms over_set_phase [of i p "\<lambda>i. tokens_at" ph 0] over_set_phase [of i p "\<lambda>i. errors_at" ph "{#}"]
  by (simp add: accounts_def map_update) (metis length_map list_update_id nth_map)

lemma accounts_record:
  assumes "accounts acts p" "i < length (pg_phase p)" "text_at (pg_phase p ! i) = []"
    "tokens_at (pg_phase p ! i) = 0" "errors_at (pg_phase p ! i) = {#}"
  shows "accounts acts' (set_phase i (Finished st) (record_stats i st p))"
  using assms over_set_phase [of i "record_stats i st p" "\<lambda>i. tokens_at" "Finished st" "region_tokens st"]
    over_set_phase [of i "record_stats i st p" "\<lambda>i. errors_at" "Finished st" "region_errors st"]
    over_phases_cong [of "record_stats i st p" p "\<lambda>i. tokens_at"] over_phases_cong [of "record_stats i st p" p "\<lambda>i. errors_at"]
  by (simp add: accounts_def map_update)

lemma accounts_step:
  assumes "accounts acts p" and "region_step S a p = Some p'"
  shows "accounts acts' p'"
proof (cases a)
  case (Delta i d now now')
  then show ?thesis
    using assms by (auto simp: Let_def split: if_splits intro!: accounts_set_phase elim: accounts_cong)
next
  case (Sent i)
  then show ?thesis
    using assms by (auto split: option.splits phase.splits intro!: accounts_set_phase accounts_record elim: accounts_cong)
next
  case (Unsent i e)
  then show ?thesis
    using assms by (auto split: option.splits phase.splits intro!: accounts_set_phase elim: accounts_cong)
next
  case (End i st now)
  then show ?thesis
    using assms by (auto split: if_splits intro!: accounts_set_phase accounts_record elim: accounts_cong)
qed (use assms in \<open>auto split: if_splits intro!: accounts_set_phase\<close>)

interpretation page_accounts: invariant "region_step S" "new_page_run r n" accounts for S r n
proof unfold_locales
  show "accounts [] (new_page_run r n)" by (simp add: accounts_def new_page_run_def over_phases_def)
qed (rule accounts_step)

lemma books_same:
  \<comment> \<open>a step that neither adds nor moves text\<close>
  assumes "books acts p" "i < length (pg_phase p)" "in_flight ph = in_flight (pg_phase p ! i)"
    "held (pg_relay p) \<noteq> [] \<Longrightarrow> holds_slot ph \<or> \<not> holds_slot (pg_phase p ! i)" "arrivals acts' = arrivals acts"
  shows "books acts' (set_phase i ph p)"
proof -
  have "over_phases (\<lambda>i. in_flight) (set_phase i ph p) = over_phases (\<lambda>i. in_flight) p"
    using over_set_phase [of i p "\<lambda>i. in_flight" ph "{#}"] assms(2,3) by simp
  moreover have "\<exists>j<length (pg_phase p). holds_slot ((pg_phase p)[i := ph] ! j)" if "held (pg_relay p) \<noteq> []"
    using that assms(1,2,4) by (metis books_def nth_list_update)
  ultimately show ?thesis using assms(1,5) by (simp add: books_def)
qed

lemma books_take:
  \<comment> \<open>a flush that takes what the relay holds\<close>
  assumes "books acts p" "i < length (pg_phase p)" "in_flight (pg_phase p ! i) = {#}"
    and "in_flight ph = {#flushed (pg_relay p)#}" "arrivals acts' = arrivals acts"
  shows "books acts' (set_phase i ph (p\<lparr>pg_relay := relay_take now (pg_relay p)\<rparr>))"
proof -
  let ?q = "p\<lparr>pg_relay := relay_take now (pg_relay p)\<rparr>"
  obtain ps where ps: "rl_seq (pg_relay p) = int (length ps)" "concat ps @ concat (held (pg_relay p)) = concat (arrivals acts)"
    "mset (pg_sent p) + mset (pg_lost p) + over_phases (\<lambda>i. in_flight) p = mset (numbered ps)"
    using assms(1) by (auto simp: books_def)
  have "over_phases (\<lambda>i. in_flight) (set_phase i ph ?q) = over_phases (\<lambda>i. in_flight) p + {#flushed (pg_relay p)#}"
    using over_set_phase [of i ?q "\<lambda>i. in_flight" ph "{#flushed (pg_relay p)#}"] over_phases_cong [of ?q p "\<lambda>i. in_flight"]
      assms(2-4) by simp
  then show ?thesis
    unfolding books_def using ps assms(5)
    by (intro conjI exI [of _ "ps @ [concat (held (pg_relay p))]"])
      (simp_all add: relay_take_def flushed_def numbered_snoc)
qed

lemma books_landed:
  \<comment> \<open>a publication that is over\<close>
  assumes "books acts p" "i < length (pg_phase p)" "in_flight (pg_phase p ! i) = {#ev#}" "in_flight ph = {#}"
    and "held (pg_relay p) \<noteq> [] \<Longrightarrow> holds_slot ph \<or> \<not> holds_slot (pg_phase p ! i)" "arrivals acts' = arrivals acts"
    and "pg_phase q = pg_phase p" "pg_relay q = pg_relay p"
      "mset (pg_sent q) + mset (pg_lost q) = mset (pg_sent p) + mset (pg_lost p) + {#ev#}"
  shows "books acts' (set_phase i ph q)"
proof -
  have "over_phases (\<lambda>i. in_flight) p = over_phases (\<lambda>i. in_flight) (set_phase i ph q) + {#ev#}"
    using over_set_phase_less [of i p "\<lambda>i. in_flight" ph "{#ev#}"] assms(2-4,7)
    by (simp add: over_phases_def)
  moreover have "\<exists>j<length (pg_phase p). holds_slot ((pg_phase p)[i := ph] ! j)" if "held (pg_relay p) \<noteq> []"
    using that assms(1,2,5) by (metis books_def nth_list_update)
  ultimately show ?thesis using assms(1,6-) by (simp add: books_def ac_simps)
qed

lemma books_add:
  assumes "books acts p" "i < length (pg_phase p)" "pg_phase p ! i = Streaming" "arrivals acts' = arrivals acts @ [d]"
  shows "books acts' (p\<lparr>pg_relay := relay_add d (pg_relay p)\<rparr>)"
proof -
  have "over_phases (\<lambda>i. in_flight) (p\<lparr>pg_relay := relay_add d (pg_relay p)\<rparr>) = over_phases (\<lambda>i. in_flight) p"
    by (rule over_phases_cong) simp
  moreover have "\<exists>j<length (pg_phase p). holds_slot (pg_phase p ! j)" using assms(2,3) by (metis holds_slot.simps(1))
  ultimately show ?thesis
    using assms(1,4) unfolding books_def by (simp add: relay_add_def)
qed

lemma books_step:
  assumes "books acts p" and "region_step S a p = Some p'"
  shows "books (acts @ [a]) p'"
proof (cases a)
  case (Delta i d now now')
  have "books (acts @ [a]) (p\<lparr>pg_relay := relay_add d (pg_relay p)\<rparr>)" if "i < length (pg_phase p)" "pg_phase p ! i = Streaming"
    by (rule books_add [OF assms(1) that]) (simp add: Delta)
  then show ?thesis
    using assms Delta books_take [of "acts @ [a]" "p\<lparr>pg_relay := relay_add d (pg_relay p)\<rparr>" i _ "acts @ [a]" now']
    by (auto simp: Let_def split: if_splits)
next
  case (Sent i)
  show ?thesis
    using assms unfolding Sent
    by (auto split: option.splits phase.splits intro!: books_landed [where p = p])
next
  case (Unsent i e)
  show ?thesis
    using assms unfolding Unsent
    by (auto split: option.splits phase.splits intro!: books_landed [where p = p])
next
  case (End i st now)
  show ?thesis
  proof (cases "held (pg_relay p) = []")
    case True
    then have "books (acts @ [a]) (record_stats i st p)"
      using assms(1) over_phases_cong [of "record_stats i st p" p "\<lambda>i. in_flight"] by (simp add: books_def End)
    then show ?thesis using assms End True by (auto split: if_splits intro!: books_same)
  next
    case False
    then show ?thesis using assms End by (auto split: if_splits intro!: books_take)
  qed
qed (use assms in \<open>auto split: if_splits intro!: books_same\<close>)

interpretation page_books: invariant "region_step S" "new_page_run (new_relay j k now) n" books for S j k now n
proof unfold_locales
  show "books [] (new_page_run (new_relay j k now) n)"
    by (simp add: books_def new_page_run_def new_relay_def over_phases_def arrivals_def numbered_def List.map_filter_def)
qed (rule books_step)

text \<open>No more requests are open than the semaphore allows.\<close>

definition within_slots :: "settings \<Rightarrow> act list \<Rightarrow> page_run \<Rightarrow> bool" where
  "within_slots S acts p \<longleftrightarrow> length (filter holds_slot (pg_phase p)) \<le> region_concurrency S"

lemma length_filter_sum: "length (filter P xs) = (\<Sum>i<length xs. if P (xs ! i) then 1 else 0)"
  by (induction xs rule: rev_induct) (simp_all add: nth_append)

lemma slots_set_phase:
  "i < length xs \<Longrightarrow> length (filter P (xs[i := x])) + (if P (xs ! i) then 1 else 0) = length (filter P xs) + (if P x then 1 else 0)"
  by (simp add: length_filter_sum sum.remove [of "{..<length xs}" i] cong: sum.cong_simp if_cong)

lemma slots_same:
  "i < length xs \<Longrightarrow> P x \<longrightarrow> P (xs ! i) \<Longrightarrow> length (filter P (xs[i := x])) \<le> length (filter P xs)"
  using slots_set_phase [of i xs P x] by (auto split: if_splits)

interpretation page_slots: invariant "region_step S" "new_page_run r n" "within_slots S" for S r n
proof unfold_locales
  show "within_slots S [] (new_page_run r n)" by (simp add: within_slots_def new_page_run_def)
next
  fix acts p a p' assume p: "within_slots S acts p" and st: "region_step S a p = Some p'"
  show "within_slots S (acts @ [a]) p'"
  proof (cases a)
    case (Begin i)
    then show ?thesis using st slots_set_phase [of i "pg_phase p" holds_slot Streaming]
      by (auto simp: within_slots_def split: if_splits)
  qed (use p st in \<open>auto simp: within_slots_def Let_def split: if_splits option.splits phase.splits
      elim!: order_trans [rotated] intro!: slots_same\<close>)
qed

section \<open>Properties\<close>

text \<open>
  C9. The page does not depend on the schedule. However the regions of a page interleave, when every task is
  done the page's texts are, in reading order, the texts of the regions' streams (none for a stream
  that reported an error), its token count is their sum, and its errors are theirs; at no time are
  more requests open than \<open>region_concurrency\<close>.
\<close>

theorem regions_independent_of_schedule:
  assumes "runs (region_step S) (new_page_run r n) acts p" and "pg_phase p = map Finished sts"
  shows "pg_texts p = map region_text sts \<and> pg_tokens p = sum_list (map region_tokens sts) \<and>
    mset (pg_errors p) = sum_list (map region_errors sts) \<and>
    length (filter holds_slot (pg_phase p)) \<le> region_concurrency S"
  using page_accounts.holds [OF assms(1)] page_slots.holds [OF assms(1)] assms(2)
  by (simp add: accounts_def within_slots_def over_phases_def sum_list_sum_nth comp_def atLeast0LessThan)

text \<open>
  C16. The token events of a page. Whatever the schedule and in whatever order the publications reach
  Redis, when every task is done and no publication failed the page has published token events numbered
  1, 2, 3, .., each once, whose texts in the order of their numbers spell all deltas in the order
  in which they came; nothing is left in the relay.
\<close>

theorem page_tokens_spell_deltas:
  assumes "runs (region_step S) (new_page_run (new_relay j k now) n) acts p"
    and "pg_phase p = map Finished sts" and "pg_lost p = []"
  shows "\<exists>ps. mset (pg_sent p) = mset (numbered ps) \<and> concat ps = concat (arrivals acts) \<and> held (pg_relay p) = []"
proof -
  have b: "books acts p" by (rule page_books.holds [OF assms(1)])
  have "over_phases (\<lambda>i. in_flight) p = {#}" using assms(2) by (simp add: over_phases_def)
  moreover have "held (pg_relay p) = []" using b assms(2) by (auto simp: books_def)
  ultimately show ?thesis using b assms(3) by (auto simp: books_def)
qed

end
