(* ===== verification/Page_Pool.thy ===== *)
theory Page_Pool
  imports Page_Regions Documents
begin

text \<open>
  The pages of one document, \<open>_process_pages\<close> and \<open>_process_page\<close> of \<open>workers/cpu_worker.py\<close>: a task per page,
  at most \<open>page_concurrency\<close> of which work at a time; the text of a page is shared with the later pages of
  the same digest through a future. What the image of a page shows, how its regions go (\<open>Page_Regions\<close>) and how
  long things take is the environment's choice.
\<close>

section \<open>The result of a page\<close>

record page_facts =
  rendered :: rendered_page
  img_size :: "int \<times> int"          \<comment> \<open>width and height of the prepared image\<close>
  img_skew :: rat
  img_blank :: bool
  img_digest :: pystr
  img_regions :: nat

definition native_page :: "unicode \<Rightarrow> page_facts \<Rightarrow> pystr \<Rightarrow> rat \<Rightarrow> page_result" where
  "native_page U f native dur = (let text = normalize_text U native in
     (new_page (rp_index (rendered f)))\<lparr>pr_text := text, pr_source := Native, pr_regions := 0, pr_chars := int (length text),
       pr_duration_ms := dur, pr_width := rp_width (rendered f), pr_height := rp_height (rendered f)\<rparr>)"

definition blank_page :: "page_facts \<Rightarrow> rat \<Rightarrow> page_result" where
  "blank_page f dur = (new_page (rp_index (rendered f)))\<lparr>pr_source := Blank, pr_regions := 0, pr_dpi := rp_dpi (rendered f),
     pr_width := fst (img_size f), pr_height := snd (img_size f), pr_skew_deg := img_skew f, pr_duration_ms := dur\<rparr>"

definition duplicate_page :: "page_facts \<Rightarrow> pystr \<Rightarrow> int \<Rightarrow> rat \<Rightarrow> page_result" where
  "duplicate_page f text original dur = (new_page (rp_index (rendered f)))\<lparr>pr_text := text, pr_source := Duplicate,
     pr_regions := 0, pr_chars := int (length text), pr_dpi := rp_dpi (rendered f), pr_width := fst (img_size f),
     pr_height := snd (img_size f), pr_skew_deg := img_skew f, pr_duplicate_of := Some original, pr_duration_ms := dur\<rparr>"

definition page_error :: "pystr list \<Rightarrow> pystr option" where
  "page_error errs = non_empty (Some (take 500 (join (lit ''; '') errs)))"

definition shared_text :: "unicode \<Rightarrow> page_run \<Rightarrow> pystr" where
  "shared_text U p = stitch_regions U (pg_texts p) True"

definition ocr_page :: "unicode \<Rightarrow> page_facts \<Rightarrow> page_run \<Rightarrow> rat \<Rightarrow> page_result" where
  "ocr_page U f p dur = (let (text, flagged) = filter_degenerate (stitch_regions U (pg_texts p) True) (1/2) in
     (new_page (rp_index (rendered f)))\<lparr>pr_text := text, pr_source := Ocr, pr_regions := int (img_regions f),
       pr_chars := int (length text), pr_duration_ms := dur,
       pr_ttft_s := (case pg_ttfts p of [] \<Rightarrow> None | t # ts \<Rightarrow> Some (fold min ts t)), pr_tokens := pg_tokens p,
       pr_dpi := rp_dpi (rendered f), pr_width := fst (img_size f), pr_height := snd (img_size f),
       pr_skew_deg := img_skew f, pr_error := page_error (pg_errors p)\<rparr>)"

section \<open>The tasks\<close>

datatype stage =
    Queued                         \<comment> \<open>waits for \<open>page_sem\<close>\<close>
  | Preparing
  | Announcing                     \<comment> \<open>its future is registered; publishes \<open>page_started\<close>\<close>
  | Reading
  | Copying nat                    \<comment> \<open>waits for the future of that page\<close>
  | Reporting page_result          \<comment> \<open>the semaphore is released, the result listed\<close>
  | Done page_result
  | Dead exn

datatype main =
    Feeding "page_facts list"      \<comment> \<open>the pages that are still to come\<close>
  | Throttled "page_facts list"
  | Gathering "nat list"
  | Returned
  | Raised exn

record pool =
  po_main :: main
  po_tasks :: "(page_facts \<times> stage) list"      \<comment> \<open>in the order of their creation\<close>
  po_dedupe :: "pystr \<rightharpoonup> nat"
  po_future :: "nat \<rightharpoonup> pystr"
  po_pages :: "page_result list"

datatype event =
    Take                           \<comment> \<open>the next page is rendered, the job not cancelled\<close>
  | Cancel                         \<comment> \<open>the cancel flag is seen\<close>
  | Break exn                      \<comment> \<open>rendering, or reading the flag, raises\<close>
  | Resume
  | Close                          \<comment> \<open>the last page was taken\<close>
  | Collect "nat option"           \<comment> \<open>all tasks gathered; the one whose exception is raised\<close>
  | Start nat
  | Prepared nat rat
  | Announced nat
  | Read nat page_run rat          \<comment> \<open>all regions done, the page's time\<close>
  | Spoiled nat page_run exn       \<comment> \<open>a region raised; the texts so far are shared\<close>
  | Unflushed nat exn              \<comment> \<open>the flush in the \<open>finally\<close> block raises\<close>
  | Copied nat rat
  | Reported nat
  | Fail nat exn                   \<comment> \<open>an exception while preparing, announcing or reporting\<close>

fun finished_phase :: "phase \<Rightarrow> bool" where
  "finished_phase (Finished st) = True"
| "finished_phase _ = False"

definition all_read :: "page_facts \<Rightarrow> page_run \<Rightarrow> bool" where
  \<comment> \<open>\<open>gather\<close> has returned: a task per region, each done\<close>
  "all_read f r \<longleftrightarrow> length (pg_phase r) = img_regions f \<and> list_all finished_phase (pg_phase r)"

fun works :: "stage \<Rightarrow> bool" where
  \<comment> \<open>holds \<open>page_sem\<close>\<close>
  "works Preparing = True"
| "works Announcing = True"
| "works Reading = True"
| "works (Copying k) = True"
| "works _ = False"

fun live :: "stage \<Rightarrow> bool" where
  "live (Done r) = False"
| "live (Dead e) = False"
| "live _ = True"

fun raises :: "stage \<Rightarrow> exn option" where
  \<comment> \<open>the exception of a gathered task that is raised again\<close>
  "raises (Dead e) = (if e = JobCancelled then None else Some e)"
| "raises _ = None"

definition count_tasks :: "(stage \<Rightarrow> bool) \<Rightarrow> pool \<Rightarrow> nat" where
  "count_tasks P p = length (filter (\<lambda>t. P (snd t)) (po_tasks p))"

definition task_at :: "pool \<Rightarrow> nat \<Rightarrow> (page_facts \<times> stage) option" where
  "task_at p k = (if k < length (po_tasks p) then Some (po_tasks p ! k) else None)"

definition put_task :: "nat \<Rightarrow> page_facts \<Rightarrow> stage \<Rightarrow> pool \<Rightarrow> pool" where
  "put_task k f st p = p\<lparr>po_tasks := (po_tasks p)[k := (f, st)]\<rparr>"

definition list_page :: "nat \<Rightarrow> page_facts \<Rightarrow> page_result \<Rightarrow> pool \<Rightarrow> pool" where
  "list_page k f r p = put_task k f (Reporting r) (p\<lparr>po_pages := po_pages p @ [r]\<rparr>)"

definition share :: "nat \<Rightarrow> pystr \<Rightarrow> pool \<Rightarrow> pool" where
  "share k t p = (if k \<in> dom (po_future p) then p else p\<lparr>po_future := (po_future p)(k \<mapsto> t)\<rparr>)"

definition kill :: "page_facts \<times> stage \<Rightarrow> page_facts \<times> stage" where
  \<comment> \<open>\<open>task.cancel()\<close>\<close>
  "kill t = (if live (snd t) then (fst t, Dead (OtherError (lit ''CancelledError'') [])) else t)"

definition prepared :: "unicode \<Rightarrow> settings \<Rightarrow> nat \<Rightarrow> page_facts \<Rightarrow> rat \<Rightarrow> pool \<Rightarrow> pool" where
  "prepared U S k f dur p = (case rp_native_text (rendered f) of
       Some native \<Rightarrow> list_page k f (native_page U f native dur) p
     | None \<Rightarrow> if img_blank f then list_page k f (blank_page f dur) p
         else case if deduplicate_pages S then po_dedupe p (img_digest f) else None of
             Some original \<Rightarrow> put_task k f (Copying original) p
           | None \<Rightarrow> put_task k f Announcing (if deduplicate_pages S
               then p\<lparr>po_dedupe := (po_dedupe p)(img_digest f \<mapsto> k)\<rparr> else p))"

fun main_step :: "settings \<Rightarrow> event \<Rightarrow> pool \<Rightarrow> pool option" where
  "main_step S Take p = (case po_main p of
       Feeding (f # fs) \<Rightarrow> Some (p\<lparr>po_main := Throttled fs, po_tasks := po_tasks p @ [(f, Queued)]\<rparr>) | _ \<Rightarrow> None)"
| "main_step S Cancel p = (case po_main p of
       Feeding (f # fs) \<Rightarrow> Some (p\<lparr>po_main := Raised JobCancelled, po_tasks := map kill (po_tasks p)\<rparr>) | _ \<Rightarrow> None)"
| "main_step S (Break e) p = (case po_main p of
       Feeding fs \<Rightarrow> if e \<noteq> JobCancelled then Some (p\<lparr>po_main := Raised e\<rparr>) else None | _ \<Rightarrow> None)"
| "main_step S Resume p = (case po_main p of
       Throttled fs \<Rightarrow> if count_tasks live p \<le> page_concurrency S + worker_prefetch S
         then Some (p\<lparr>po_main := Feeding fs\<rparr>) else None | _ \<Rightarrow> None)"
| "main_step S Close p = (case po_main p of
       Feeding [] \<Rightarrow> Some (p\<lparr>po_main := (if count_tasks live p = 0 then Returned
         else Gathering (filter (\<lambda>k. live (snd (po_tasks p ! k))) [0..<length (po_tasks p)]))\<rparr>) | _ \<Rightarrow> None)"
| "main_step S (Collect c) p = (case po_main p of
       Gathering ks \<Rightarrow> if \<exists>k\<in>set ks. live (snd (po_tasks p ! k)) then None
         else (case c of
             Some k \<Rightarrow> (case raises (snd (po_tasks p ! k)) of
                 Some e \<Rightarrow> if k \<in> set ks then Some (p\<lparr>po_main := Raised e\<rparr>) else None | None \<Rightarrow> None)
           | None \<Rightarrow> if \<exists>k\<in>set ks. raises (snd (po_tasks p ! k)) \<noteq> None then None else Some (p\<lparr>po_main := Returned\<rparr>))
     | _ \<Rightarrow> None)"
| "main_step S _ p = None"

fun task_step :: "unicode \<Rightarrow> settings \<Rightarrow> event \<Rightarrow> pool \<Rightarrow> pool option" where
  "task_step U S (Start k) p = (case task_at p k of
       Some (f, Queued) \<Rightarrow> if count_tasks works p < page_concurrency S then Some (put_task k f Preparing p) else None | _ \<Rightarrow> None)"
| "task_step U S (Prepared k dur) p = (case task_at p k of
       Some (f, Preparing) \<Rightarrow> Some (prepared U S k f dur p) | _ \<Rightarrow> None)"
| "task_step U S (Announced k) p = (case task_at p k of
       Some (f, Announcing) \<Rightarrow> Some (put_task k f Reading p) | _ \<Rightarrow> None)"
| "task_step U S (Read k r dur) p = (case task_at p k of
       Some (f, Reading) \<Rightarrow> if all_read f r then Some (list_page k f (ocr_page U f r dur) (share k (shared_text U r) p))
         else None | _ \<Rightarrow> None)"
| "task_step U S (Spoiled k r e) p = (case task_at p k of
       Some (f, Reading) \<Rightarrow> if \<not> all_read f r then Some (put_task k f (Dead e) (share k (shared_text U r) p)) else None | _ \<Rightarrow> None)"
| "task_step U S (Unflushed k e) p = (case task_at p k of
       Some (f, Reading) \<Rightarrow> Some (put_task k f (Dead e) p) | _ \<Rightarrow> None)"
| "task_step U S (Copied k dur) p = (case task_at p k of
       Some (f, Copying original) \<Rightarrow> (case po_future p original of
           Some t \<Rightarrow> Some (list_page k f (duplicate_page f t (rp_index (rendered (fst (po_tasks p ! original)))) dur) p)
         | None \<Rightarrow> None) | _ \<Rightarrow> None)"
| "task_step U S (Reported k) p = (case task_at p k of
       Some (f, Reporting r) \<Rightarrow> Some (put_task k f (Done r) p) | _ \<Rightarrow> None)"
| "task_step U S (Fail k e) p = (case task_at p k of
       Some (f, Preparing) \<Rightarrow> Some (put_task k f (Dead e) p)
     | Some (f, Announcing) \<Rightarrow> Some (put_task k f (Dead e) p)
     | Some (f, Reporting r) \<Rightarrow> Some (put_task k f (Dead e) p) | _ \<Rightarrow> None)"
| "task_step U S _ p = None"

definition pool_step :: "unicode \<Rightarrow> settings \<Rightarrow> event \<Rightarrow> pool \<Rightarrow> pool option" where
  "pool_step U S a p = (case main_step S a p of Some p' \<Rightarrow> Some p' | None \<Rightarrow> task_step U S a p)"

definition new_pool :: "page_facts list \<Rightarrow> pool" where
  "new_pool fs = \<lparr>po_main = Feeding fs, po_tasks = [], po_dedupe = Map.empty, po_future = Map.empty, po_pages = []\<rparr>"

section \<open>Steps, case by case\<close>

lemma task_at_Some [simp]: "task_at p k = Some t \<longleftrightarrow> k < length (po_tasks p) \<and> po_tasks p ! k = t"
  by (auto simp: task_at_def)

lemma put_task_simps [simp]:
  "po_main (put_task k f st p) = po_main p" "po_tasks (put_task k f st p) = (po_tasks p)[k := (f, st)]"
  "po_dedupe (put_task k f st p) = po_dedupe p" "po_future (put_task k f st p) = po_future p"
  "po_pages (put_task k f st p) = po_pages p"
  by (simp_all add: put_task_def)

lemma list_page_simps [simp]:
  "po_main (list_page k f r p) = po_main p" "po_tasks (list_page k f r p) = (po_tasks p)[k := (f, Reporting r)]"
  "po_dedupe (list_page k f r p) = po_dedupe p" "po_future (list_page k f r p) = po_future p"
  "po_pages (list_page k f r p) = po_pages p @ [r]"
  by (simp_all add: list_page_def)

lemma share_simps [simp]:
  "po_main (share k t p) = po_main p" "po_tasks (share k t p) = po_tasks p" "po_dedupe (share k t p) = po_dedupe p"
  "po_pages (share k t p) = po_pages p" "dom (po_future (share k t p)) = insert k (dom (po_future p))"
  by (auto simp: share_def)

text \<open>Every step of a task is one of these.\<close>

lemma task_step_cases [consumes 1, case_names started native blank copying announcing reading read spoiled unflushed
    copied reported failed]:
  assumes "task_step U S a p = Some p'"
  obtains k f where "k < length (po_tasks p)" "po_tasks p ! k = (f, Queued)" "count_tasks works p < page_concurrency S"
      "p' = put_task k f Preparing p" "a = Start k"
  | k f native dur where "k < length (po_tasks p)" "po_tasks p ! k = (f, Preparing)" "rp_native_text (rendered f) = Some native"
      "p' = list_page k f (native_page U f native dur) p" "a = Prepared k dur"
  | k f dur where "k < length (po_tasks p)" "po_tasks p ! k = (f, Preparing)" "rp_native_text (rendered f) = None"
      "img_blank f" "p' = list_page k f (blank_page f dur) p" "a = Prepared k dur"
  | k f k0 dur where "k < length (po_tasks p)" "po_tasks p ! k = (f, Preparing)" "rp_native_text (rendered f) = None"
      "\<not> img_blank f" "deduplicate_pages S" "po_dedupe p (img_digest f) = Some k0" "p' = put_task k f (Copying k0) p" "a = Prepared k dur"
  | k f q dur where "k < length (po_tasks p)" "po_tasks p ! k = (f, Preparing)" "rp_native_text (rendered f) = None"
      "\<not> img_blank f" "q = p \<and> \<not> deduplicate_pages S \<or> q = p\<lparr>po_dedupe := (po_dedupe p)(img_digest f \<mapsto> k)\<rparr>"
      "p' = put_task k f Announcing q" "a = Prepared k dur"
  | k f where "k < length (po_tasks p)" "po_tasks p ! k = (f, Announcing)" "p' = put_task k f Reading p" "a = Announced k"
  | k f r dur where "k < length (po_tasks p)" "po_tasks p ! k = (f, Reading)" "all_read f r"
      "p' = list_page k f (ocr_page U f r dur) (share k (shared_text U r) p)" "a = Read k r dur"
  | k f r e where "k < length (po_tasks p)" "po_tasks p ! k = (f, Reading)"
      "p' = put_task k f (Dead e) (share k (shared_text U r) p)" "a = Spoiled k r e"
  | k f e where "k < length (po_tasks p)" "po_tasks p ! k = (f, Reading)" "p' = put_task k f (Dead e) p" "a = Unflushed k e"
  | k f k0 t dur where "k < length (po_tasks p)" "po_tasks p ! k = (f, Copying k0)" "po_future p k0 = Some t"
      "p' = list_page k f (duplicate_page f t (rp_index (rendered (fst (po_tasks p ! k0)))) dur) p" "a = Copied k dur"
  | k f r where "k < length (po_tasks p)" "po_tasks p ! k = (f, Reporting r)" "p' = put_task k f (Done r) p" "a = Reported k"
  | k f st e where "k < length (po_tasks p)" "po_tasks p ! k = (f, st)" "st = Preparing \<or> st = Announcing \<or> (\<exists>r. st = Reporting r)"
      "p' = put_task k f (Dead e) p" "a = Fail k e"
proof (cases a)
  case (Prepared k dur)
  then obtain f where k: "k < length (po_tasks p)" "po_tasks p ! k = (f, Preparing)" "p' = prepared U S k f dur p"
    using assms by (auto split: option.splits prod.splits stage.splits)
  show ?thesis
  proof (cases "rp_native_text (rendered f)")
    case (Some native)
    show ?thesis by (rule that(2) [OF k(1,2) Some _ Prepared]) (simp add: k(3) prepared_def Some)
  next
    case None
    show ?thesis
    proof (cases "img_blank f")
      case True
      show ?thesis by (rule that(3) [OF k(1,2) None True _ Prepared]) (simp add: k(3) prepared_def None True)
    next
      case False
      note image = None False
      show ?thesis
      proof (cases "if deduplicate_pages S then po_dedupe p (img_digest f) else None")
        case None
        let ?q = "if deduplicate_pages S then p\<lparr>po_dedupe := (po_dedupe p)(img_digest f \<mapsto> k)\<rparr> else p"
        show ?thesis
          by (rule that(5) [OF k(1,2) image _ _ Prepared, of ?q]) (simp_all add: k(3) prepared_def image None)
      next
        case (Some k0)
        then have "deduplicate_pages S" "po_dedupe p (img_digest f) = Some k0" by (simp_all split: if_splits)
        then show ?thesis
          by (intro that(4) [OF k(1,2) image _ _ _ Prepared]) (simp_all add: k(3) prepared_def image)
      qed
    qed
  qed
next
  case (Start k)
  then show ?thesis using assms by (auto split: option.splits prod.splits stage.splits if_splits intro: that(1))
next
  case (Announced k)
  then show ?thesis using assms by (auto split: option.splits prod.splits stage.splits if_splits intro: that(6))
next
  case (Read k r dur)
  then show ?thesis using assms by (auto split: option.splits prod.splits stage.splits if_splits intro: that(7))
next
  case (Spoiled k r e)
  then show ?thesis using assms by (auto split: option.splits prod.splits stage.splits if_splits intro: that(8))
next
  case (Unflushed k e)
  then show ?thesis using assms by (auto split: option.splits prod.splits stage.splits if_splits intro: that(9))
next
  case (Copied k dur)
  then show ?thesis using assms by (auto split: option.splits prod.splits stage.splits if_splits intro: that(10))
next
  case (Reported k)
  then show ?thesis using assms by (auto split: option.splits prod.splits stage.splits if_splits intro: that(11))
next
  case (Fail k e)
  then show ?thesis using assms by (auto split: option.splits prod.splits stage.splits if_splits intro: that(12))
qed (use assms in simp_all)

end
