(* ===== verification/Page_Safety.thy ===== *)
theory Page_Safety
  imports Page_Pool
begin

text \<open>
  What holds in every state of the page pipeline: the bounds on concurrency and residency, what each
  task's result is, and that the results are listed once.
\<close>

section \<open>Counting tasks\<close>

lemma count_put_task:
  "k < length (po_tasks p) \<Longrightarrow> count_tasks P (put_task k f st p) + (if P (snd (po_tasks p ! k)) then 1 else 0) =
     count_tasks P p + (if P st then 1 else 0)"
  unfolding count_tasks_def put_task_simps using slots_set_phase [of k "po_tasks p" "\<lambda>t. P (snd t)" "(f, st)"] by simp

lemma count_kill: "count_tasks live (p\<lparr>po_main := m, po_tasks := map kill (po_tasks p)\<rparr>) = 0"
    "count_tasks works (p\<lparr>po_main := m, po_tasks := map kill (po_tasks p)\<rparr>) = 0"
proof -
  have "\<not> live (snd (kill t)) \<and> \<not> works (snd (kill t))" for t
    by (cases "snd t") (simp_all add: kill_def)
  then show "count_tasks live (p\<lparr>po_main := m, po_tasks := map kill (po_tasks p)\<rparr>) = 0"
    "count_tasks works (p\<lparr>po_main := m, po_tasks := map kill (po_tasks p)\<rparr>) = 0"
    by (simp_all add: count_tasks_def filter_map comp_def)
qed

lemma live_works [simp]: "works st \<Longrightarrow> live st"
  by (cases st) simp_all

section \<open>Bounds\<close>

definition within_limits :: "settings \<Rightarrow> event list \<Rightarrow> pool \<Rightarrow> bool" where
  "within_limits S acts p \<longleftrightarrow> count_tasks works p \<le> page_concurrency S \<and>
     count_tasks live p \<le> page_concurrency S + worker_prefetch S + (case po_main p of Feeding fs \<Rightarrow> 0 | _ \<Rightarrow> 1)"

lemma task_step_live:
  assumes "task_step U S a p = Some p'"
  shows "po_main p' = po_main p \<and> count_tasks live p' \<le> count_tasks live p"
  using assms by (cases rule: task_step_cases) (auto simp: count_tasks_def intro!: slots_same)

lemma task_step_works:
  assumes "task_step U S a p = Some p'" and "count_tasks works p \<le> page_concurrency S"
  shows "count_tasks works p' \<le> page_concurrency S"
  using assms(1)
proof (cases rule: task_step_cases)
  case (started k f)
  then show ?thesis using count_put_task [of k p works f Preparing] by simp
qed (use assms(2) in \<open>auto simp: count_tasks_def elim!: order_trans [rotated] intro!: slots_same\<close>)

lemma main_step_within:
  assumes "within_limits S acts p" "main_step S a p = Some p'" shows "within_limits S acts' p'"
proof (cases a)
  case Cancel
  then show ?thesis using assms count_kill by (auto simp: within_limits_def split: main.splits list.splits)
qed (use assms in \<open>auto simp: within_limits_def count_tasks_def split: main.splits list.splits if_splits option.splits stage.splits\<close>)

interpretation page_limits: invariant "pool_step U S" "new_pool fs" "within_limits S" for U S fs
proof unfold_locales
  show "within_limits S [] (new_pool fs)" by (simp add: within_limits_def new_pool_def count_tasks_def)
next
  fix acts p a p' assume p: "within_limits S acts p" and st: "pool_step U S a p = Some p'"
  show "within_limits S (acts @ [a]) p'"
  proof (cases "main_step S a p")
    case None
    then have "task_step U S a p = Some p'" using st by (simp add: pool_step_def)
    from task_step_live [OF this] task_step_works [OF this] p show ?thesis by (auto simp: within_limits_def)
  next
    case (Some q)
    then show ?thesis using st main_step_within [OF p Some] by (simp add: pool_step_def)
  qed
qed

section \<open>What the results are\<close>

definition facts_at :: "pool \<Rightarrow> nat \<Rightarrow> page_facts" where
  "facts_at p k = fst (po_tasks p ! k)"

definition scanned :: "page_facts \<Rightarrow> bool" where
  "scanned f \<longleftrightarrow> rp_native_text (rendered f) = None \<and> \<not> img_blank f"

definition twin :: "pool \<Rightarrow> nat \<Rightarrow> nat \<Rightarrow> bool" where
  "twin p j k \<longleftrightarrow> j < length (po_tasks p) \<and> j \<noteq> k \<and> img_digest (facts_at p j) = img_digest (facts_at p k)"

definition page_ok :: "unicode \<Rightarrow> pool \<Rightarrow> nat \<Rightarrow> page_result \<Rightarrow> bool" where
  "page_ok U p k r \<longleftrightarrow> (\<exists>dur. case rp_native_text (rendered (facts_at p k)) of
       Some native \<Rightarrow> r = native_page U (facts_at p k) native dur
     | None \<Rightarrow> if img_blank (facts_at p k) then r = blank_page (facts_at p k) dur
         else (\<exists>run. all_read (facts_at p k) run \<and> po_future p k = Some (shared_text U run) \<and> r = ocr_page U (facts_at p k) run dur) \<or>
           (\<exists>j t. twin p j k \<and> po_future p j = Some t \<and> r = duplicate_page (facts_at p k) t (rp_index (rendered (facts_at p j))) dur))"

fun stage_ok :: "unicode \<Rightarrow> pool \<Rightarrow> nat \<Rightarrow> stage \<Rightarrow> bool" where
  "stage_ok U p k Queued \<longleftrightarrow> k \<notin> dom (po_future p)"
| "stage_ok U p k Preparing \<longleftrightarrow> k \<notin> dom (po_future p)"
| "stage_ok U p k Announcing \<longleftrightarrow> scanned (facts_at p k) \<and> k \<notin> dom (po_future p)"
| "stage_ok U p k Reading \<longleftrightarrow> scanned (facts_at p k) \<and> k \<notin> dom (po_future p)"
| "stage_ok U p k (Copying j) \<longleftrightarrow> scanned (facts_at p k) \<and> twin p j k"
| "stage_ok U p k (Reporting r) \<longleftrightarrow> page_ok U p k r"
| "stage_ok U p k (Done r) \<longleftrightarrow> page_ok U p k r"
| "stage_ok U p k (Dead e) \<longleftrightarrow> True"

definition unprepared :: "stage \<Rightarrow> bool" where
  "unprepared st \<longleftrightarrow> st = Queued \<or> st = Preparing"

definition tasks_ok :: "unicode \<Rightarrow> pool \<Rightarrow> bool" where
  "tasks_ok U p \<longleftrightarrow> (\<forall>k<length (po_tasks p). stage_ok U p k (snd (po_tasks p ! k))) \<and>
     dom (po_future p) \<subseteq> {..<length (po_tasks p)} \<and>
     (\<forall>d j. po_dedupe p d = Some j \<longrightarrow> j < length (po_tasks p) \<and> img_digest (facts_at p j) = d \<and>
        \<not> unprepared (snd (po_tasks p ! j)))"

text \<open>A state in which other tasks, and later ones, may have moved on.\<close>

definition later :: "nat \<Rightarrow> pool \<Rightarrow> pool \<Rightarrow> bool" where
  \<comment> \<open>nothing has been decided anew for task \<open>k\<close>\<close>
  "later k p q \<longleftrightarrow> length (po_tasks p) \<le> length (po_tasks q) \<and> (\<forall>j<length (po_tasks p). facts_at q j = facts_at p j) \<and>
     po_future p \<subseteq>\<^sub>m po_future q \<and> (k \<in> dom (po_future q) \<longrightarrow> k \<in> dom (po_future p))"

lemma map_le_Some: "m \<subseteq>\<^sub>m m' \<Longrightarrow> m k = Some v \<Longrightarrow> m' k = Some v"
  by (auto simp: map_le_def dom_def)

lemma page_ok_later: "page_ok U p k r \<Longrightarrow> later k' p q \<Longrightarrow> k < length (po_tasks p) \<Longrightarrow> page_ok U q k r"
  unfolding page_ok_def later_def twin_def
  by (auto split: option.splits if_splits elim: map_le_Some intro: map_le_Some) (metis map_le_Some order_less_le_trans)+

lemma stage_ok_later: "stage_ok U p k st \<Longrightarrow> later k p q \<Longrightarrow> k < length (po_tasks p) \<Longrightarrow> stage_ok U q k st"
proof (cases st)
  case (Reporting r)
  then show "stage_ok U p k st \<Longrightarrow> later k p q \<Longrightarrow> k < length (po_tasks p) \<Longrightarrow> stage_ok U q k st"
    by (auto intro: page_ok_later)
next
  case (Done r)
  then show "stage_ok U p k st \<Longrightarrow> later k p q \<Longrightarrow> k < length (po_tasks p) \<Longrightarrow> stage_ok U q k st"
    by (auto intro: page_ok_later)
qed (auto simp: later_def twin_def)

lemma tasks_ok_put:
  \<comment> \<open>a step of task \<open>k\<close>\<close>
  assumes "tasks_ok U p" "k < length (po_tasks p)" "facts_at p k = f"
    and "po_tasks q = (po_tasks p)[k := (f, st)]" "po_future p \<subseteq>\<^sub>m po_future q" "dom (po_future q) \<subseteq> insert k (dom (po_future p))"
    and "stage_ok U q k st" "\<not> unprepared st \<or> unprepared (snd (po_tasks p ! k))"
    and "po_dedupe q = po_dedupe p \<or> po_dedupe q = (po_dedupe p)(img_digest f \<mapsto> k) \<and> \<not> unprepared st"
  shows "tasks_ok U q"
proof -
  have fq: "facts_at q j = facts_at p j" if "j < length (po_tasks p)" for j
    using assms(2-4) that by (cases "j = k") (auto simp: facts_at_def)
  have "stage_ok U q j (snd (po_tasks q ! j))" if j: "j < length (po_tasks p)" for j
  proof (cases "j = k")
    case True
    then show ?thesis using assms(2,4,7) by simp
  next
    case False
    have "later j p q" using assms(4-6) fq False by (auto simp: later_def)
    then show ?thesis using assms(1,4) False j stage_ok_later by (auto simp: tasks_ok_def)
  qed
  moreover have "j < length (po_tasks q) \<and> img_digest (facts_at q j) = d \<and> \<not> unprepared (snd (po_tasks q ! j))"
    if "po_dedupe q d = Some j" for d j
  proof -
    have "po_dedupe p d = Some j \<or> j = k \<and> d = img_digest f \<and> \<not> unprepared st" using that assms(9) by (auto split: if_splits)
    then show ?thesis
      using assms(1-4,8) fq by (cases "j = k") (auto simp: tasks_ok_def)
  qed
  moreover have "dom (po_future q) \<subseteq> {..<length (po_tasks q)}" using assms(1,2,4,6) by (auto simp: tasks_ok_def)
  ultimately show ?thesis using assms(4) by (simp add: tasks_ok_def)
qed

lemma task_step_ok:
  assumes "task_step U S a p = Some p'" and ok: "tasks_ok U p"
  shows "tasks_ok U p'"
proof -
  have st: "stage_ok U p k (snd (po_tasks p ! k))" if "k < length (po_tasks p)" for k
    using ok that by (simp add: tasks_ok_def)
  have fresh: "k \<notin> dom (po_future p)" if "k < length (po_tasks p)" "po_tasks p ! k = (f, s)"
    "s = Queued \<or> s = Preparing \<or> s = Announcing \<or> s = Reading" for k f s
    using st [OF that(1)] that(2,3) by auto
  from assms(1) show ?thesis
  proof (cases rule: task_step_cases)
    case (copying k f k0 dur)
    moreover have "k0 < length (po_tasks p) \<and> img_digest (facts_at p k0) = img_digest f \<and> \<not> unprepared (snd (po_tasks p ! k0))"
      using ok copying(6) by (simp add: tasks_ok_def)
    then have "twin p k0 k" using copying(2) by (auto simp: twin_def facts_at_def unprepared_def)
    ultimately show ?thesis
      using st [of k] fresh [of k f Preparing]
      by (intro tasks_ok_put [OF ok, of k f _ "Copying k0"]) (auto simp: facts_at_def scanned_def unprepared_def twin_def)
  next
    case (announcing k f q dur)
    then show ?thesis
      using st [of k] fresh [of k f Preparing]
      by (intro tasks_ok_put [OF ok, of k f _ Announcing]) (auto simp: facts_at_def scanned_def unprepared_def)
  next
    case (read k f r dur)
    have "po_future p' k = Some (shared_text U r)" using read fresh [of k f Reading] by (simp add: share_def)
    moreover have "scanned f" using st [of k] read by (simp add: facts_at_def)
    ultimately have "page_ok U p' k (ocr_page U f r dur)"
      using read(1,3,4) by (auto simp: page_ok_def facts_at_def scanned_def)
    then show ?thesis
      using read fresh [of k f Reading]
      by (intro tasks_ok_put [OF ok, of k f _ "Reporting (ocr_page U f r dur)"])
        (auto simp: facts_at_def unprepared_def share_def map_le_def)
  next
    case (copied k f k0 t dur)
    have tw: "twin p k0 k" "scanned f" using st [of k] copied by (simp_all add: facts_at_def)
    let ?r = "duplicate_page f t (rp_index (rendered (fst (po_tasks p ! k0)))) dur"
    have "twin p' k0 k \<and> facts_at p' k0 = facts_at p k0 \<and> facts_at p' k = f \<and> po_future p' k0 = Some t"
      using tw copied by (auto simp: twin_def facts_at_def)
    then have "page_ok U p' k ?r"
      using tw(2) unfolding page_ok_def by (simp add: scanned_def facts_at_def) metis
    then show ?thesis
      using copied by (intro tasks_ok_put [OF ok, of k f _ "Reporting ?r"]) (auto simp: facts_at_def unprepared_def)
  next
    case (spoiled k f r e)
    then show ?thesis
      using fresh [of k f Reading] by (intro tasks_ok_put [OF ok, of k f _ "Dead e"])
        (auto simp: facts_at_def unprepared_def share_def map_le_def)
  next
    case (native k f n dur)
    then show ?thesis
      by (intro tasks_ok_put [OF ok, of k f _ "Reporting (native_page U f n dur)"])
        (auto simp: facts_at_def unprepared_def page_ok_def)
  next
    case (blank k f dur)
    then show ?thesis
      by (intro tasks_ok_put [OF ok, of k f _ "Reporting (blank_page f dur)"])
        (auto simp: facts_at_def unprepared_def page_ok_def)
  next
    case (reported k f r)
    have "page_ok U p' k r"
      by (rule page_ok_later [where p = p and k' = k]) (use st [of k] reported in \<open>auto simp: later_def facts_at_def nth_list_update\<close>)
    then show ?thesis
      using reported by (intro tasks_ok_put [OF ok, of k f _ "Done r"]) (auto simp: facts_at_def unprepared_def)
  next
    case (started k f)
    then show ?thesis
      using fresh [of k f Queued] by (intro tasks_ok_put [OF ok, of k f _ Preparing]) (auto simp: facts_at_def unprepared_def)
  next
    case (reading k f)
    then show ?thesis
      using fresh [of k f Announcing] st [of k] by (intro tasks_ok_put [OF ok, of k f _ Reading]) (auto simp: facts_at_def unprepared_def)
  next
    case (unflushed k f e)
    then show ?thesis by (intro tasks_ok_put [OF ok, of k f _ "Dead e"]) (auto simp: facts_at_def unprepared_def)
  next
    case (failed k f s e)
    then show ?thesis by (intro tasks_ok_put [OF ok, of k f _ "Dead e"]) (auto simp: facts_at_def unprepared_def)
  qed
qed

lemma tasks_ok_main [simp]: "tasks_ok U (p\<lparr>po_main := m\<rparr>) \<longleftrightarrow> tasks_ok U p"
proof -
  have f: "facts_at (p\<lparr>po_main := m\<rparr>) = facts_at p" by (rule ext) (simp add: facts_at_def)
  then have "twin (p\<lparr>po_main := m\<rparr>) = twin p" by (intro ext) (simp add: twin_def)
  then have "page_ok U (p\<lparr>po_main := m\<rparr>) k r \<longleftrightarrow> page_ok U p k r" for k r
    by (simp add: page_ok_def f cong: option.case_cong)
  then have "stage_ok U (p\<lparr>po_main := m\<rparr>) k st \<longleftrightarrow> stage_ok U p k st" for k st
    by (cases st) (simp_all add: f twin_def)
  then show ?thesis by (simp add: tasks_ok_def facts_at_def)
qed

lemma main_step_ok:
  assumes "main_step S a p = Some p'" and ok: "tasks_ok U p"
  shows "tasks_ok U p'"
proof (cases a)
  case Take
  then obtain f fs where p': "p' = p\<lparr>po_main := Throttled fs, po_tasks := po_tasks p @ [(f, Queued)]\<rparr>"
    using assms(1) by (auto split: main.splits list.splits)
  have "later k p p'" for k by (auto simp: p' later_def facts_at_def nth_append)
  then have "stage_ok U p' k (snd (po_tasks p' ! k))" if "k < length (po_tasks p)" for k
    using stage_ok_later ok that by (auto simp: tasks_ok_def p' nth_append)
  moreover have "length (po_tasks p) \<notin> dom (po_future p)" using ok by (auto simp: tasks_ok_def)
  ultimately show ?thesis
    using ok by (auto simp: tasks_ok_def p' facts_at_def nth_append less_Suc_eq split: if_splits)
next
  case Cancel
  then have p': "p' = p\<lparr>po_main := Raised JobCancelled, po_tasks := map kill (po_tasks p)\<rparr>"
    using assms(1) by (auto split: main.splits list.splits)
  have f: "facts_at p' k = facts_at p k" if "k < length (po_tasks p)" for k
    using that by (simp add: p' facts_at_def kill_def)
  then have l: "later k p p'" for k by (simp add: p' later_def)
  have "stage_ok U p' k (snd (kill (po_tasks p ! k)))" if "k < length (po_tasks p)" for k
    using stage_ok_later [OF _ l] ok that by (auto simp: tasks_ok_def kill_def)
  then show ?thesis
    using ok f by (auto simp: tasks_ok_def p' unprepared_def) (auto simp: kill_def split: if_splits)
qed (use assms in \<open>auto split: main.splits list.splits if_splits option.splits stage.splits\<close>)

section \<open>What is listed\<close>

fun carried :: "stage \<Rightarrow> page_result multiset" where
  "carried (Reporting r) = {#r#}"
| "carried (Done r) = {#r#}"
| "carried _ = {#}"

definition no_task_dead :: "pool \<Rightarrow> bool" where
  "no_task_dead p \<longleftrightarrow> (\<forall>k<length (po_tasks p). \<forall>e. snd (po_tasks p ! k) \<noteq> Dead e)"

definition all_listed :: "pool \<Rightarrow> bool" where
  "all_listed p \<longleftrightarrow> (no_task_dead p \<longrightarrow> mset (po_pages p) = (\<Sum>k<length (po_tasks p). carried (snd (po_tasks p ! k))))"

fun still_to_come :: "main \<Rightarrow> page_facts list" where
  "still_to_come (Feeding fs) = fs"
| "still_to_come (Throttled fs) = fs"
| "still_to_come _ = []"

definition ordered :: "page_facts list \<Rightarrow> pool \<Rightarrow> bool" where
  "ordered fs p \<longleftrightarrow> (case po_main p of
       Raised e \<Rightarrow> prefix (map fst (po_tasks p)) fs | m \<Rightarrow> map fst (po_tasks p) @ still_to_come m = fs) \<and>
     (case po_main p of Gathering ks \<Rightarrow> \<forall>k<length (po_tasks p). k \<notin> set ks \<longrightarrow> \<not> live (snd (po_tasks p ! k))
        | Returned \<Rightarrow> \<forall>k<length (po_tasks p). \<not> live (snd (po_tasks p ! k)) | _ \<Rightarrow> True)"

lemma all_listed_put:
  assumes "all_listed p" "k < length (po_tasks p)" "po_tasks q = (po_tasks p)[k := (f, st)]"
    and "(\<forall>e. st \<noteq> Dead e) \<longrightarrow> (\<forall>e. snd (po_tasks p ! k) \<noteq> Dead e) \<and>
      (\<exists>d. carried st = carried (snd (po_tasks p ! k)) + d \<and> mset (po_pages q) = mset (po_pages p) + d)"
  shows "all_listed q"
  unfolding all_listed_def
proof
  assume q: "no_task_dead q"
  then have "\<forall>e. st \<noteq> Dead e" using assms(2,3) by (metis length_list_update no_task_dead_def nth_list_update_eq snd_conv)
  then obtain d where d: "carried st = carried (snd (po_tasks p ! k)) + d" "mset (po_pages q) = mset (po_pages p) + d"
    and k: "\<forall>e. snd (po_tasks p ! k) \<noteq> Dead e" using assms(4) by blast
  have "no_task_dead p"
    unfolding no_task_dead_def
  proof (intro allI impI)
    fix j e assume "j < length (po_tasks p)"
    then show "snd (po_tasks p ! j) \<noteq> Dead e"
      using q k assms(2,3) by (cases "j = k") (auto simp: no_task_dead_def nth_list_update)
  qed
  then have "mset (po_pages p) = (\<Sum>j<length (po_tasks p). carried (snd (po_tasks p ! j)))"
    using assms(1) by (simp add: all_listed_def)
  moreover have "(\<Sum>j<length (po_tasks p). carried (snd ((po_tasks p)[k := (f, st)] ! j))) =
      (\<Sum>j<length (po_tasks p). carried (snd (po_tasks p ! j))) + d"
    by (rule sum_update [where i = k]) (use assms(2) d(1) in simp_all)
  ultimately show "mset (po_pages q) = (\<Sum>j<length (po_tasks q). carried (snd (po_tasks q ! j)))"
    using assms(3) d(2) by simp
qed

lemma task_step_all_listed:
  assumes "task_step U S a p = Some p'" and "all_listed p"
  shows "all_listed p'"
  using assms(1)
proof (cases rule: task_step_cases)
  case (started k f)
  then show ?thesis by (intro all_listed_put [OF assms(2), of k _ f Preparing]) simp_all
next
  case (copying k f k0 dur)
  then show ?thesis by (intro all_listed_put [OF assms(2), of k _ f "Copying k0"]) simp_all
next
  case (announcing k f q dur)
  then show ?thesis by (intro all_listed_put [OF assms(2), of k _ f Announcing]) auto
next
  case (reading k f)
  then show ?thesis by (intro all_listed_put [OF assms(2), of k _ f Reading]) simp_all
next
  case (reported k f r)
  then show ?thesis by (intro all_listed_put [OF assms(2), of k _ f "Done r"]) simp_all
qed (auto intro!: all_listed_put [OF assms(2)])

lemma task_step_facts:
  assumes "task_step U S a p = Some p'"
  shows "map fst (po_tasks p') = map fst (po_tasks p) \<and> po_main p' = po_main p \<and>
    (\<forall>k<length (po_tasks p). live (snd (po_tasks p' ! k)) \<longrightarrow> live (snd (po_tasks p ! k)))"
  using assms
  by (cases rule: task_step_cases) (auto simp: map_update nth_list_update list_update_same_conv split: if_splits)

lemma task_step_ordered: "task_step U S a p = Some p' \<Longrightarrow> ordered fs p \<Longrightarrow> ordered fs p'"
  using task_step_facts [of U S a p p'] map_eq_imp_length_eq [of fst "po_tasks p'" fst "po_tasks p"]
  by (auto simp: ordered_def split: main.splits)

lemma fst_kill [simp]: "fst (kill t) = fst t"
  by (simp add: kill_def)

lemma count_zero: "count_tasks P p = 0 \<longleftrightarrow> (\<forall>k<length (po_tasks p). \<not> P (snd (po_tasks p ! k)))"
  by (simp add: count_tasks_def filter_empty_conv all_set_conv_all_nth)

lemma main_step_ordered: "main_step S a p = Some p' \<Longrightarrow> ordered fs p \<Longrightarrow> ordered fs p'"
  by (cases a) (auto simp: ordered_def count_zero comp_def
      split: main.splits list.splits if_splits option.splits stage.splits)

lemma main_step_listed: "main_step S a p = Some p' \<Longrightarrow> all_listed p \<Longrightarrow> ordered fs p \<Longrightarrow> all_listed p'"
proof (cases a)
  case Take
  assume "main_step S a p = Some p'" "all_listed p"
  then show ?thesis using Take
    by (auto simp: all_listed_def no_task_dead_def nth_append All_less_Suc split: main.splits list.splits)
next
  case Cancel
  assume st: "main_step S a p = Some p'" and "all_listed p"
  show ?thesis
  proof (cases "\<exists>t\<in>set (po_tasks p). live (snd t)")
    case True
    then obtain k where "k < length (po_tasks p)" "live (snd (po_tasks p ! k))" by (auto simp: in_set_conv_nth)
    then have "\<not> no_task_dead p'" using st Cancel by (auto simp: no_task_dead_def kill_def split: main.splits list.splits)
    then show ?thesis by (simp add: all_listed_def)
  next
    case False
    then have "map kill (po_tasks p) = po_tasks p" by (auto simp: kill_def intro!: map_idI)
    then show ?thesis
      using st \<open>all_listed p\<close> Cancel by (auto simp: all_listed_def no_task_dead_def split: main.splits list.splits)
  qed
qed (auto simp: all_listed_def no_task_dead_def split: main.splits list.splits if_splits option.splits stage.splits)

definition pipeline :: "unicode \<Rightarrow> page_facts list \<Rightarrow> event list \<Rightarrow> pool \<Rightarrow> bool" where
  "pipeline U fs acts p \<longleftrightarrow> tasks_ok U p \<and> all_listed p \<and> ordered fs p"

interpretation page_pipeline: invariant "pool_step U S" "new_pool fs" "pipeline U fs" for U S fs
proof unfold_locales
  show "pipeline U fs [] (new_pool fs)"
    by (simp add: pipeline_def new_pool_def tasks_ok_def all_listed_def ordered_def)
next
  fix acts p a p' assume p: "pipeline U fs acts p" and st: "pool_step U S a p = Some p'"
  show "pipeline U fs (acts @ [a]) p'"
  proof (cases "main_step S a p")
    case None
    then have "task_step U S a p = Some p'" using st by (simp add: pool_step_def)
    then show ?thesis using p task_step_ok task_step_all_listed task_step_ordered unfolding pipeline_def by blast
  next
    case (Some q)
    then show ?thesis
      using st p main_step_ok main_step_listed main_step_ordered unfolding pipeline_def pool_step_def by fastforce
  qed
qed

end
