(* ===== verification/Page_Liveness.thy ===== *)
theory Page_Liveness
  imports Page_Safety
begin

text \<open>
  The page pipeline comes to an end when every future is resolved: an instance of the interface \<open>draining\<close>.
  Two steps leave a future unresolved, an announcement that raises and a final flush that raises; they
  are taken out of the steps here, and \<open>Page_Run\<close> shows what they do.
\<close>

fun leaves_future :: "event \<Rightarrow> pool \<Rightarrow> bool" where
  "leaves_future (Unflushed k e) p = True"
| "leaves_future (Fail k e) p = (map_option snd (task_at p k) = Some Announcing)"
| "leaves_future _ p = False"

definition resolving_step :: "unicode \<Rightarrow> settings \<Rightarrow> event \<Rightarrow> pool \<Rightarrow> pool option" where
  "resolving_step U S a p = (if leaves_future a p then None else pool_step U S a p)"

definition settled :: "pool \<Rightarrow> nat \<Rightarrow> bool" where
  \<comment> \<open>the future of that page is resolved or will be\<close>
  "settled p j \<longleftrightarrow> j < length (po_tasks p) \<and> (j \<in> dom (po_future p) \<or> snd (po_tasks p ! j) \<in> {Announcing, Reading})"

definition unblocked :: "pool \<Rightarrow> bool" where
  "unblocked p \<longleftrightarrow> (\<forall>d j. po_dedupe p d = Some j \<longrightarrow> settled p j) \<and>
     (\<forall>k<length (po_tasks p). \<forall>j. snd (po_tasks p ! k) = Copying j \<longrightarrow> settled p j)"

fun main_over :: "main \<Rightarrow> bool" where
  "main_over Returned = True"
| "main_over (Raised e) = True"
| "main_over _ = False"

definition pool_over :: "pool \<Rightarrow> bool" where
  "pool_over p \<longleftrightarrow> main_over (po_main p) \<and> count_tasks live p = 0"

definition drainable :: "settings \<Rightarrow> pool \<Rightarrow> bool" where
  "drainable S p \<longleftrightarrow> 0 < page_concurrency S \<and> (pool_over p \<or> unblocked p)"

fun stage_work :: "stage \<Rightarrow> nat" where
  "stage_work Queued = 6"
| "stage_work Preparing = 5"
| "stage_work Announcing = 4"
| "stage_work Reading = 3"
| "stage_work (Copying k) = 3"
| "stage_work (Reporting r) = 1"
| "stage_work _ = 0"

fun main_work :: "main \<Rightarrow> nat" where
  "main_work (Feeding fs) = 8 * length fs + 2"
| "main_work (Throttled fs) = 8 * length fs + 3"
| "main_work (Gathering ks) = 1"
| "main_work _ = 0"

definition pool_work :: "pool \<Rightarrow> nat" where
  "pool_work p = (\<Sum>k<length (po_tasks p). stage_work (snd (po_tasks p ! k))) + main_work (po_main p)"

section \<open>Work decreases\<close>

lemma pool_work_put:
  assumes "k < length (po_tasks p)" "po_tasks q = (po_tasks p)[k := (f, st)]" "po_main q = po_main p"
    and "stage_work st < stage_work (snd (po_tasks p ! k))"
  shows "pool_work q < pool_work p"
proof -
  have "(\<Sum>j<length (po_tasks p). stage_work (snd (po_tasks p ! j))) =
      (\<Sum>j<length (po_tasks p). stage_work (snd ((po_tasks p)[k := (f, st)] ! j))) + (stage_work (snd (po_tasks p ! k)) - stage_work st)"
    by (rule sum_update [where i = k]) (use assms in simp_all)
  then show ?thesis using assms by (simp add: pool_work_def)
qed

lemma task_step_work:
  assumes "task_step U S a p = Some p'"
  shows "pool_work p' < pool_work p"
  using assms
proof (cases rule: task_step_cases)
  case (failed k f st e)
  then show ?thesis by (intro pool_work_put [of k p _ f "Dead e"]) auto
qed (auto intro!: pool_work_put)

lemma stage_work_kill: "stage_work (snd (kill t)) \<le> stage_work (snd t)"
  by (simp add: kill_def)

lemma main_step_work: "main_step S a p = Some p' \<Longrightarrow> pool_work p' < pool_work p"
proof (cases a)
  case Cancel
  assume "main_step S a p = Some p'"
  then show ?thesis
    using Cancel sum_mono [of "{..<length (po_tasks p)}" "\<lambda>k. stage_work (snd (kill (po_tasks p ! k)))" "\<lambda>k. stage_work (snd (po_tasks p ! k))"]
    by (auto simp: pool_work_def stage_work_kill split: main.splits list.splits)
qed (auto simp: pool_work_def nth_append split: main.splits list.splits if_splits option.splits stage.splits)

section \<open>Futures stay settled\<close>

lemma settled_put:
  assumes "settled p j" "k < length (po_tasks p)" "po_tasks q = (po_tasks p)[k := (f, st)]" "po_future p \<subseteq>\<^sub>m po_future q"
    and "snd (po_tasks p ! k) \<in> {Announcing, Reading} \<longrightarrow> st \<in> {Announcing, Reading} \<or> k \<in> dom (po_future q)"
  shows "settled q j"
  using assms map_le_implies_dom_le [OF assms(4)] by (cases "j = k") (auto simp: settled_def)

lemma unblocked_put:
  assumes "unblocked p" "k < length (po_tasks p)" "po_tasks q = (po_tasks p)[k := (f, st)]" "po_future p \<subseteq>\<^sub>m po_future q"
    and "snd (po_tasks p ! k) \<in> {Announcing, Reading} \<longrightarrow> st \<in> {Announcing, Reading} \<or> k \<in> dom (po_future q)"
    and "\<forall>j. st = Copying j \<longrightarrow> settled p j"
    and "\<forall>d j. po_dedupe q d = Some j \<longrightarrow> po_dedupe p d = Some j \<or> settled q j"
  shows "unblocked q"
proof -
  note keep = settled_put [OF _ assms(2-5)]
  have "settled q j" if "i < length (po_tasks q)" "snd (po_tasks q ! i) = Copying j" for i j
    using that assms(1-3,6) keep by (cases "i = k") (auto simp: unblocked_def)
  then show ?thesis using assms(1,7) keep unfolding unblocked_def by blast
qed

lemma task_step_unblocked:
  assumes "task_step U S a p = Some p'" and un: "unblocked p" and "\<not> leaves_future a p"
  shows "unblocked p'"
  using assms(1)
proof (cases rule: task_step_cases)
  case (copying k f k0 dur)
  then show ?thesis using un by (intro unblocked_put [OF un, of k p' f "Copying k0"]) (auto simp: unblocked_def)
next
  case (announcing k f q dur)
  then show ?thesis by (intro unblocked_put [OF un, of k p' f Announcing]) (auto simp: settled_def split: if_splits)
next
  case (failed k f st e)
  then show ?thesis using assms(3) by (intro unblocked_put [OF un, of k p' f "Dead e"]) auto
next
  case (read k f r dur)
  then show ?thesis
    by (intro unblocked_put [OF un, of k p' f "Reporting (ocr_page U f r dur)"]) (auto simp: share_def map_le_def)
next
  case (spoiled k f r e)
  then show ?thesis by (intro unblocked_put [OF un, of k p' f "Dead e"]) (auto simp: share_def map_le_def)
qed (use assms(3) in \<open>auto intro!: unblocked_put [OF un]\<close>)

lemma unblocked_main [simp]: "unblocked (p\<lparr>po_main := m\<rparr>) \<longleftrightarrow> unblocked p"
  by (simp add: unblocked_def settled_def)

lemma main_step_main:
  "main_step S a p = Some p' \<Longrightarrow> a \<noteq> Take \<Longrightarrow> a \<noteq> Cancel \<Longrightarrow> \<exists>m. p' = p\<lparr>po_main := m\<rparr> \<and> \<not> main_over (po_main p)"
  by (cases a) (auto split: main.splits list.splits if_splits option.splits stage.splits)

lemma main_step_drainable:
  assumes "main_step S a p = Some p'" "drainable S p"
  shows "drainable S p'"
proof -
  consider "a = Take" | "a = Cancel" | "a \<noteq> Take" "a \<noteq> Cancel" by blast
  then show ?thesis
  proof cases
    case 1
    then obtain f fs where p: "po_main p = Feeding (f # fs)"
      and p': "p' = p\<lparr>po_main := Throttled fs, po_tasks := po_tasks p @ [(f, Queued)]\<rparr>"
      using assms(1) by (auto split: main.splits list.splits)
    have "settled p' j" if "settled p j" for j using that by (auto simp: settled_def p' nth_append)
    moreover have "unblocked p" using assms(2) p by (simp add: drainable_def pool_over_def)
    ultimately have "unblocked p'" by (auto simp: unblocked_def p' nth_append less_Suc_eq)
    then show ?thesis using assms(2) by (simp add: drainable_def)
  next
    case 2
    then show ?thesis
      using assms count_kill(1) [of p] by (auto simp: drainable_def pool_over_def split: main.splits list.splits)
  next
    case 3
    then obtain m where "p' = p\<lparr>po_main := m\<rparr>" "\<not> main_over (po_main p)" using main_step_main [OF assms(1)] by blast
    then show ?thesis using assms(2) by (simp add: drainable_def pool_over_def)
  qed
qed

section \<open>No state is stuck\<close>

lemma live_step:
  assumes un: "unblocked p" and "0 < page_concurrency S" and "k < length (po_tasks p)" "live (snd (po_tasks p ! k))"
  shows "\<exists>a p'. task_step U S a p = Some p' \<and> \<not> leaves_future a p"
proof -
  \<comment> \<open>a page that reads, announces, prepares or reports can go on; a copy follows the page it copies\<close>
  have moves: "\<exists>a p'. task_step U S a p = Some p' \<and> \<not> leaves_future a p"
    if k: "k < length (po_tasks p)" and st: "live (snd (po_tasks p ! k))" "snd (po_tasks p ! k) \<noteq> Queued"
      "\<forall>j. snd (po_tasks p ! k) = Copying j \<longrightarrow> j \<in> dom (po_future p)" for k
  proof (cases "snd (po_tasks p ! k)")
    case Preparing
    then show ?thesis using k by (intro exI [of _ "Prepared k 0"]) (auto simp: task_at_def split: prod.splits)
  next
    case Announcing
    then show ?thesis using k by (intro exI [of _ "Announced k"]) (auto simp: task_at_def split: prod.splits)
  next
    case Reading
    define run where "run = new_page_run (new_relay [] 0 0) (Suc (img_regions (fst (po_tasks p ! k))))"
    have "\<not> all_read (fst (po_tasks p ! k)) run" by (simp add: run_def all_read_def new_page_run_def)
    then show ?thesis using Reading k by (intro exI [of _ "Spoiled k run IndexError"]) (auto simp: task_at_def split: prod.splits)
  next
    case (Copying j)
    then show ?thesis using st k by (intro exI [of _ "Copied k 0"]) (auto simp: task_at_def split: prod.splits)
  next
    case (Reporting r)
    then show ?thesis using k by (intro exI [of _ "Reported k"]) (auto simp: task_at_def split: prod.splits)
  qed (use st in simp_all)
  show ?thesis
  proof (cases "\<exists>k<length (po_tasks p). works (snd (po_tasks p ! k))")
    case True
    then obtain k where k: "k < length (po_tasks p)" "works (snd (po_tasks p ! k))" by blast
    show ?thesis
    proof (cases "\<exists>j. snd (po_tasks p ! k) = Copying j \<and> j \<notin> dom (po_future p)")
      case True
      then obtain j where "snd (po_tasks p ! k) = Copying j" "j \<notin> dom (po_future p)" by blast
      then have "j < length (po_tasks p)" "snd (po_tasks p ! j) = Announcing \<or> snd (po_tasks p ! j) = Reading"
        using un k(1) by (auto simp: unblocked_def settled_def)
      then show ?thesis by (intro moves [of j]) auto
    next
      case False
      then show ?thesis using k by (intro moves [of k]) auto
    qed
  next
    case False
    then have "count_tasks works p = 0" by (simp add: count_zero)
    then show ?thesis
    proof (cases "snd (po_tasks p ! k) = Queued")
      case True
      then show ?thesis using assms(2,3) \<open>count_tasks works p = 0\<close>
        by (intro exI [of _ "Start k"]) (auto simp: task_at_def split: prod.splits)
    next
      case q: False
      then show ?thesis using assms(3,4) False by (intro moves [of k]) auto
    qed
  qed
qed

definition gathers :: "pool \<Rightarrow> bool" where
  "gathers p \<longleftrightarrow> (case po_main p of Gathering ks \<Rightarrow> set ks \<subseteq> {..<length (po_tasks p)} | _ \<Rightarrow> True)"

lemma main_progress:
  assumes "count_tasks live p = 0" "\<not> main_over (po_main p)" "gathers p"
  shows "\<exists>a p'. main_step S a p = Some p' \<and> \<not> leaves_future a p"
proof (cases "po_main p")
  case (Feeding fs)
  then show ?thesis by (intro exI [of _ "Break IndexError"]) simp
next
  case (Throttled fs)
  then show ?thesis using assms(1) by (intro exI [of _ Resume]) simp
next
  case (Gathering ks)
  then have idle: "\<not> (\<exists>k\<in>set ks. live (snd (po_tasks p ! k)))"
    using assms(1,3) by (auto simp: count_zero gathers_def)
  show ?thesis
  proof (cases "\<exists>k\<in>set ks. raises (snd (po_tasks p ! k)) \<noteq> None")
    case True
    then obtain k e where "k \<in> set ks" "raises (snd (po_tasks p ! k)) = Some e" by auto
    then show ?thesis using Gathering idle by (intro exI [of _ "Collect (Some k)"]) simp
  next
    case False
    then show ?thesis using Gathering idle by (intro exI [of _ "Collect None"]) simp
  qed
qed (use assms in simp_all)

lemma gathers_step: "pool_step U S a p = Some p' \<Longrightarrow> gathers p \<Longrightarrow> gathers p'"
proof (cases "main_step S a p")
  case None
  assume "pool_step U S a p = Some p'" "gathers p"
  moreover from this None have "map fst (po_tasks p') = map fst (po_tasks p)" "po_main p' = po_main p"
    using task_step_facts [of U S a p p'] by (simp_all add: pool_step_def)
  ultimately show ?thesis using map_eq_imp_length_eq [of fst "po_tasks p'" fst "po_tasks p"]
    by (simp add: gathers_def cong: main.case_cong)
next
  case (Some q)
  assume "pool_step U S a p = Some p'" "gathers p"
  then show ?thesis
    using Some by (cases a) (auto simp: pool_step_def gathers_def split: main.splits list.splits if_splits option.splits)
qed

interpretation page_drain: draining "resolving_step U S" "\<lambda>p. drainable S p \<and> gathers p" pool_over pool_work for U S
proof unfold_locales
  fix p a p' assume ok: "drainable S p \<and> gathers p" and st: "resolving_step U S a p = Some p'"
  then have pool: "pool_step U S a p = Some p'" and a: "\<not> leaves_future a p" by (auto simp: resolving_step_def split: if_splits)
  show "pool_work p' < pool_work p"
    using pool main_step_work task_step_work by (auto simp: pool_step_def split: option.splits)
  have "drainable S p'"
  proof (cases "main_step S a p")
    case None
    then have t: "task_step U S a p = Some p'" using pool by (simp add: pool_step_def)
    have "\<not> pool_over p"
    proof
      assume "pool_over p"
      then have "\<forall>k<length (po_tasks p). \<not> live (snd (po_tasks p ! k))" by (simp add: pool_over_def count_zero)
      with t show False by (cases rule: task_step_cases) auto
    qed
    then show ?thesis using ok task_step_unblocked [OF t _ a] by (simp add: drainable_def)
  next
    case (Some q)
    then show ?thesis using ok pool main_step_drainable by (auto simp: pool_step_def)
  qed
  then show "drainable S p' \<and> gathers p'" using ok gathers_step [OF pool] by blast
next
  fix p assume ok: "drainable S p \<and> gathers p" and more: "\<not> pool_over p"
  show "\<exists>a p'. resolving_step U S a p = Some p'"
  proof (cases "count_tasks live p = 0")
    case True
    then obtain a p' where "main_step S a p = Some p'" "\<not> leaves_future a p"
      using main_progress [of p S] ok more by (auto simp: pool_over_def)
    then have "resolving_step U S a p = Some p'" by (simp add: resolving_step_def pool_step_def)
    then show ?thesis by blast
  next
    case False
    then obtain k where "k < length (po_tasks p)" "live (snd (po_tasks p ! k))" by (auto simp: count_zero)
    then obtain a p' where "task_step U S a p = Some p'" "\<not> leaves_future a p"
      using live_step ok more by (metis drainable_def)
    then show ?thesis by (cases "main_step S a p") (auto simp: resolving_step_def pool_step_def)
  qed
qed

lemma new_pool_drainable: "0 < page_concurrency S \<Longrightarrow> drainable S (new_pool fs) \<and> gathers (new_pool fs)"
  by (simp add: drainable_def unblocked_def new_pool_def gathers_def)

end
