(* ===== verification/Page_Run.thy ===== *)
theory Page_Run
  imports Page_Liveness Worker_Run
begin

text \<open>
  The properties of the page pipeline, and runs of it: what a document's pages become, the bounds, the end of
  every run, and three ways in which it goes wrong.
\<close>

section \<open>Pages\<close>

lemma index_simps [simp]:
  "pr_index (native_page U f t dur) = rp_index (rendered f)" "pr_index (blank_page f dur) = rp_index (rendered f)"
  "pr_index (ocr_page U f run dur) = rp_index (rendered f)" "pr_index (duplicate_page f t i dur) = rp_index (rendered f)"
  by (simp_all add: native_page_def blank_page_def ocr_page_def duplicate_page_def new_page_def Let_def split: prod.split)

lemma page_ok_index: "page_ok U p k r \<Longrightarrow> pr_index r = rp_index (rendered (facts_at p k))"
  by (auto simp: page_ok_def split: option.splits if_splits)

text \<open>
  C8. Every page once, in order. If the pipeline returns and no page's task has died, each rendered
  page has exactly one result. Sorted by index, as the caller sorts them, result \<open>k\<close> is that of
  page \<open>k\<close>: its normalised native text, a blank page, the text of its regions, or the text of another
  page with the same digest.
\<close>

theorem each_page_once:
  assumes "runs (pool_step U S) (new_pool fs) acts p" and "po_main p = Returned" and "no_task_dead p"
    and "map (\<lambda>f. rp_index (rendered f)) fs = map int [0..<length fs]"
  shows "map fst (po_tasks p) = fs \<and> length (po_pages p) = length fs \<and>
    (\<forall>k<length fs. page_ok U p k (sort_key pr_index (po_pages p) ! k))"
proof -
  have inv: "tasks_ok U p" "all_listed p" "ordered fs p"
    using page_pipeline.holds [OF assms(1)] by (simp_all add: pipeline_def)
  have facts: "map fst (po_tasks p) = fs" using inv(3) assms(2) by (simp add: ordered_def)
  then have n: "length (po_tasks p) = length fs" by (metis length_map)
  have "\<forall>k<length fs. \<exists>r. snd (po_tasks p ! k) = Done r"
  proof (intro allI impI)
    fix k assume "k < length fs"
    then have "\<not> live (snd (po_tasks p ! k))" "\<forall>e. snd (po_tasks p ! k) \<noteq> Dead e"
      using inv(3) assms(2,3) n by (auto simp: ordered_def no_task_dead_def)
    then show "\<exists>r. snd (po_tasks p ! k) = Done r" by (cases "snd (po_tasks p ! k)") simp_all
  qed
  then obtain g where g: "\<And>k. k < length fs \<Longrightarrow> snd (po_tasks p ! k) = Done (g k)" by metis
  have ok: "page_ok U p k (g k)" if "k < length fs" for k
    using inv(1) n that g [OF that] by (auto simp: tasks_ok_def)
  have idx: "pr_index (g k) = int k" if k: "k < length fs" for k
  proof -
    have "facts_at p k = fs ! k" using facts n k by (metis facts_at_def nth_map)
    moreover have "rp_index (rendered (fs ! k)) = int k"
      using arg_cong [OF assms(4), of "\<lambda>xs. xs ! k"] k by simp
    ultimately show ?thesis using page_ok_index [OF ok [OF k]] by simp
  qed
  have "mset (po_pages p) = (\<Sum>k<length fs. carried (snd (po_tasks p ! k)))"
    using inv(2) assms(3) n by (simp add: all_listed_def)
  also have "\<dots> = (\<Sum>k<length fs. {#g k#})" by (rule sum.cong) (simp_all add: g)
  also have "\<dots> = mset (map g [0..<length fs])"
    by (simp add: sum_unfold_sum_mset image_mset.compositionality flip: mset_set_set atLeast0LessThan)
  finally have m: "mset (po_pages p) = mset (map g [0..<length fs])" .
  have inj: "inj_on pr_index (set (po_pages p))"
    using idx by (auto simp: inj_on_def simp flip: set_mset_mset [of "po_pages p"] simp: m)
  have "sort_key pr_index (po_pages p) = map g [0..<length fs]"
    by (rule sort_key_inj_key_eq [OF m inj])
      (auto simp: sorted_wrt_iff_nth_less idx sorted_wrt_map intro: sorted_wrt_mono_rel)
  moreover have "length (po_pages p) = length fs" using mset_eq_length [OF m] by simp
  ultimately show ?thesis using facts ok by simp
qed

text \<open>
  Bounded concurrency. At every moment at most \<open>page_concurrency\<close> pages are worked on, and at most
  \<open>page_concurrency + worker_prefetch + 1\<close> have a task that is not over, one more than the loop's comment says.
\<close>

theorem page_pipeline_bounded:
  assumes "runs (pool_step U S) (new_pool fs) acts p"
  shows "count_tasks works p \<le> page_concurrency S \<and>
    count_tasks live p \<le> page_concurrency S + worker_prefetch S + 1"
  using page_limits.holds [OF assms] by (auto simp: within_limits_def split: main.splits)

text \<open>
  C15. The pipeline ends. With at least one page worked on at a time, and as long as no announcement and no final
  flush raises, no run is longer than eight steps per page and two more, and every run can go on to
  the end, where the main loop has returned or raised and no task is left, whatever pages are duplicates of
  which.
\<close>

theorem pages_always_end:
  assumes "0 < page_concurrency S" and "runs (resolving_step U S) (new_pool fs) acts p"
  shows "length acts \<le> 8 * length fs + 2 \<and> (\<exists>more p'. runs (resolving_step U S) (new_pool fs) (acts @ more) p' \<and> pool_over p')"
  using page_drain.run_bounded [OF assms(2) new_pool_drainable [OF assms(1)]]
    page_drain.always_ends [OF new_pool_drainable [OF assms(1)] assms(2)]
  by (auto simp: pool_work_def new_pool_def)

section \<open>Examples\<close>

definition sample_page :: "int \<Rightarrow> pystr option \<Rightarrow> page_facts" where
  "sample_page i native = \<lparr>rendered = \<lparr>rp_index = i, rp_png = None, rp_dpi = 150, rp_width = 100, rp_height = 200,
     rp_native_text = native\<rparr>, img_size = (100, 200), img_skew = 0, img_blank = False, img_digest = lit ''d'', img_regions = 1\<rparr>"

definition sample_stats :: "pystr \<Rightarrow> stream_stats" where
  "sample_stats t = new_stats\<lparr>out := t, completion_tokens := 1\<rparr>"

definition sample_read :: "pystr \<Rightarrow> page_run" where
  \<comment> \<open>a page of one region after its task is done\<close>
  "sample_read t = set_phase 0 (Finished (sample_stats t)) (record_stats 0 (sample_stats t)
     (new_page_run (new_relay (lit ''j1'') 0 0) 1))"

lemmas pool_simps = runs_iff_exec pool_step_def new_pool_def count_tasks_def task_at_def put_task_def list_page_def
  prepared_def share_def

text \<open>
  A page is dropped. A page whose task raises before the last page has been taken is forgotten: the
  callback has removed the task from the set that is gathered at the end, so its exception is never raised,
  and the job completes without the page, although the module promises that such a page carries its error.
\<close>

theorem failed_page_dropped:
  "\<exists>p. runs (pool_step U default_settings) (new_pool [sample_page 0 None, sample_page 1 (Some t)])
      [Take, Start 0, Fail 0 e, Resume, Take, Start 1, Prepared 1 dur, Reported 1, Resume, Close] p \<and>
    po_main p = Returned \<and> po_pages p = [native_page U (sample_page 1 (Some t)) t dur]"
  by (simp add: pool_simps default_settings_def sample_page_def)

text \<open>
  A duplicate can wait for ever. If the announcement of a page raises, the future that a page with the
  same digest waits for is never resolved: the pipeline is in a state without any further step,
  the loop waits for the duplicate, and the job neither completes nor fails.
\<close>

theorem duplicate_waits_forever:
  "\<exists>p. runs (pool_step U default_settings) (new_pool [sample_page 0 None, sample_page 1 None])
      [Take, Start 0, Resume, Take, Start 1, Prepared 0 d0, Prepared 1 d1, Fail 0 e, Resume, Close] p \<and>
    po_main p = Gathering [1] \<and> (\<forall>a. pool_step U default_settings a p = None)"
proof -
  define p where "p = \<lparr>po_main = Gathering [1], po_tasks = [(sample_page 0 None, Dead e), (sample_page 1 None, Copying 0)],
    po_dedupe = [lit ''d'' \<mapsto> 0], po_future = Map.empty, po_pages = []\<rparr>"
  have "runs (pool_step U default_settings) (new_pool [sample_page 0 None, sample_page 1 None])
      [Take, Start 0, Resume, Take, Start 1, Prepared 0 d0, Prepared 1 d1, Fail 0 e, Resume, Close] p"
    by (simp add: pool_simps default_settings_def sample_page_def p_def upt_rec)
  moreover have "pool_step U default_settings a p = None" for a
    by (cases a) (auto simp: pool_simps p_def less_Suc_eq nth_Cons split: nat.splits)
  ultimately show ?thesis by (auto simp: p_def)
qed

definition loop_text :: pystr where
  "loop_text = join [10] (replicate 7 (lit ''row1''))"

lemma loop_text: "stitch_regions ascii_unicode [loop_text] True = loop_text"
proof -
  have e: "loop_text = [114, 111, 119, 49, 10, 114, 111, 119, 49, 10, 114, 111, 119, 49, 10, 114, 111, 119, 49, 10,
     114, 111, 119, 49, 10, 114, 111, 119, 49, 10, 114, 111, 119, 49]"
    by (simp add: loop_text_def lit_def numeral_eq_Suc)
  have s: "strip loop_text = loop_text" by (simp add: e strip_def lstrip_def rstrip_def is_ws_def)
  have "normalize_text ascii_unicode loop_text = loop_text"
  proof (rule normalize_plain)
    show "\<forall>c\<in>set loop_text. c \<notin> {13, 45, 32, 9} \<and> c < 128" by (simp add: e)
    show "match_fence loop_text = None" by (simp add: e match_fence_def lstrip_def is_ws_def startswith_def fence_def)
    show "squeeze_nl 0 loop_text = loop_text" by (simp add: e)
  qed (rule s)
  moreover have "\<not> blank loop_text" by (simp add: e blank_def is_ws_def)
  ultimately show ?thesis by (simp add: stitch_one s)
qed
text \<open>
  A duplicate keeps the loop. The text that a page shares is the stitched text before the
  repetition filter has cut it, so of two pages with the same digest one reports \<open>row1\<close> and the
  other, its duplicate, the seven copies of the line that the engine emitted.
\<close>

theorem duplicate_keeps_loop:
  "\<exists>p. runs (pool_step ascii_unicode default_settings) (new_pool [sample_page 0 None, sample_page 1 None])
      [Take, Start 0, Resume, Take, Start 1, Prepared 0 1, Prepared 1 1, Announced 0,
       Read 0 (sample_read loop_text) 2, Copied 1 3, Reported 0, Reported 1, Resume, Close] p \<and>
    po_main p = Returned \<and> map pr_source (po_pages p) = [Ocr, Duplicate] \<and>
    map pr_text (po_pages p) = [lit ''row1'', join [10] (replicate 7 (lit ''row1''))]"
proof -
  have texts: "pg_texts (sample_read t) = [t]" "pg_phase (sample_read t) = [Finished (sample_stats t)]" for t
    by (simp_all add: sample_read_def sample_stats_def new_stats_def record_stats_def new_page_run_def set_phase_def)
  have cut: "filter_degenerate loop_text (1/2) = (lit ''row1'', True)"
    unfolding loop_text_def by (rule filter_degenerate_loop) (simp_all add: lit_def is_linebreak_def strip_def lstrip_def rstrip_def is_ws_def)
  have "exec (pool_step ascii_unicode default_settings)
      [Take, Start 0, Resume, Take, Start 1, Prepared 0 1, Prepared 1 1, Announced 0,
       Read 0 (sample_read loop_text) 2, Copied 1 3, Reported 0, Reported 1, Resume, Close]
      (new_pool [sample_page 0 None, sample_page 1 None]) = Some \<lparr>po_main = Returned,
        po_tasks = [(sample_page 0 None, Done (ocr_page ascii_unicode (sample_page 0 None) (sample_read loop_text) 2)),
          (sample_page 1 None, Done (duplicate_page (sample_page 1 None) loop_text 0 3))],
        po_dedupe = [lit ''d'' \<mapsto> 0], po_future = [0 \<mapsto> loop_text],
        po_pages = [ocr_page ascii_unicode (sample_page 0 None) (sample_read loop_text) 2, duplicate_page (sample_page 1 None) loop_text 0 3]\<rparr>"
    by (simp add: pool_simps default_settings_def sample_page_def all_read_def texts shared_text_def loop_text)
  then show ?thesis
    by (simp add: runs_iff_exec ocr_page_def duplicate_page_def new_page_def texts loop_text cut) (simp add: loop_text_def)
qed

lemma four_pages_resident:
  \<comment> \<open>the bound of \<open>page_pipeline_bounded\<close> is reached\<close>
  "\<exists>p. runs (pool_step U default_settings) (new_pool (map (\<lambda>i. sample_page i None) [0, 1, 2, 3]))
      [Take, Resume, Take, Resume, Take, Resume, Take] p \<and>
    count_tasks live p = page_concurrency default_settings + worker_prefetch default_settings + 1"
  by (simp add: pool_simps default_settings_def sample_page_def)

lemma failed_render_leaves_tasks:
  \<comment> \<open>only a cancelled job cancels its page tasks; they go on after any other exception of the loop\<close>
  "\<exists>p p'. runs (pool_step U default_settings) (new_pool [sample_page 0 (Some t), sample_page 1 None])
      [Take, Start 0, Resume, Break (ConnectionError [])] p \<and> po_main p = Raised (ConnectionError []) \<and>
    pool_step U default_settings (Prepared 0 dur) p = Some p' \<and> po_pages p' = [native_page U (sample_page 0 (Some t)) t dur]"
  by (simp add: pool_simps default_settings_def sample_page_def)

section \<open>Witnesses\<close>

definition sample_acts :: "event list" where
  "sample_acts = [Take, Start 0, Resume, Take, Start 1, Prepared 1 1, Prepared 0 1, Announced 0, Reported 1,
     Read 0 (sample_read (lit ''ab'')) 2, Reported 0, Resume, Close]"

lemma sample_pages:
  "\<exists>p. runs (pool_step ascii_unicode default_settings) (new_pool [sample_page 0 None, sample_page 1 (Some (lit ''cd''))]) sample_acts p \<and>
     po_main p = Returned \<and> no_task_dead p \<and> map pr_index (po_pages p) = [1, 0]"
proof -
  have "pg_phase (sample_read t) = [Finished (sample_stats t)]" for t
    by (simp add: sample_read_def sample_stats_def new_stats_def record_stats_def new_page_run_def set_phase_def)
  then show ?thesis
    by (simp add: sample_acts_def pool_simps default_settings_def sample_page_def all_read_def no_task_dead_def less_Suc_eq)
qed

lemma each_page_once_witness:
  "\<exists>p. runs (pool_step ascii_unicode default_settings) (new_pool [sample_page 0 None, sample_page 1 (Some (lit ''cd''))]) sample_acts p \<and>
     length (po_pages p) = 2 \<and> page_ok ascii_unicode p 0 (sort_key pr_index (po_pages p) ! 0)"
proof -
  obtain p where p: "runs (pool_step ascii_unicode default_settings)
       (new_pool [sample_page 0 None, sample_page 1 (Some (lit ''cd''))]) sample_acts p" "po_main p = Returned" "no_task_dead p"
    using sample_pages by blast
  from each_page_once [OF this] p(1) show ?thesis
    by (intro exI [of _ p]) (simp add: sample_page_def upt_rec)
qed

lemma page_pipeline_bounded_witness:
  "\<exists>p. runs (pool_step ascii_unicode default_settings) (new_pool [sample_page 0 None, sample_page 1 (Some (lit ''cd''))]) sample_acts p \<and>
     count_tasks live p \<le> 4"
proof -
  obtain p where p: "runs (pool_step ascii_unicode default_settings)
       (new_pool [sample_page 0 None, sample_page 1 (Some (lit ''cd''))]) sample_acts p"
    using sample_pages by blast
  from page_pipeline_bounded [OF this] p show ?thesis by (intro exI [of _ p]) (simp add: default_settings_def)
qed

lemma pages_always_end_witness:
  "\<exists>more p'. runs (resolving_step ascii_unicode default_settings) (new_pool [sample_page 0 None, sample_page 1 None]) ([Take, Start 0] @ more) p' \<and>
     pool_over p'"
proof -
  have "0 < page_concurrency default_settings" by (simp add: default_settings_def)
  moreover have "\<exists>p. runs (resolving_step ascii_unicode default_settings) (new_pool [sample_page 0 None, sample_page 1 None]) [Take, Start 0] p"
    by (simp add: resolving_step_def pool_simps default_settings_def)
  ultimately show ?thesis using pages_always_end by blast
qed

lemma sample_regions:
  "\<exists>p. runs (region_step default_settings) (new_page_run (new_relay (lit ''j1'') 0 0) 2)
      [Begin 0, Begin 1, Delta 1 (lit ''cd'') 0 0, Delta 0 (lit ''ab'') 0 0, End 0 (sample_stats (lit ''ab'')) 2,
       End 1 (sample_stats (lit ''cd'')) 2, Sent 0] p \<and>
     pg_phase p = map Finished [sample_stats (lit ''ab''), sample_stats (lit ''cd'')] \<and> pg_lost p = [] \<and>
     pg_sent p = [(lit ''cdab'', 1)]"
  by (simp add: runs_iff_exec new_page_run_def numeral_2_eq_2 phase_of_def set_phase_def default_settings_def new_relay_def relay_add_def
      relay_due_def relay_take_def flushed_def record_stats_def sample_stats_def new_stats_def lit_def)

lemma regions_independent_of_schedule_witness:
  "\<exists>acts p. runs (region_step default_settings) (new_page_run (new_relay (lit ''j1'') 0 0) 2) acts p \<and>
     pg_texts p = [lit ''ab'', lit ''cd''] \<and> pg_tokens p = 2 \<and> pg_errors p = []"
proof -
  obtain acts p where p: "runs (region_step default_settings) (new_page_run (new_relay (lit ''j1'') 0 0) 2) acts p"
    "pg_phase p = map Finished [sample_stats (lit ''ab''), sample_stats (lit ''cd'')]" using sample_regions by blast
  from regions_independent_of_schedule [OF this] p(1) show ?thesis
    by (intro exI [of _ acts] exI [of _ p])
      (simp add: region_text_def region_tokens_def region_errors_def sample_stats_def new_stats_def)
qed

lemma page_tokens_spell_deltas_witness:
  "\<exists>acts p ps. runs (region_step default_settings) (new_page_run (new_relay (lit ''j1'') 0 0) 2) acts p \<and>
     mset (pg_sent p) = mset (numbered ps) \<and> concat ps = concat (arrivals acts)"
proof -
  obtain acts p where p: "runs (region_step default_settings) (new_page_run (new_relay (lit ''j1'') 0 0) 2) acts p"
    "pg_phase p = map Finished [sample_stats (lit ''ab''), sample_stats (lit ''cd'')]" "pg_lost p = []"
    using sample_regions by blast
  from page_tokens_spell_deltas [OF this] p(1) show ?thesis by blast
qed

lemma relayed_tokens_spell_text_witness:
  "\<exists>u r' w' ps es n. bindE (mapE (relay_call calm_redis mem_settings mem_time) [lit ''ab'', lit ''cd''])
       (\<lambda>_. relay_flush calm_redis mem_settings mem_time) (new_relay (lit ''j1'') 0 0, sample_world Processing 1 []) = (Inr u, r', w') \<and>
     concat ps = lit ''abcd'' \<and> token_entries mem_time (new_relay (lit ''j1'') 0 0) 0 ps es \<and>
     s_stream (db w') (events_stream (lit ''j1'')) = drop n (s_stream (db (sample_world Processing 1 [])) (events_stream (lit ''j1'')) @ es)"
proof -
  have "\<exists>u r' w'. bindE (mapE (relay_call calm_redis mem_settings mem_time) [lit ''ab'', lit ''cd''])
       (\<lambda>_. relay_flush calm_redis mem_settings mem_time) (new_relay (lit ''j1'') 0 0, sample_world Processing 1 []) = (Inr u, r', w')"
    by (simp add: relay_call_def relay_flush_def relay_due_def relay_add_def relay_take_def new_relay_def stats_prog_defs mem_time_def
        sample_world_def publish_def calm_redis_def mem_redis_def calm_def run_command_def Let_def split: prod.split)
  then obtain u r' w' where run: "bindE (mapE (relay_call calm_redis mem_settings mem_time) [lit ''ab'', lit ''cd''])
       (\<lambda>_. relay_flush calm_redis mem_settings mem_time) (new_relay (lit ''j1'') 0 0, sample_world Processing 1 []) = (Inr u, r', w')" by blast
  from relayed_tokens_spell_text [OF calm_worker.job_store_axioms mem_environment(11) run] run show ?thesis
    by (auto simp: lit_def)
qed

end
