(* ===== verification/Page_Feed.thy ===== *)
theory Page_Feed
  imports Py_Effects Tasks "HOL-Library.Sublist"
begin

text \<open>
  \<open>aiter_pages\<close> of \<open>workers/cpu_worker.py\<close>: a thread renders the pages and puts them into a bounded queue, the
  generator takes them out. The thread, the generator and the consumer of the generator are tasks; a
  step is a \<open>put\<close>, a \<open>get\<close>, the end of the consumer's interest, or the end of the wait for the thread.
\<close>

datatype 'p item = Page 'p | Error exn | Mark        \<comment> \<open>\<open>done\<close> in the source\<close>

datatype reader =
    Drawing
  | Joining "exn option"     \<comment> \<open>in the \<open>finally\<close> block, with the exception to be raised after it\<close>
  | Ended "exn option"

record 'p feed =
  fd_source :: "'p item list"      \<comment> \<open>what the thread has still to put\<close>
  fd_queue :: "'p item list"
  fd_out :: "'p list"              \<comment> \<open>the pages yielded\<close>
  fd_reader :: reader

datatype move = Put | Get | Leave | Join

definition items :: "'p list \<Rightarrow> exn option \<Rightarrow> 'p item list" where
  \<comment> \<open>what \<open>produce\<close> puts when the renderer yields these pages and then ends, or raises\<close>
  "items pages e = map Page pages @ (case e of None \<Rightarrow> [] | Some e \<Rightarrow> [Error e]) @ [Mark]"

definition new_feed :: "'p list \<Rightarrow> exn option \<Rightarrow> 'p feed" where
  "new_feed pages e = \<lparr>fd_source = items pages e, fd_queue = [], fd_out = [], fd_reader = Drawing\<rparr>"

definition generator_exit :: exn where
  "generator_exit = OtherError (lit ''GeneratorExit'') []"

fun feed_step :: "nat \<Rightarrow> move \<Rightarrow> 'p feed \<Rightarrow> 'p feed option" where
  "feed_step prefetch Put s = (case fd_source s of
       x # xs \<Rightarrow> if length (fd_queue s) < max prefetch 1
         then Some (s\<lparr>fd_source := xs, fd_queue := fd_queue s @ [x]\<rparr>) else None
     | [] \<Rightarrow> None)"
| "feed_step prefetch Get s = (if fd_reader s \<noteq> Drawing then None else case fd_queue s of
       Page p # q \<Rightarrow> Some (s\<lparr>fd_queue := q, fd_out := fd_out s @ [p]\<rparr>)
     | Error e # q \<Rightarrow> Some (s\<lparr>fd_queue := q, fd_reader := Joining (Some e)\<rparr>)
     | Mark # q \<Rightarrow> Some (s\<lparr>fd_queue := q, fd_reader := Joining None\<rparr>)
     | [] \<Rightarrow> None)"
| "feed_step prefetch Leave s = (if fd_reader s = Drawing
     then Some (s\<lparr>fd_reader := Joining (Some generator_exit)\<rparr>) else None)"
| "feed_step prefetch Join s = (case fd_reader s of
       Joining r \<Rightarrow> if fd_source s = [] then Some (s\<lparr>fd_reader := Ended r\<rparr>) else None
     | _ \<Rightarrow> None)"

section \<open>Order\<close>

definition on_time :: "nat \<Rightarrow> 'p list \<Rightarrow> exn option \<Rightarrow> move list \<Rightarrow> 'p feed \<Rightarrow> bool" where
  "on_time prefetch pages e moves s \<longleftrightarrow> length (fd_queue s) \<le> max prefetch 1 \<and> prefix (fd_out s) pages \<and>
     (fd_reader s = Drawing \<longrightarrow> Leave \<notin> set moves \<and> items pages e = map Page (fd_out s) @ fd_queue s @ fd_source s) \<and>
     (\<forall>r. fd_reader s \<in> {Joining r, Ended r} \<longrightarrow> Leave \<notin> set moves \<longrightarrow> r = e \<and> fd_out s = pages \<and>
        length (fd_queue s @ fd_source s) \<le> 1)"

lemma items_split:
  "items pages e = map Page ps @ x # rest \<Longrightarrow> prefix ps pages \<and> (case x of Page p \<Rightarrow> prefix (ps @ [p]) pages
     | Error d \<Rightarrow> e = Some d \<and> ps = pages \<and> rest = [Mark] | Mark \<Rightarrow> e = None \<and> ps = pages \<and> rest = [])"
proof (induction ps arbitrary: pages)
  case Nil
  then show ?case by (cases pages; cases e) (auto simp: items_def)
next
  case (Cons p ps)
  then obtain qs where "pages = p # qs" by (cases pages; cases e) (auto simp: items_def)
  then have "items qs e = map Page ps @ x # rest" using Cons.prems by (simp add: items_def)
  from Cons.IH [OF this] show ?case using \<open>pages = p # qs\<close> by (cases x) simp_all
qed

lemma on_time_step:
  assumes "on_time n pages e moves s" "feed_step n a s = Some s'"
  shows "on_time n pages e (moves @ [a]) s'"
proof (cases a)
  case Get
  then obtain x q where q: "fd_queue s = x # q" and d: "fd_reader s = Drawing"
    using assms(2) by (auto split: if_splits list.splits)
  have "items pages e = map Page (fd_out s) @ x # q @ fd_source s" using assms(1) q d by (simp add: on_time_def)
  moreover have "length q + length (fd_source s) = 1" if "q @ fd_source s = [Mark]"
    using arg_cong [OF that, of length] by simp
  ultimately show ?thesis
    using items_split assms q d Get by (cases x) (force simp: on_time_def)+
qed (use assms in \<open>auto simp: on_time_def split: list.splits if_splits reader.splits\<close>)

interpretation feed_on_time: invariant "feed_step n" "new_feed pages e" "on_time n pages e" for n pages e
proof unfold_locales
  show "on_time n pages e [] (new_feed pages e)" by (simp add: on_time_def new_feed_def)
qed (rule on_time_step)

section \<open>The end\<close>

definition staying_step :: "nat \<Rightarrow> move \<Rightarrow> 'p feed \<Rightarrow> 'p feed option" where
  \<comment> \<open>with a consumer that reads to the end\<close>
  "staying_step n a s = (if a = Leave then None else feed_step n a s)"

fun reader_work :: "reader \<Rightarrow> nat" where
  "reader_work Drawing = 2"
| "reader_work (Joining r) = 1"
| "reader_work (Ended r) = 0"

definition feed_work :: "'p feed \<Rightarrow> nat" where
  "feed_work s = 2 * length (fd_source s) + length (fd_queue s) + reader_work (fd_reader s)"

definition attended :: "nat \<Rightarrow> 'p feed \<Rightarrow> bool" where
  "attended n s \<longleftrightarrow> (\<exists>pages e moves. on_time n pages e moves s \<and> Leave \<notin> set moves)"

fun ended :: "reader \<Rightarrow> bool" where
  "ended (Ended r) = True"
| "ended _ = False"

interpretation feed_drain: draining "staying_step n" "attended n" "\<lambda>s. ended (fd_reader s)" feed_work for n
proof unfold_locales
  fix s a s' assume ok: "attended n s" and st: "staying_step n a (s :: 'b feed) = Some s'"
  then show "feed_work s' < feed_work s"
    by (cases a) (auto simp: staying_step_def feed_work_def split: if_splits list.splits item.splits reader.splits)
  from ok st show "attended n s'"
    unfolding attended_def staying_step_def using on_time_step by (auto split: if_splits) fastforce
next
  fix s :: "'b feed" assume "attended n s" and more: "\<not> ended (fd_reader s)"
  then obtain pages e moves where ok: "on_time n pages e moves s" "Leave \<notin> set moves" by (auto simp: attended_def)
  have put: "\<exists>a s'. staying_step n a s = Some s'" if "fd_queue s = []" "fd_source s \<noteq> []"
    using that by (intro exI [of _ Put]) (auto simp: staying_step_def split: list.splits)
  show "\<exists>a s'. staying_step n a s = Some s'"
  proof (cases "fd_reader s")
    case Drawing
    show ?thesis
    proof (cases "fd_queue s")
      case Nil
      have "items pages e = map Page (fd_out s) @ fd_source s" using ok Drawing Nil by (simp add: on_time_def)
      moreover have "Mark \<in> set (items pages e)" by (simp add: items_def)
      ultimately have "fd_source s \<noteq> []" by (auto simp: image_iff)
      then show ?thesis using put Nil by blast
    next
      case (Cons x q)
      then show ?thesis using Drawing
        by (intro exI [of _ Get]) (cases x; simp add: staying_step_def)
    qed
  next
    case (Joining r)
    then have few: "length (fd_queue s @ fd_source s) \<le> 1" using ok by (simp add: on_time_def)
    show ?thesis
    proof (cases "fd_source s")
      case Nil
      then show ?thesis using Joining by (intro exI [of _ Join]) (simp add: staying_step_def)
    next
      case (Cons x xs)
      then show ?thesis using put few by simp
    qed
  qed (use more in simp)
qed

text \<open>
  C17. The pages arrive in order, and the feed ends. As long as the consumer reads on, the pages it has been given are
  the first ones of the document; when the generator ends it has yielded all pages before the renderer's end or
  exception, which it passes on; it is never more than the size of the queue behind, and every run can
  go on to the end, the wait for the thread in the \<open>finally\<close> block included.
\<close>

theorem pages_fed_in_order:
  assumes "runs (staying_step n) (new_feed pages e) moves s"
  shows "prefix (fd_out s) pages \<and> length (fd_queue s) \<le> max n 1 \<and>
    (\<forall>r. fd_reader s = Ended r \<longrightarrow> r = e \<and> fd_out s = pages) \<and>
    (\<exists>more s'. runs (staying_step n) (new_feed pages e) (moves @ more) s' \<and> ended (fd_reader s'))"
proof -
  have "runs (feed_step n) (new_feed pages e) moves s \<and> Leave \<notin> set moves"
    using assms by (induction rule: runs.induct) (auto simp: staying_step_def intro: runs.intros split: if_splits)
  then have "on_time n pages e moves s" "Leave \<notin> set moves" using feed_on_time.holds by blast+
  moreover have "attended n (new_feed pages e)"
    unfolding attended_def using feed_on_time.holds_first by (intro exI [of _ pages] exI [of _ e] exI [of _ "[]"]) simp
  from feed_drain.always_ends [OF this assms]
  have "\<exists>more s'. runs (staying_step n) (new_feed pages e) (moves @ more) s' \<and> ended (fd_reader s')" .
  ultimately show ?thesis by (auto simp: on_time_def)
qed

lemma pages_fed_in_order_witness:
  "\<exists>s. runs (staying_step 1) (new_feed [0 :: nat, 1] None) [Put, Get, Put, Get, Put, Get, Join] s \<and> fd_out s = [0, 1]"
proof -
  obtain s where s: "runs (staying_step 1) (new_feed [0 :: nat, 1] None) [Put, Get, Put, Get, Put, Get, Join] s"
    "fd_reader s = Ended None"
    by (auto simp: runs_iff_exec staying_step_def new_feed_def items_def)
  from pages_fed_in_order [OF this(1)] s show ?thesis by blast
qed

section \<open>A consumer that leaves\<close>

definition stranded :: "nat \<Rightarrow> move list \<Rightarrow> 'p feed \<Rightarrow> bool" where
  "stranded n moves s \<longleftrightarrow> max n 1 < length (fd_queue s) + length (fd_source s) \<and> length (fd_queue s) \<le> max n 1 \<and>
     (\<exists>r. fd_reader s = Joining r)"

lemma stranded_step: "stranded n moves s \<Longrightarrow> feed_step n a s = Some s' \<Longrightarrow> stranded n (moves @ [a]) s'"
  by (cases a) (auto simp: stranded_def split: list.splits if_splits)

text \<open>
  An abandoned feed never joins. If the consumer leaves, because the job was cancelled or an
  exception ended its loop, while more is left to put than the queue has room for, then in every later
  state the thread has still something to put and the generator is still waiting for it: the thread
  is blocked for ever.
\<close>

theorem abandoned_feed_never_joins:
  assumes "runs (feed_step n) (new_feed pages e) moves s" and "feed_step n Leave s = Some s'"
    and "max n 1 < length (fd_queue s) + length (fd_source s)"
    and "runs (feed_step n) s' later t"
  shows "fd_source t \<noteq> [] \<and> \<not> ended (fd_reader t)"
proof -
  have "length (fd_queue s) \<le> max n 1" using feed_on_time.holds [OF assms(1)] by (simp add: on_time_def)
  then have "stranded n [] s'" using assms(2,3) by (auto simp: stranded_def split: if_splits)
  with assms(4) have "stranded n later t"
    by (induction rule: runs.induct) (auto intro: stranded_step)
  then show ?thesis by (auto simp: stranded_def)
qed

lemma abandoned_feed_never_joins_witness:
  "\<exists>t. runs (feed_step 1) (new_feed [0 :: nat, 1, 2] None) ([Put, Get] @ [Leave] @ [Put]) t \<and>
     fd_source t \<noteq> [] \<and> \<not> ended (fd_reader t)"
proof -
  obtain s s' t where s: "runs (feed_step 1) (new_feed [0 :: nat, 1, 2] None) [Put, Get] s" "feed_step 1 Leave s = Some s'"
    "max 1 1 < length (fd_queue s) + length (fd_source s)" "runs (feed_step 1) s' [Put] t"
    by (auto simp: runs_iff_exec new_feed_def items_def)
  have "runs (feed_step 1) (new_feed [0 :: nat, 1, 2] None) ([Put, Get] @ [Leave] @ [Put]) t"
    by (rule runs_trans [OF s(1) runs_trans [OF _ s(4)]]) (simp only: runs_iff_exec exec.simps s(2) option.case)
  then show ?thesis using abandoned_feed_never_joins [OF s] by blast
qed

end
