(* ===== verification/Worker_Loop.thy ===== *)
theory Worker_Loop
  imports Worker Tasks Retention
begin

text \<open>
  The worker process of \<open>workers/cpu_worker.py\<close>: \<open>run\<close> and the loops beside it. The slots are a semaphore
  that the main loop and the reclaim loop acquire before they start a job and the job's end releases.
  The loops and the jobs are tasks, a step is what one of them does between two awaits; \<open>run_job\<close> itself is
  in \<open>Worker\<close>. The rounds of the heartbeat, retention and metrics loops are programs.
\<close>

section \<open>The slots\<close>

datatype main_loop =
    Top                 \<comment> \<open>at the test of \<open>_stopping\<close>\<close>
  | Acquiring
  | Holding             \<comment> \<open>the semaphore is acquired; at the second test\<close>
  | Reserving
  | Draining            \<comment> \<open>in the \<open>finally\<close> block\<close>
  | Over

datatype reclaim_loop =
    Sleeping
  | Handing "queued_job list"     \<comment> \<open>the reclaimed jobs that wait for a slot\<close>
  | Off

record worker_state =
  ws_permits :: nat
  ws_stopping :: bool
  ws_main :: main_loop
  ws_reclaim :: reclaim_loop
  ws_tasks :: "(queued_job \<times> bool) list"      \<comment> \<open>whether the task has entered \<open>_run_job\<close>\<close>
  ws_inflight :: "sid \<rightharpoonup> pystr"
  ws_raised :: "exn option"

datatype worker_act =
    Loop
  | Acquire
  | Recheck
  | Reserved "queued_job option"
  | Reserve_raises exn
  | Wake "queued_job list"        \<comment> \<open>what \<open>queue.reclaim()\<close> returned, nothing if it raised\<close>
  | Hand
  | Rest
  | Enter nat
  | Leave nat
  | Stop
  | Drained

definition new_worker :: "settings \<Rightarrow> worker_state" where
  "new_worker S = \<lparr>ws_permits = worker_concurrency S, ws_stopping = False, ws_main = Top, ws_reclaim = Sleeping,
     ws_tasks = [], ws_inflight = Map.empty, ws_raised = None\<rparr>"

definition leave_loop :: "worker_state \<Rightarrow> worker_state" where
  \<comment> \<open>the loop is left: the housekeeping tasks are cancelled\<close>
  "leave_loop w = w\<lparr>ws_main := Draining, ws_reclaim := Off\<rparr>"

definition start_task :: "queued_job \<Rightarrow> worker_state \<Rightarrow> worker_state" where
  "start_task job w = w\<lparr>ws_tasks := ws_tasks w @ [(job, False)]\<rparr>"

definition remove_at :: "nat \<Rightarrow> 'a list \<Rightarrow> 'a list" where
  "remove_at k xs = take k xs @ drop (Suc k) xs"

fun worker_step :: "worker_act \<Rightarrow> worker_state \<Rightarrow> worker_state option" where
  "worker_step Loop w = (if ws_main w = Top
     then Some (if ws_stopping w then leave_loop w else w\<lparr>ws_main := Acquiring\<rparr>) else None)"
| "worker_step Acquire w = (if ws_main w = Acquiring \<and> 0 < ws_permits w
     then Some (w\<lparr>ws_main := Holding, ws_permits := ws_permits w - 1\<rparr>) else None)"
| "worker_step Recheck w = (if ws_main w = Holding
     then Some (if ws_stopping w then leave_loop (w\<lparr>ws_permits := ws_permits w + 1\<rparr>) else w\<lparr>ws_main := Reserving\<rparr>) else None)"
| "worker_step (Reserved j) w = (if ws_main w = Reserving
     then Some (case j of None \<Rightarrow> w\<lparr>ws_main := Top, ws_permits := ws_permits w + 1\<rparr>
       | Some job \<Rightarrow> start_task job (w\<lparr>ws_main := Top\<rparr>)) else None)"
| "worker_step (Reserve_raises e) w = (if ws_main w = Reserving
     then Some (leave_loop (w\<lparr>ws_raised := Some e\<rparr>)) else None)"
| "worker_step (Wake js) w = (if ws_reclaim w = Sleeping
     then Some (w\<lparr>ws_reclaim := (if ws_stopping w then Off else Handing js)\<rparr>) else None)"
| "worker_step Hand w = (case ws_reclaim w of
       Handing (job # js) \<Rightarrow> if 0 < ws_permits w
         then Some (start_task job (w\<lparr>ws_reclaim := Handing js, ws_permits := ws_permits w - 1\<rparr>)) else None
     | _ \<Rightarrow> None)"
| "worker_step Rest w = (if ws_reclaim w = Handing [] then Some (w\<lparr>ws_reclaim := Sleeping\<rparr>) else None)"
| "worker_step (Enter k) w = (if k < length (ws_tasks w) \<and> \<not> snd (ws_tasks w ! k)
     then let job = fst (ws_tasks w ! k) in
       Some (w\<lparr>ws_tasks := (ws_tasks w)[k := (job, True)], ws_inflight := (ws_inflight w)(qj_entry_id job \<mapsto> qj_job_id job)\<rparr>)
     else None)"
| "worker_step (Leave k) w = (if k < length (ws_tasks w) \<and> snd (ws_tasks w ! k)
     then Some (w\<lparr>ws_tasks := remove_at k (ws_tasks w),
       ws_inflight := (ws_inflight w)(qj_entry_id (fst (ws_tasks w ! k)) := None), ws_permits := ws_permits w + 1\<rparr>)
     else None)"
| "worker_step Stop w = (if ws_stopping w then None else Some (w\<lparr>ws_stopping := True\<rparr>))"
| "worker_step Drained w = (if ws_main w = Draining \<and> ws_tasks w = [] then Some (w\<lparr>ws_main := Over\<rparr>) else None)"

section \<open>Housekeeping\<close>

definition heartbeat_round :: "(sid list \<Rightarrow> ('w, unit) prog) \<Rightarrow> sid list \<Rightarrow> ('w, unit) prog" where
  \<comment> \<open>the first argument is \<open>XCLAIM\<close> for the worker itself\<close>
  "heartbeat_round xclaim entry_ids = (if entry_ids = [] then retE ()
     else catchE (xclaim entry_ids) (\<lambda>e. retE ()))"

definition heartbeat_interval :: "settings \<Rightarrow> rat" where
  "heartbeat_interval S = max (of_int (visibility_timeout_s S) / 3) 5"

definition reclaim_interval :: "settings \<Rightarrow> rat" where
  "reclaim_interval S = max (of_int (visibility_timeout_s S) / 2) 10"

definition reclaim_round :: "'w redis \<Rightarrow> settings \<Rightarrow> ('w, queued_job list) prog" where
  "reclaim_round R S = catchE (reclaim R S 10) (\<lambda>e. retE [])"

definition metrics_round :: "'w redis \<Rightarrow> settings \<Rightarrow> (int \<Rightarrow> int \<Rightarrow> int \<Rightarrow> ('w, unit) prog) \<Rightarrow> ('w, unit) prog" where
  "metrics_round R S gauges = catchE (bindE (stats R S) (\<lambda>(depth, pending, dead). gauges depth pending dead)) (\<lambda>e. retE ())"

definition retention_round :: "'w files \<Rightarrow> settings \<Rightarrow> ('w, sweep_result option) prog" where
  "retention_round F S = catchE (bindE (sweep F S None) (\<lambda>r. retE (Some r))) (\<lambda>e. retE None)"

definition retention_interval :: "settings \<Rightarrow> rat option" where
  \<comment> \<open>\<open>None\<close>: the loop is not run\<close>
  "retention_interval S = (let interval = retention_sweep_hours S * 3600 in if interval \<le> 0 then None else Some interval)"

section \<open>Invariant\<close>

definition holds_permit :: "main_loop \<Rightarrow> nat" where
  "holds_permit m = (if m = Holding \<or> m = Reserving then 1 else 0)"

definition beats_running :: "worker_state \<Rightarrow> bool" where
  \<comment> \<open>the entries a heartbeat renews are those of running jobs\<close>
  "beats_running w \<longleftrightarrow> (\<forall>i\<in>dom (ws_inflight w). \<exists>job. (job, True) \<in> set (ws_tasks w) \<and> qj_entry_id job = i)"

lemma beats_running_simps [simp]:
  "beats_running (w\<lparr>ws_main := m\<rparr>) = beats_running w" "beats_running (w\<lparr>ws_permits := n\<rparr>) = beats_running w"
  "beats_running (w\<lparr>ws_stopping := b\<rparr>) = beats_running w" "beats_running (w\<lparr>ws_reclaim := r\<rparr>) = beats_running w"
  "beats_running (w\<lparr>ws_raised := x\<rparr>) = beats_running w"
  by (simp_all add: beats_running_def)

lemma beats_running_start:
  "beats_running w \<Longrightarrow> ws_tasks w' = ws_tasks w @ [(job, False)] \<Longrightarrow> ws_inflight w' = ws_inflight w \<Longrightarrow> beats_running w'"
  by (simp add: beats_running_def)

definition worker_ok :: "settings \<Rightarrow> worker_act list \<Rightarrow> worker_state \<Rightarrow> bool" where
  "worker_ok S acts w \<longleftrightarrow>
     ws_permits w + length (ws_tasks w) + holds_permit (ws_main w) + (case ws_raised w of None \<Rightarrow> 0 | Some e \<Rightarrow> 1) =
       worker_concurrency S \<and>
     beats_running w \<and>
     (ws_main w \<in> {Draining, Over} \<longrightarrow> ws_reclaim w = Off) \<and> (ws_main w = Over \<longrightarrow> ws_tasks w = []) \<and>
     (ws_raised w \<noteq> None \<longrightarrow> ws_main w \<in> {Draining, Over})"

lemma length_remove_at [simp]: "k < length xs \<Longrightarrow> length (remove_at k xs) = length xs - 1"
  by (simp add: remove_at_def)

lemma set_remove_at: "k < length xs \<Longrightarrow> insert (xs ! k) (set (remove_at k xs)) = set xs"
proof -
  assume "k < length xs"
  then have "xs = take k xs @ xs ! k # drop (Suc k) xs" by (rule id_take_nth_drop)
  then have "set xs = set (take k xs @ xs ! k # drop (Suc k) xs)" by simp
  then show ?thesis by (simp add: remove_at_def Un_commute)
qed

lemma worker_ok_inflight:
  "worker_ok S acts w \<Longrightarrow> i \<in> dom (ws_inflight w) \<Longrightarrow> \<exists>job. (job, True) \<in> set (ws_tasks w) \<and> qj_entry_id job = i"
  by (simp add: worker_ok_def beats_running_def)

lemmas loop_simps = worker_ok_def leave_loop_def start_task_def holds_permit_def

lemmas loop_splits = if_splits option.splits list.splits reclaim_loop.splits

lemma worker_ok_step:
  assumes ok: "worker_ok S acts w" and st: "worker_step a w = Some w'"
  shows "worker_ok S acts' w'"
proof (cases a)
  case (Enter k)
  then have k: "k < length (ws_tasks w)" "\<not> snd (ws_tasks w ! k)" using st by (auto split: if_splits)
  let ?job = "fst (ws_tasks w ! k)"
  have w': "w' = w\<lparr>ws_tasks := (ws_tasks w)[k := (?job, True)], ws_inflight := (ws_inflight w)(qj_entry_id ?job \<mapsto> qj_job_id ?job)\<rparr>"
    using st Enter k by (simp add: Let_def)
  have "\<exists>job. (job, True) \<in> set ((ws_tasks w)[k := (?job, True)]) \<and> qj_entry_id job = i"
    if i: "i \<in> insert (qj_entry_id ?job) (dom (ws_inflight w))" for i
  proof (cases "i = qj_entry_id ?job")
    case True
    then show ?thesis using k(1) by (metis set_update_memI)
  next
    case False
    then obtain job where "(job, True) \<in> set (ws_tasks w)" "qj_entry_id job = i"
      using i worker_ok_inflight [OF ok] by blast
    moreover obtain j where "j < length (ws_tasks w)" "ws_tasks w ! j = (job, True)"
      using calculation(1) by (metis in_set_conv_nth)
    ultimately show ?thesis using k by (metis length_list_update nth_list_update_neq nth_mem snd_conv)
  qed
  then have "beats_running w'" by (simp add: w' beats_running_def)
  then show ?thesis using ok k(1) unfolding worker_ok_def by (simp add: w')
next
  case (Leave k)
  then have k: "k < length (ws_tasks w)" "snd (ws_tasks w ! k)"
    and w': "w' = w\<lparr>ws_tasks := remove_at k (ws_tasks w),
       ws_inflight := (ws_inflight w)(qj_entry_id (fst (ws_tasks w ! k)) := None), ws_permits := ws_permits w + 1\<rparr>"
    using st by (auto split: if_splits)
  have "\<exists>job. (job, True) \<in> set (remove_at k (ws_tasks w)) \<and> qj_entry_id job = i"
    if i: "i \<in> dom (ws_inflight w) - {qj_entry_id (fst (ws_tasks w ! k))}" for i
  proof -
    obtain job where job: "(job, True) \<in> set (ws_tasks w)" "qj_entry_id job = i" using i worker_ok_inflight [OF ok] by blast
    then have "(job, True) \<noteq> ws_tasks w ! k" using i by (metis DiffE fst_conv singletonI)
    then show ?thesis using job set_remove_at [OF k(1)] by blast
  qed
  then have "beats_running w'" by (simp add: w' beats_running_def)
  then show ?thesis using ok k(1) unfolding worker_ok_def by (auto simp: w')
next
  case Loop
  then show ?thesis
    using assms by (auto simp: loop_simps split: loop_splits intro: beats_running_start [of w])
next
  case Acquire
  then show ?thesis
    using assms by (auto simp: loop_simps split: loop_splits intro: beats_running_start [of w])
next
  case Recheck
  then show ?thesis
    using assms by (auto simp: loop_simps split: loop_splits intro: beats_running_start [of w])
next
  case (Reserved j)
  then show ?thesis
    using assms by (auto simp: loop_simps split: loop_splits intro: beats_running_start [of w])
next
  case (Reserve_raises e)
  then show ?thesis
    using assms by (auto simp: loop_simps split: loop_splits intro: beats_running_start [of w])
next
  case (Wake js)
  then show ?thesis
    using assms by (auto simp: loop_simps split: loop_splits intro: beats_running_start [of w])
next
  case Hand
  then show ?thesis
    using assms by (auto simp: loop_simps split: loop_splits intro: beats_running_start [of w])
next
  case Rest
  then show ?thesis
    using assms by (auto simp: loop_simps split: loop_splits intro: beats_running_start [of w])
next
  case Stop
  then have "w' = w\<lparr>ws_stopping := True\<rparr>" using st by (simp split: if_splits)
  then show ?thesis using ok by (simp add: worker_ok_def)
next
  case Drained
  then show ?thesis
    using assms by (auto simp: loop_simps split: loop_splits intro: beats_running_start [of w])
qed

interpretation worker_slots: invariant worker_step "new_worker S" "worker_ok S" for S
proof unfold_locales
  show "worker_ok S [] (new_worker S)" by (simp add: worker_ok_def new_worker_def holds_permit_def beats_running_def)
qed (rule worker_ok_step)

section \<open>Shutdown\<close>

fun main_rank :: "main_loop \<Rightarrow> nat" where
  "main_rank Reserving = 13"
| "main_rank Acquiring = 11"
| "main_rank Holding = 10"
| "main_rank Top = 9"
| "main_rank Draining = 1"
| "main_rank Over = 0"

fun reclaim_rank :: "reclaim_loop \<Rightarrow> nat" where
  "reclaim_rank (Handing js) = 3 * length js + 2"
| "reclaim_rank Sleeping = 1"
| "reclaim_rank Off = 0"

definition task_rank :: "queued_job \<times> bool \<Rightarrow> nat" where
  "task_rank t = (if snd t then 1 else 2)"

definition worker_work :: "worker_state \<Rightarrow> nat" where
  "worker_work w = main_rank (ws_main w) + reclaim_rank (ws_reclaim w) + sum_list (map task_rank (ws_tasks w))"

lemma rank_remove_at: "k < length xs \<Longrightarrow> sum_list (map f (remove_at k xs)) + f (xs ! k) = (sum_list (map f xs) :: nat)"
proof -
  assume "k < length xs"
  then have "xs = take k xs @ xs ! k # drop (Suc k) xs" by (rule id_take_nth_drop)
  then have "sum_list (map f xs) = sum_list (map f (take k xs @ xs ! k # drop (Suc k) xs))" by simp
  then show ?thesis by (simp add: remove_at_def)
qed

lemma rank_enter:
  assumes "k < length xs" "\<not> snd (xs ! k)"
  shows "sum_list (map task_rank (xs[k := (job, True)])) < sum_list (map task_rank xs)"
proof -
  have "task_rank (xs ! k) \<le> sum_list (map task_rank xs)" using assms(1) by (intro member_le_sum_list) simp_all
  then show ?thesis using assms by (simp add: map_update sum_list_update task_rank_def)
qed

definition shutting_down :: "settings \<Rightarrow> worker_state \<Rightarrow> bool" where
  "shutting_down S w \<longleftrightarrow> ws_stopping w \<and> worker_ok S [] w \<and> 0 < worker_concurrency S"

lemma worker_work_less:
  assumes "ws_stopping w" "worker_step a w = Some w'" shows "worker_work w' < worker_work w"
proof (cases a)
  case (Enter k)
  then show ?thesis using assms rank_enter [of k "ws_tasks w"] by (auto simp: worker_work_def Let_def split: if_splits)
next
  case (Leave k)
  then have k: "k < length (ws_tasks w)" "snd (ws_tasks w ! k)" using assms by (auto split: if_splits)
  then show ?thesis using Leave assms rank_remove_at [OF k(1), of task_rank] by (auto simp: worker_work_def task_rank_def)
qed (use assms in \<open>auto simp: worker_work_def leave_loop_def start_task_def task_rank_def
    split: if_splits option.splits list.splits reclaim_loop.splits\<close>)

lemma stopping_stays: "worker_step a w = Some w' \<Longrightarrow> ws_stopping w \<Longrightarrow> ws_stopping w'"
  by (cases a) (auto simp: leave_loop_def start_task_def Let_def split: if_splits option.splits list.splits reclaim_loop.splits)

lemma task_can_go_on: "ws_tasks w \<noteq> [] \<Longrightarrow> \<exists>a w'. worker_step a w = Some w'"
proof (cases "snd (ws_tasks w ! 0)")
  case True
  moreover assume "ws_tasks w \<noteq> []"
  ultimately show ?thesis by (intro exI [of _ "Leave 0"]) simp
next
  case False
  moreover assume "ws_tasks w \<noteq> []"
  ultimately show ?thesis by (intro exI [of _ "Enter 0"]) (simp add: Let_def)
qed

interpretation worker_drain: draining worker_step "shutting_down S" "\<lambda>w. ws_main w = Over" worker_work for S
proof unfold_locales
  fix w a w' assume "shutting_down S w" "worker_step a w = Some w'"
  then show "worker_work w' < worker_work w" "shutting_down S w'"
    using worker_work_less stopping_stays worker_ok_step unfolding shutting_down_def by blast+
next
  fix w assume ok: "shutting_down S w" and more: "ws_main w \<noteq> Over"
  show "\<exists>a w'. worker_step a w = Some w'"
  proof (cases "ws_main w")
    case Top
    then show ?thesis by (intro exI [of _ Loop]) simp
  next
    case Acquiring
    show ?thesis
    proof (cases "ws_tasks w = []")
      case True
      then have "0 < ws_permits w"
        using ok Acquiring by (auto simp: shutting_down_def worker_ok_def holds_permit_def split: option.splits)
      then show ?thesis using Acquiring by (intro exI [of _ Acquire]) simp
    qed (rule task_can_go_on)
  next
    case Holding
    then show ?thesis by (intro exI [of _ Recheck]) simp
  next
    case Reserving
    then show ?thesis by (intro exI [of _ "Reserved None"]) simp
  next
    case Draining
    then show ?thesis using task_can_go_on [of w] by (cases "ws_tasks w = []") (auto intro: exI [of _ Drained])
  qed (use more in simp)
qed

fun reserves :: "worker_act \<Rightarrow> nat" where
  "reserves (Reserved (Some job)) = 1"
| "reserves _ = 0"

definition reservations :: "worker_act list \<Rightarrow> nat" where
  "reservations acts = sum_list (map reserves acts)"

definition reserving :: "worker_state \<Rightarrow> nat" where
  "reserving w = (if ws_main w = Reserving then 1 else 0)"

lemma reservations_after_stop:
  assumes "runs worker_step w acts w'" and "ws_stopping w"
  shows "ws_stopping w' \<and> reservations acts + reserving w' \<le> reserving w"
  using assms
proof (induction rule: runs.induct)
  case (step acts w1 a w2)
  then have "ws_stopping w1" "ws_stopping w2" using stopping_stays by blast+
  moreover have "reserves a + reserving w2 \<le> reserving w1"
    using step.hyps(2) \<open>ws_stopping w1\<close>
    by (cases a) (auto simp: reserving_def leave_loop_def start_task_def Let_def
        split: if_splits option.splits list.splits reclaim_loop.splits)
  ultimately show ?case using step.IH step.prems by (simp add: reservations_def)
qed (simp add: reservations_def)

section \<open>Properties\<close>



text \<open>
  The loops survive what they call. Whatever \<open>XCLAIM\<close>, the queue, the gauges and the file system do, a round of
  the heartbeat, reclaim, metrics and retention loops returns; the main loop has no such guard.
\<close>

theorem housekeeping_returns:
  "returns (heartbeat_round xclaim ids) \<and> returns (reclaim_round R S) \<and> returns (metrics_round R S gauges) \<and>
   returns (retention_round F S) \<and>
   (\<exists>w'. worker_step (Reserve_raises e) (w\<lparr>ws_main := Reserving\<rparr>) = Some w' \<and> ws_main w' = Draining)"
  unfolding heartbeat_round_def reclaim_round_def metrics_round_def retention_round_def
  by (intro conjI returns_if returns_catchE returns_retE) (simp add: leave_loop_def)

text \<open>
  Reclaimed jobs wait without a heartbeat. The reclaim loop takes over up to ten jobs and then waits for a
  slot for each; while it waits the job belongs to this worker and is not in \<open>_inflight\<close>, so its idle time runs on
  and a peer may take it over as well.
\<close>

theorem reclaimed_jobs_wait_without_heartbeat:
  assumes "worker_concurrency S = 1" and "qj_entry_id job \<noteq> qj_entry_id other"
  shows "\<exists>w. runs worker_step (new_worker S) [Loop, Acquire, Recheck, Reserved (Some job), Enter 0, Wake [other]] w \<and>
    ws_reclaim w = Handing [other] \<and> qj_entry_id other \<notin> dom (ws_inflight w) \<and> worker_step Hand w = None"
  using assms by (simp add: runs_iff_exec new_worker_def start_task_def Let_def)

lemma sample_worker:
  "\<exists>w. runs worker_step (new_worker default_settings) [Loop, Acquire, Recheck, Reserved (Some \<lparr>qj_entry_id = (1, 0), qj_job_id = [],
      qj_deliveries = 1, qj_fields = []\<rparr>), Enter 0, Stop] w \<and> ws_stopping w \<and> ws_raised w = None"
  by (simp add: runs_iff_exec new_worker_def start_task_def Let_def default_settings_def)



lemma reclaimed_jobs_wait_without_heartbeat_witness:
  "\<exists>w. runs worker_step (new_worker (default_settings\<lparr>worker_concurrency := 1\<rparr>))
     [Loop, Acquire, Recheck, Reserved (Some \<lparr>qj_entry_id = (1, 0), qj_job_id = [], qj_deliveries = 1, qj_fields = []\<rparr>), Enter 0,
      Wake [\<lparr>qj_entry_id = (2, 0), qj_job_id = [], qj_deliveries = 2, qj_fields = []\<rparr>]] w \<and>
     (2, 0) \<notin> dom (ws_inflight w)"
  using reclaimed_jobs_wait_without_heartbeat [of "default_settings\<lparr>worker_concurrency := 1\<rparr>"
      "\<lparr>qj_entry_id = (1, 0), qj_job_id = [], qj_deliveries = 1, qj_fields = []\<rparr>"
      "\<lparr>qj_entry_id = (2, 0), qj_job_id = [], qj_deliveries = 2, qj_fields = []\<rparr>"] by auto

end
