(* ===== verification/Preprocess.thy ===== *)
theory Preprocess
  imports Layout Documents Py_Json
begin

text \<open>
  \<open>workers/preprocess.py\<close>: decoding, the budget of pixels, deskewing, the filters, the blank test and the
  perceptual hash. The functions of OpenCV, \<open>hashlib\<close> and the pixel formats of PNG are the record \<open>cv\<close>;
  the interface \<open>image_library\<close> states what is documented of the sizes of their results. Arithmetic
  on pixels and sizes that the source does itself is written out, floats being exact. An image is
  a list of rows.
\<close>

type_synonym gray = "byte list list"
type_synonym pixel = "byte \<times> byte \<times> byte"
type_synonym matrix = "(rat \<times> rat \<times> rat) \<times> (rat \<times> rat \<times> rat)"

datatype image =
    Gray gray                      \<comment> \<open>two dimensions\<close>
  | Bgr "pixel list list"          \<comment> \<open>three\<close>

fun columns :: "'a list list \<Rightarrow> nat" where
  "columns [] = 0"
| "columns (r # rs) = length r"

fun image_shape :: "image \<Rightarrow> int \<times> int" where
  "image_shape (Gray g) = (int (length g), int (columns g))"
| "image_shape (Bgr b) = (int (length b), int (columns b))"

record 'c cv =
  imdecode :: "byte list \<Rightarrow> exn + image option"        \<comment> \<open>\<open>IMREAD_COLOR\<close>\<close>
  imencode :: "image \<Rightarrow> exn + byte list option"        \<comment> \<open>\<open>.png\<close>\<close>
  bgr_gray :: "pixel list list \<Rightarrow> exn + gray"          \<comment> \<open>\<open>cvtColor\<close>\<close>
  resize_gray :: "gray \<Rightarrow> int \<times> int \<Rightarrow> exn + gray"     \<comment> \<open>\<open>resize\<close>, \<open>INTER_AREA\<close>; width and height\<close>
  resize_bgr :: "pixel list list \<Rightarrow> int \<times> int \<Rightarrow> exn + pixel list list"
  otsu_inverted :: "gray \<Rightarrow> exn + gray"
  close_rect :: "int \<times> int \<Rightarrow> nat \<Rightarrow> gray \<Rightarrow> exn + gray" \<comment> \<open>\<open>MORPH_CLOSE\<close> with a rectangle; iterations\<close>
  find_contours :: "gray \<Rightarrow> exn + 'c list"
  contour_area :: "'c \<Rightarrow> rat"
  min_area_rect :: "'c \<Rightarrow> (rat \<times> rat) \<times> rat"          \<comment> \<open>size and angle\<close>
  rotation_matrix :: "rat \<times> rat \<Rightarrow> rat \<Rightarrow> matrix"      \<comment> \<open>scale 1\<close>
  warp_affine :: "image \<Rightarrow> matrix \<Rightarrow> int \<times> int \<Rightarrow> exn + image"
  bgr_lab :: "image \<Rightarrow> exn + pixel list list"
  lab_bgr :: "pixel list list \<Rightarrow> exn + pixel list list"
  apply_clahe :: "rat \<Rightarrow> int \<times> int \<Rightarrow> gray \<Rightarrow> exn + gray"
  nl_means :: "image \<Rightarrow> exn + image"
  median_blur :: "gray \<Rightarrow> int \<Rightarrow> exn + gray"
  sha1_hex :: "byte list \<Rightarrow> pystr"

declare bindX_Inr_iff [simp]

section \<open>Pixels\<close>

definition to_bgr :: "'c cv \<Rightarrow> byte list \<Rightarrow> exn + image" where
  "to_bgr cv png = bindX (imdecode cv png) (\<lambda>img. case img of
     None \<Rightarrow> Inl (ValueError (lit ''undecodable image'')) | Some i \<Rightarrow> Inr i)"

definition to_png :: "'c cv \<Rightarrow> image \<Rightarrow> exn + byte list" where
  "to_png cv img = bindX (imencode cv img) (\<lambda>buf. case buf of
     None \<Rightarrow> Inl (ValueError (lit ''png encode failed'')) | Some b \<Rightarrow> Inr b)"

fun to_gray :: "'c cv \<Rightarrow> image \<Rightarrow> exn + gray" where
  "to_gray cv (Gray g) = Inr g"
| "to_gray cv (Bgr b) = bgr_gray cv b"

definition levels :: "gray \<Rightarrow> rat list" where
  "levels g = map (\<lambda>p. of_nat (unat p)) (concat g)"

definition mean :: "rat list \<Rightarrow> rat" where
  "mean xs = sum_list xs / of_nat (length xs)"

definition variance :: "rat list \<Rightarrow> rat" where
  "variance xs = mean (map (\<lambda>x. (x - mean xs)\<^sup>2) xs)"

definition is_blank :: "'c cv \<Rightarrow> image \<Rightarrow> rat \<Rightarrow> exn + bool" where
  \<comment> \<open>the standard deviation, compared by its square; that of no pixels is \<open>nan\<close>\<close>
  "is_blank cv img std_threshold = bindX (to_gray cv img) (\<lambda>g.
     Inr (levels g \<noteq> [] \<and> 0 < std_threshold \<and> variance (levels g) < std_threshold\<^sup>2))"

definition above_mean :: "gray \<Rightarrow> byte list" where
  "above_mean g = map (\<lambda>x. if x > mean (levels g) then 255 else 0) (levels g)"

definition page_hash :: "'c cv \<Rightarrow> image \<Rightarrow> exn + pystr" where
  "page_hash cv img = bindX (to_gray cv img) (\<lambda>g.
     bindX (resize_gray cv g (64, 64)) (\<lambda>thumb. Inr (sha1_hex cv (above_mean thumb))))"

definition is_scanned :: "'c cv \<Rightarrow> image \<Rightarrow> exn + bool" where
  "is_scanned cv img = bindX (to_gray cv img) (\<lambda>g. bindX (median_blur cv g 3) (\<lambda>b.
     Inr (mean (map2 (\<lambda>x y. \<bar>x - y\<bar>) (levels g) (levels b)) > 3/2)))"

section \<open>Geometry\<close>

primrec scaled_side :: "int \<Rightarrow> int \<Rightarrow> int \<Rightarrow> nat \<Rightarrow> int" where
  \<comment> \<open>\<open>int(a * (m / (a * b)) ** 0.5)\<close>: the greatest integer, at most the last argument, whose square times \<open>b\<close> is at most \<open>a * m\<close>\<close>
  "scaled_side m a b 0 = 0"
| "scaled_side m a b (Suc n) = (if (int (Suc n))\<^sup>2 * b \<le> a * m then int (Suc n) else scaled_side m a b n)"

fun resize :: "'c cv \<Rightarrow> image \<Rightarrow> int \<times> int \<Rightarrow> exn + image" where
  "resize cv (Gray g) sz = bindX (resize_gray cv g sz) (\<lambda>g'. Inr (Gray g'))"
| "resize cv (Bgr b) sz = bindX (resize_bgr cv b sz) (\<lambda>b'. Inr (Bgr b'))"

definition downscale_to_budget :: "'c cv \<Rightarrow> image \<Rightarrow> int \<Rightarrow> exn + image" where
  "downscale_to_budget cv img max_px = (case image_shape img of (h, w) \<Rightarrow>
     if max_px \<le> 0 \<or> h * w \<le> max_px then Inr img
     else resize cv img (max (scaled_side max_px w h (nat w)) 1, max (scaled_side max_px h w (nat h)) 1))"

definition line_angle :: "'c cv \<Rightarrow> rat \<Rightarrow> 'c \<Rightarrow> rat option" where
  "line_angle cv max_angle contour = (if contour_area cv contour < 300 then None
     else case min_area_rect cv contour of ((bw, bh), angle) \<Rightarrow>
       if min bw bh < 5 \<or> max bw bh < 40 then None
       else let angle = (if bw < bh then angle + 90 else angle)
         in if \<bar>angle\<bar> \<le> max_angle then Some angle else None)"

definition median :: "rat list \<Rightarrow> rat" where
  "median xs = (let ys = sort xs; n = length ys in
     if odd n then ys ! (n div 2) else (ys ! (n div 2 - 1) + ys ! (n div 2)) / 2)"

definition shrunk :: "'c cv \<Rightarrow> gray \<Rightarrow> exn + gray" where
  "shrunk cv g = (case image_shape (Gray g) of (h, w) \<Rightarrow>
     if max h w = 0 then Inl (OtherError (lit ''ZeroDivisionError'') (lit ''float division by zero''))
     else if max h w > 1000 then resize_gray cv g (w * 1000 div max h w, h * 1000 div max h w) else Inr g)"

definition text_lines :: "'c cv \<Rightarrow> image \<Rightarrow> exn + 'c list" where
  "text_lines cv img = bindX (to_gray cv img) (\<lambda>g. bindX (shrunk cv g) (\<lambda>g.
     bindX (otsu_inverted cv g) (\<lambda>binary. bindX (close_rect cv (25, 3) 2 binary) (find_contours cv))))"

definition estimate_skew :: "'c cv \<Rightarrow> image \<Rightarrow> rat \<Rightarrow> exn + rat" where
  "estimate_skew cv img max_angle = bindX (text_lines cv img) (\<lambda>contours.
     let angles = List.map_filter (line_angle cv max_angle) contours
     in Inr (if length angles < 3 then 0 else median angles))"

definition turned :: "'c cv \<Rightarrow> int \<times> int \<Rightarrow> rat \<Rightarrow> matrix \<times> (int \<times> int)" where
  "turned cv hw angle_deg = (case hw of (h, w) \<Rightarrow>
     case rotation_matrix cv (of_int w / 2, of_int h / 2) angle_deg of ((a, b, tx), (c, d, ty)) \<Rightarrow>
       let new_w = trunc (of_int h * \<bar>b\<bar> + of_int w * \<bar>a\<bar>); new_h = trunc (of_int h * \<bar>a\<bar> + of_int w * \<bar>b\<bar>)
       in (((a, b, tx + of_int (new_w - w) / 2), (c, d, ty + of_int (new_h - h) / 2)), (new_w, new_h)))"

definition rotate_page :: "'c cv \<Rightarrow> image \<Rightarrow> rat \<Rightarrow> exn + image" where
  \<comment> \<open>\<open>rotate\<close>\<close>
  "rotate_page cv img angle_deg = (case turned cv (image_shape img) angle_deg of (m, sz) \<Rightarrow> warp_affine cv img m sz)"

definition deskew :: "'c cv \<Rightarrow> image \<Rightarrow> rat \<Rightarrow> rat \<Rightarrow> exn + (image \<times> rat)" where
  "deskew cv img max_angle min_angle = bindX (estimate_skew cv img max_angle) (\<lambda>angle.
     if \<bar>angle\<bar> < min_angle then Inr (img, 0) else bindX (rotate_page cv img angle) (\<lambda>i. Inr (i, angle)))"

section \<open>Filters\<close>

definition clahe :: "'c cv \<Rightarrow> image \<Rightarrow> rat \<Rightarrow> exn + image" where
  \<comment> \<open>on the first channel of the Lab image; the others stay\<close>
  "clahe cv img clip_limit = bindX (bgr_lab cv img) (\<lambda>lab.
     bindX (apply_clahe cv clip_limit (8, 8) (map (map fst) lab)) (\<lambda>l_chan.
       bindX (lab_bgr cv (map2 zip l_chan (map (map snd) lab))) (\<lambda>b. Inr (Bgr b))))"

definition prepare :: "'c cv \<Rightarrow> image \<Rightarrow> int \<Rightarrow> bool \<Rightarrow> rat \<Rightarrow> bool \<Rightarrow> bool \<Rightarrow> exn + (image \<times> rat)" where
  "prepare cv img max_px want_deskew max_angle want_clahe want_denoise =
     bindX (downscale_to_budget cv img max_px) (\<lambda>img.
     bindX (if want_deskew then deskew cv img max_angle (3/10) else Inr (img, 0)) (\<lambda>(img, skew).
     bindX (if want_denoise then nl_means cv img else Inr img) (\<lambda>img.
     bindX (if want_clahe then clahe cv img 2 else Inr img) (\<lambda>img. Inr (img, skew)))))"

end
