(* ===== verification/Image_Facts.thy ===== *)
theory Image_Facts
  imports Preprocess
begin

text \<open>
  What preprocessing does to a page: the interface \<open>image_library\<close> of OpenCV, its interpretation on \<open>plain_cv\<close>,
  and the facts of sizes, angles and hashes.
\<close>

section \<open>Numbers\<close>

lemma scaled_side_bounds: "0 \<le> scaled_side m a b n" "scaled_side m a b n \<le> int n"
  by (induction n) auto

lemma scaled_side_fits: "0 \<le> a * m \<Longrightarrow> (scaled_side m a b n)\<^sup>2 * b \<le> a * m"
  by (induction n) simp_all

lemma scaled_side_greatest: "scaled_side m a b n < k \<Longrightarrow> k \<le> int n \<Longrightarrow> a * m < k\<^sup>2 * b"
proof (induction n)
  case (Suc n)
  show ?case
  proof (cases "k = int (Suc n)")
    case True
    then show ?thesis using Suc.prems(1) by (auto split: if_splits)
  next
    case False
    then have "k \<le> int n" using Suc.prems(2) by linarith
    moreover have "\<not> (int (Suc n))\<^sup>2 * b \<le> a * m" using Suc.prems by (auto split: if_splits)
    ultimately show ?thesis using Suc by simp
  qed
qed simp

lemma few_above:
  assumes "sorted ys" "k < length ys" "ys ! k < a"
  shows "length (filter (\<lambda>x. a \<le> x \<and> x \<le> b) ys) + Suc k \<le> length ys"
proof -
  have "x < a" if x: "x \<in> set (take (Suc k) ys)" for x
  proof -
    obtain i where "i < Suc k" "i < length ys" "x = ys ! i" using x by (auto simp: in_set_conv_nth)
    then have "x \<le> ys ! k" using assms(1,2) by (simp add: sorted_nth_mono)
    then show ?thesis using assms(3) by simp
  qed
  then have "filter (\<lambda>x. a \<le> x \<and> x \<le> b) (take (Suc k) ys) = []" by (auto simp: filter_empty_conv not_le)
  then have "filter (\<lambda>x. a \<le> x \<and> x \<le> b) ys = filter (\<lambda>x. a \<le> x \<and> x \<le> b) (drop (Suc k) ys)"
    by (metis append_Nil append_take_drop_id filter_append)
  then have "length (filter (\<lambda>x. a \<le> x \<and> x \<le> b) ys) \<le> length ys - Suc k" by (metis length_drop length_filter_le)
  then show ?thesis using assms(2) by simp
qed

lemma few_below:
  assumes "sorted ys" "k < length ys" "b < ys ! k"
  shows "length (filter (\<lambda>x. a \<le> x \<and> x \<le> b) ys) \<le> k"
proof -
  have "b < x" if x: "x \<in> set (drop k ys)" for x
  proof -
    obtain i where "i < length ys - k" "x = ys ! (k + i)" using x by (auto simp: in_set_conv_nth)
    then have "ys ! k \<le> x" using assms(1) by (simp add: sorted_nth_mono)
    then show ?thesis using assms(3) by simp
  qed
  then have "filter (\<lambda>x. a \<le> x \<and> x \<le> b) (drop k ys) = []" by (auto simp: filter_empty_conv not_le)
  then have "filter (\<lambda>x. a \<le> x \<and> x \<le> b) ys = filter (\<lambda>x. a \<le> x \<and> x \<le> b) (take k ys)"
    by (metis append_Nil2 append_take_drop_id filter_append)
  then show ?thesis by (metis length_filter_le length_take min.bounded_iff)
qed

text \<open>The median lies where the majority lies.\<close>

lemma median_majority:
  assumes "length xs < 2 * length (filter (\<lambda>x. a \<le> x \<and> x \<le> b) xs)"
  shows "a \<le> median xs \<and> median xs \<le> b"
proof -
  define ys where "ys = sort xs"
  have n: "length ys < 2 * length (filter (\<lambda>x. a \<le> x \<and> x \<le> b) ys)"
    using assms by (simp add: ys_def filter_sort)
  have s: "sorted ys" by (simp add: ys_def)
  define F where "F = length (filter (\<lambda>x. a \<le> x \<and> x \<le> b) ys)"
  have inside: "a \<le> ys ! k \<and> ys ! k \<le> b" if k: "k < length ys" "2 * k \<le> length ys" "length ys \<le> 2 * Suc k" for k
  proof (intro conjI)
    show "a \<le> ys ! k"
    proof (rule ccontr)
      assume "\<not> a \<le> ys ! k"
      then have "F + Suc k \<le> length ys" unfolding F_def by (intro few_above [OF s k(1)]) simp
      with n [folded F_def] k(2,3) show False by presburger
    qed
    show "ys ! k \<le> b"
    proof (rule ccontr)
      assume "\<not> ys ! k \<le> b"
      then have "F \<le> k" unfolding F_def by (intro few_below [OF s k(1)]) simp
      with n [folded F_def] k(2,3) show False by presburger
    qed
  qed
  have pos: "0 < length ys" using n by (cases ys) simp_all
  show ?thesis
  proof (cases "odd (length ys)")
    case True
    then have "a \<le> ys ! (length ys div 2) \<and> ys ! (length ys div 2) \<le> b"
      by (intro inside) (auto elim: oddE)
    then show ?thesis using True by (simp add: median_def ys_def Let_def)
  next
    case False
    then obtain m where m: "length ys = 2 * m" "0 < m" using pos by (auto elim: evenE)
    then have "a \<le> ys ! m \<and> ys ! m \<le> b" "a \<le> ys ! (m - 1) \<and> ys ! (m - 1) \<le> b"
      by (intro inside; simp)+
    then show ?thesis using False m by (simp add: median_def ys_def Let_def)
  qed
qed

section \<open>The library\<close>

locale image_library =
  fixes cv :: "'c cv"
  assumes resize_gray_shape: "resize_gray cv g (w, h) = Inr g' \<Longrightarrow> image_shape (Gray g') = (h, w)"
    and resize_bgr_shape: "resize_bgr cv b (w, h) = Inr b' \<Longrightarrow> image_shape (Bgr b') = (h, w)"
    and resize_to_nothing: "w \<le> 0 \<or> h \<le> 0 \<Longrightarrow> \<exists>e. resize_gray cv g (w, h) = Inl e"
    and warp_shape: "warp_affine cv img m (w, h) = Inr img' \<Longrightarrow> image_shape img' = (h, w)"
    and denoise_shape: "nl_means cv img = Inr img' \<Longrightarrow> image_shape img' = image_shape img"
    and lab_shape: "bgr_lab cv img = Inr lab \<Longrightarrow> image_shape (Bgr lab) = image_shape img"
    and clahe_shape: "apply_clahe cv c t g = Inr g' \<Longrightarrow> image_shape (Gray g') = image_shape (Gray g)"
    and bgr_shape: "lab_bgr cv lab = Inr b \<Longrightarrow> image_shape (Bgr b) = image_shape (Bgr lab)"
    and rotation_about: "\<exists>a b. rotation_matrix cv (cx, cy) angle =
       ((a, b, (1 - a) * cx - b * cy), (- b, a, b * cx + (1 - a) * cy))"
begin

lemma resize_shape: "resize cv img (w, h) = Inr img' \<Longrightarrow> image_shape img' = (h, w)"
  using resize_gray_shape resize_bgr_shape by (cases img) (auto simp del: image_shape.simps)

lemma shape_map2_zip:
  "image_shape (Gray g) = image_shape (Bgr lab) \<Longrightarrow> image_shape (Bgr (map2 zip g (map (map snd) lab))) = image_shape (Bgr lab)"
  by (cases g; cases lab) auto

lemma shape_fst: "image_shape (Gray (map (map fst) lab)) = image_shape (Bgr lab)"
  by (cases lab) simp_all

lemma clahe_keeps_shape: "clahe cv img c = Inr img' \<Longrightarrow> image_shape img' = image_shape img"
proof -
  assume "clahe cv img c = Inr img'"
  then obtain lab l b where "bgr_lab cv img = Inr lab" "apply_clahe cv c (8, 8) (map (map fst) lab) = Inr l"
    "lab_bgr cv (map2 zip l (map (map snd) lab)) = Inr b" "img' = Bgr b"
    by (auto simp: clahe_def simp del: image_shape.simps)
  moreover from this(2) have "image_shape (Gray l) = image_shape (Bgr lab)" using clahe_shape shape_fst by metis
  ultimately show ?thesis using lab_shape bgr_shape shape_map2_zip by metis
qed

text \<open>The budget: the sides of the result, and how much of the budget they leave.\<close>

lemma downscale_shape:
  assumes "downscale_to_budget cv img m = Inr img'" "image_shape img = (h, w)" "0 < m" "m < h * w"
  shows "image_shape img' = (max (scaled_side m h w (nat h)) 1, max (scaled_side m w h (nat w)) 1)"
  using assms resize_shape by (auto simp: downscale_to_budget_def)

end

lemma scaled_side_pos: "b \<le> a * m \<Longrightarrow> 0 < n \<Longrightarrow> 1 \<le> scaled_side m a b n"
  using scaled_side_greatest [of m a b n 1] by fastforce

lemma scaled_product:
  assumes "0 < m" "m < h * w" "0 < h" "0 < w"
  defines "sw \<equiv> scaled_side m w h (nat w)" and "sh \<equiv> scaled_side m h w (nat h)"
  shows "sh * sw \<le> m" "m < (sh + 1) * (sw + 1)" "sw < w" "sh < h"
proof -
  have fits: "sw\<^sup>2 * h \<le> w * m" "sh\<^sup>2 * w \<le> h * m"
    unfolding sw_def sh_def using assms(1,3,4) by (auto intro: scaled_side_fits)
  have nn: "0 \<le> sw" "0 \<le> sh" by (simp_all add: sw_def sh_def scaled_side_bounds)
  have less: "sw < w" if "w * m < w\<^sup>2 * h" using that scaled_side_bounds(2) [of m w h "nat w"] fits(1) assms(4)
    by (metis int_nat_eq less_le nless_le not_le sw_def)
  show sw: "sw < w" using assms(2,4) by (intro less) (simp add: power2_eq_square mult.commute)
  have "sh \<le> h" "sh \<noteq> h"
    using scaled_side_bounds(2) [of m h w "nat h"] fits(2) assms(2,3) by (auto simp: sh_def power2_eq_square mult.commute)
  then show sh: "sh < h" by simp
  have "(sw\<^sup>2 * h) * (sh\<^sup>2 * w) \<le> (w * m) * (h * m)"
    by (rule mult_mono [OF fits]) (use assms(1,3,4) in simp_all)
  then have "(sh * sw)\<^sup>2 * (h * w) \<le> m\<^sup>2 * (h * w)" by (simp add: power2_eq_square ac_simps)
  then have "(sh * sw)\<^sup>2 \<le> m\<^sup>2" using assms(3,4) by simp
  then show "sh * sw \<le> m" using assms(1) by (simp add: power2_le_iff_abs_le nn)
  have "w * m < (sw + 1)\<^sup>2 * h" "h * m < (sh + 1)\<^sup>2 * w"
    using sw sh assms(3,4) by (auto simp: sw_def sh_def intro!: scaled_side_greatest)
  then have "(w * m) * (h * m) < ((sw + 1)\<^sup>2 * h) * ((sh + 1)\<^sup>2 * w)"
    by (rule mult_strict_mono) (use assms(1,3,4) nn in simp_all)
  then have "m\<^sup>2 * (h * w) < ((sh + 1) * (sw + 1))\<^sup>2 * (h * w)" by (simp add: power2_eq_square ac_simps)
  then have "m\<^sup>2 < ((sh + 1) * (sw + 1))\<^sup>2" using assms(3,4) by (simp add: mult_less_cancel_right)
  then show "m < (sh + 1) * (sw + 1)" using nn by (meson power2_less_imp_less add_nonneg_nonneg mult_nonneg_nonneg zero_le_one)
qed

section \<open>A library\<close>

text \<open>Nearest neighbours for the resampling, a rational rotation, the average of the channels for the
  luminance; the contours are given.\<close>

definition nearest :: "'a list list \<Rightarrow> int \<times> int \<Rightarrow> exn + 'a list list" where
  "nearest px sz = (case sz of (w, h) \<Rightarrow> if w \<le> 0 \<or> h \<le> 0 then Inl (OtherError (lit ''error'') (lit ''empty size''))
     else Inr (map (\<lambda>y. map (\<lambda>x. px ! (y * length px div nat h) ! (x * columns px div nat w)) [0..<nat w]) [0..<nat h]))"

definition source_of :: "matrix \<Rightarrow> rat \<Rightarrow> rat \<Rightarrow> int \<times> int" where
  "source_of m x y = (case m of ((a, b, tx), (c, d, ty)) \<Rightarrow> let q = a * d - b * c in
     (floor ((d * (x - tx) - b * (y - ty)) / q), floor ((a * (y - ty) - c * (x - tx)) / q)))"

definition warped :: "'a \<Rightarrow> 'a list list \<Rightarrow> matrix \<Rightarrow> int \<times> int \<Rightarrow> exn + 'a list list" where
  "warped white px m sz = (case sz of (w, h) \<Rightarrow> if w \<le> 0 \<or> h \<le> 0 then Inl (OtherError (lit ''error'') (lit ''empty size''))
     else Inr (map (\<lambda>y. map (\<lambda>x. case source_of m (of_nat x) (of_nat y) of (u, v) \<Rightarrow>
        if 0 \<le> u \<and> 0 \<le> v \<and> v < int (length px) \<and> u < int (columns px) then px ! nat v ! nat u else white)
        [0..<nat w]) [0..<nat h]))"

definition tilt :: "rat \<times> rat \<Rightarrow> rat \<Rightarrow> matrix" where
  \<comment> \<open>the tangent of half the angle is taken as the angle in degrees by 115\<close>
  "tilt c angle = (let t = angle / 115; a = (1 - t\<^sup>2) / (1 + t\<^sup>2); b = 2 * t / (1 + t\<^sup>2) in
     ((a, b, (1 - a) * fst c - b * snd c), (- b, a, b * fst c + (1 - a) * snd c)))"

fun luma :: "pixel \<Rightarrow> byte" where
  "luma (b, g, r) = of_nat ((unat b + unat g + unat r) div 3)"

fun raw_decode :: "byte list \<Rightarrow> image option" where
  "raw_decode (w # ps) = (if w = 0 \<or> length ps < unat w then None
     else Some (Bgr (map (\<lambda>y. map (\<lambda>x. let p = ps ! (y * unat w + x) in (p, p, p)) [0..<unat w]) [0..<length ps div unat w])))"
| "raw_decode [] = None"

definition raw_encode :: "image \<Rightarrow> byte list" where
  "raw_encode img = of_int (snd (image_shape img)) # (case img of Gray g \<Rightarrow> concat g | Bgr b \<Rightarrow> map luma (concat b))"

definition plain_cv :: "(rat \<times> (rat \<times> rat) \<times> rat) list \<Rightarrow> (rat \<times> (rat \<times> rat) \<times> rat) cv" where
  "plain_cv lines = \<lparr>imdecode = (\<lambda>bs. Inr (raw_decode bs)), imencode = (\<lambda>img. Inr (Some (raw_encode img))),
     bgr_gray = (\<lambda>b. Inr (map (map luma) b)), resize_gray = nearest, resize_bgr = nearest,
     otsu_inverted = (\<lambda>g. Inr (map (map (\<lambda>p. if p < 128 then 255 else 0)) g)), close_rect = (\<lambda>k n g. Inr g),
     find_contours = (\<lambda>g. Inr lines), contour_area = fst, min_area_rect = snd, rotation_matrix = tilt,
     warp_affine = (\<lambda>img m sz. case img of Gray g \<Rightarrow> bindX (warped 255 g m sz) (\<lambda>g. Inr (Gray g))
       | Bgr b \<Rightarrow> bindX (warped (255, 255, 255) b m sz) (\<lambda>b. Inr (Bgr b))),
     bgr_lab = (\<lambda>img. case img of Bgr b \<Rightarrow> Inr b | Gray g \<Rightarrow> Inl (OtherError (lit ''error'') (lit ''bad number of channels''))),
     lab_bgr = Inr, apply_clahe = (\<lambda>c t g. Inr g), nl_means = Inr, median_blur = (\<lambda>g k. Inr g),
     sha1_hex = map unat\<rparr>"

lemma columns_map_upt: "0 < h \<Longrightarrow> columns (map (\<lambda>y. map (f y) [0..<w]) [0..<h]) = w"
  by (cases h) (simp_all add: upt_conv_Cons del: upt_Suc)

lemma nearest_shape: "nearest px (w, h) = Inr px' \<Longrightarrow> int (length px') = h \<and> int (columns px') = w"
  by (auto simp: nearest_def columns_map_upt split: if_splits)

lemma warped_shape: "warped white px m (w, h) = Inr px' \<Longrightarrow> int (length px') = h \<and> int (columns px') = w"
  by (auto simp: warped_def columns_map_upt split: if_splits)

interpretation plain: image_library "plain_cv lines" for lines
proof unfold_locales
  show "image_shape (Gray g') = (h, w)" if "resize_gray (plain_cv lines) g (w, h) = Inr g'" for g w h g'
    using that nearest_shape by (auto simp: plain_cv_def)
  show "image_shape (Bgr b') = (h, w)" if "resize_bgr (plain_cv lines) b (w, h) = Inr b'" for b w h b'
    using that nearest_shape by (auto simp: plain_cv_def)
  show "image_shape img' = (h, w)" if "warp_affine (plain_cv lines) img m (w, h) = Inr img'" for img m w h img'
    using that by (auto simp: plain_cv_def split: image.splits dest!: warped_shape)
qed (auto simp: plain_cv_def nearest_def tilt_def Let_def split: image.splits)

section \<open>Properties\<close>


text \<open>
  C26. The skew is that of the majority. With at least three usable lines, if more than half of their
  angles lie in an interval the estimated skew lies in it, whatever the others are.
\<close>

theorem skew_follows_majority:
  assumes "estimate_skew cv img max_angle = Inr skew" and "text_lines cv img = Inr contours"
    and "3 \<le> length (List.map_filter (line_angle cv max_angle) contours)"
    and "length (List.map_filter (line_angle cv max_angle) contours) <
      2 * length (filter (\<lambda>x. a \<le> x \<and> x \<le> b) (List.map_filter (line_angle cv max_angle) contours))"
  shows "a \<le> skew \<and> skew \<le> b"
  using assms(1-3) median_majority [OF assms(4)] by (auto simp: estimate_skew_def Let_def)

lemma estimate_bounded: "estimate_skew cv img max_angle = Inr skew \<Longrightarrow> skew \<noteq> 0 \<Longrightarrow> \<bar>skew\<bar> \<le> max_angle"
proof -
  assume est: "estimate_skew cv img max_angle = Inr skew" "skew \<noteq> 0"
  then obtain cs where "text_lines cv img = Inr cs" by (auto simp: estimate_skew_def)
  let ?as = "List.map_filter (line_angle cv max_angle) cs"
  have as: "3 \<le> length ?as" "skew = median ?as"
    using est \<open>text_lines cv img = Inr cs\<close> by (auto simp: estimate_skew_def Let_def split: if_splits)
  have "line_angle cv max_angle c = Some x \<Longrightarrow> - max_angle \<le> x \<and> x \<le> max_angle" for c x
    by (auto simp: line_angle_def Let_def abs_le_iff split: if_splits prod.splits)
  then have "filter (\<lambda>x. - max_angle \<le> x \<and> x \<le> max_angle) ?as = ?as"
    by (force simp: map_filter_def filter_id_conv)
  then show ?thesis
    using median_majority [of ?as "- max_angle" max_angle] as by (simp add: abs_le_iff) (cases "?as = []"; simp)
qed

lemma deskew_cases:
  assumes "deskew cv img max_angle min_angle = Inr (img', skew)" and "0 < min_angle"
  obtains "img' = img" "skew = 0"
    | "min_angle \<le> \<bar>skew\<bar>" "\<bar>skew\<bar> \<le> max_angle" "rotate_page cv img skew = Inr img'"
  using assms estimate_bounded [of cv img max_angle] by (auto simp: deskew_def split: if_splits)

definition page_shape :: "'c cv \<Rightarrow> image \<Rightarrow> rat \<Rightarrow> int \<times> int" where
  "page_shape cv img skew = (if skew = 0 then image_shape img
     else case snd (turned cv (image_shape img) skew) of (w, h) \<Rightarrow> (h, w))"

text \<open>
  The prepared page. The reported skew is 0, or an angle between 0.3 degrees and the maximum by which the
  page was turned; the filters keep the size, which is that of the page within the budget or of the canvas
  it was turned on.
\<close>

theorem prepared_page:
  assumes "image_library cv" and "prepare cv img m want_deskew max_angle want_clahe want_denoise = Inr (img', skew)"
  shows "\<exists>small. downscale_to_budget cv img m = Inr small \<and> image_shape img' = page_shape cv small skew \<and>
    (skew \<noteq> 0 \<longrightarrow> want_deskew \<and> 3/10 \<le> \<bar>skew\<bar> \<and> \<bar>skew\<bar> \<le> max_angle)"
proof -
  obtain small turned clean where s: "downscale_to_budget cv img m = Inr small"
    and t: "(if want_deskew then deskew cv small max_angle (3/10) else Inr (small, 0)) = Inr (turned, skew)"
    and d: "(if want_denoise then nl_means cv turned else Inr turned) = Inr clean"
    and c: "(if want_clahe then clahe cv clean 2 else Inr clean) = Inr img'"
    using assms(2) by (auto simp: prepare_def)
  have "image_shape img' = image_shape turned"
    using c d image_library.clahe_keeps_shape [OF assms(1)] image_library.denoise_shape [OF assms(1)]
    by (auto split: if_splits)
  moreover have "image_shape turned = page_shape cv small skew \<and> (skew \<noteq> 0 \<longrightarrow> want_deskew \<and> 3/10 \<le> \<bar>skew\<bar> \<and> \<bar>skew\<bar> \<le> max_angle)"
  proof (cases want_deskew)
    case True
    then have d: "deskew cv small max_angle (3/10) = Inr (turned, skew)" using t by simp
    show ?thesis
    proof (rule deskew_cases [OF d])
      assume 2: "3/10 \<le> \<bar>skew\<bar>" "\<bar>skew\<bar> \<le> max_angle" "rotate_page cv small skew = Inr turned"
      then have "skew \<noteq> 0" by auto
      moreover obtain mt w h where "Preprocess.turned cv (image_shape small) skew = (mt, (w, h))" by (metis surj_pair)
      ultimately show ?thesis
        using 2 True image_library.warp_shape [OF assms(1)] by (auto simp: rotate_page_def page_shape_def)
    qed (simp_all add: page_shape_def)
  qed (use t in \<open>simp add: page_shape_def\<close>)
  ultimately show ?thesis using s by simp
qed

text \<open>
  Nothing is turned off the canvas. The matrix and the canvas of a rotation take every point of
  the page to a point of the canvas, up to half a pixel at its edges.
\<close>

theorem rotation_keeps_page:
  assumes "image_library cv" and "turned cv (h, w) angle = (((a, b, tx), (c, d, ty)), (new_w, new_h))"
    and "0 \<le> h" and "0 \<le> w" and "0 \<le> x" and "x \<le> of_int w" and "0 \<le> y" and "y \<le> of_int h"
  shows "- (1/2) < a * x + b * y + tx \<and> a * x + b * y + tx < of_int new_w + 1/2 \<and>
    - (1/2) < c * x + d * y + ty \<and> c * x + d * y + ty < of_int new_h + 1/2"
proof -
  define W H :: rat where "W = of_int w" and "H = of_int h"
  obtain p q where rot: "rotation_matrix cv (W / 2, H / 2) angle =
      ((p, q, (1 - p) * (W / 2) - q * (H / 2)), (- q, p, q * (W / 2) + (1 - p) * (H / 2)))"
    using image_library.rotation_about [OF assms(1)] by blast
  have "(((a, b, tx), (c, d, ty)), (new_w, new_h)) = turned cv (h, w) angle" by (simp only: assms(2))
  then have pq: "p = a" "q = b" "c = - b" "d = a"
    and t: "tx = (1 - a) * (W / 2) - b * (H / 2) + of_int (new_w - w) / 2"
      "ty = b * (W / 2) + (1 - a) * (H / 2) + of_int (new_h - h) / 2"
    and size: "new_w = trunc (H * \<bar>b\<bar> + W * \<bar>a\<bar>)" "new_h = trunc (H * \<bar>a\<bar> + W * \<bar>b\<bar>)"
    unfolding turned_def by (simp_all add: rot [unfolded W_def H_def] Let_def W_def H_def)
  have trunc_less: "z < of_int (trunc z) + 1" for z :: rat unfolding trunc_def by (cases "z < 0"; simp; linarith)
  have big: "H * \<bar>b\<bar> + W * \<bar>a\<bar> < of_int new_w + 1" "H * \<bar>a\<bar> + W * \<bar>b\<bar> < of_int new_h + 1"
    by (simp_all add: size trunc_less)
  have off: "\<bar>x - W / 2\<bar> \<le> W / 2" "\<bar>y - H / 2\<bar> \<le> H / 2"
    unfolding abs_le_iff W_def H_def using assms(5-8) by (intro conjI; linarith)+
  have bound: "\<bar>p * (x - W / 2) + q * (y - H / 2)\<bar> \<le> \<bar>p\<bar> * (W / 2) + \<bar>q\<bar> * (H / 2)" for p q :: rat
    using mult_left_mono [OF off(1), of "\<bar>p\<bar>"] mult_left_mono [OF off(2), of "\<bar>q\<bar>"] abs_triangle_ineq [of "p * (x - W / 2)" "q * (y - H / 2)"]
    by (simp add: abs_mult)
  have "a * x + b * y + tx = a * (x - W / 2) + b * (y - H / 2) + of_int new_w / 2"
    "c * x + d * y + ty = (- b) * (x - W / 2) + a * (y - H / 2) + of_int new_h / 2"
    by (simp_all add: t pq W_def H_def field_simps)
  then show ?thesis
    using bound [of a b] bound [of "- b" a] big by (auto simp: abs_le_iff field_simps)
qed

text \<open>
  The hash is one of contrast. Two pages whose thumbnails differ by a change of brightness and a
  positive change of contrast have the same hash.
\<close>

theorem page_hash_affine:
  assumes "resize_gray cv g (64, 64) = Inr t" and "resize_gray cv g' (64, 64) = Inr t'"
    and "levels t' = map (\<lambda>x. s * x + k) (levels t)" and "0 < s"
  shows "page_hash cv (Gray g') = page_hash cv (Gray g)"
proof -
  have "mean (map (\<lambda>x. s * x + k) xs) = s * mean xs + k" if "xs \<noteq> []" for xs
    using that by (simp add: mean_def sum_list_addf sum_list_const_mult sum_list_triv add_divide_distrib)
  then have "above_mean t' = above_mean t"
    using assms(3,4) by (cases "levels t = []") (auto simp: above_mean_def)
  then show ?thesis using assms(1,2) by (simp add: page_hash_def)
qed

section \<open>Examples\<close>

definition dark :: "nat \<Rightarrow> nat \<Rightarrow> image" where
  "dark h w = Bgr (replicate h (replicate w (0, 0, 0)))"

definition three_lines :: "rat \<Rightarrow> rat \<Rightarrow> rat \<Rightarrow> (rat \<times> (rat \<times> rat) \<times> rat) list" where
  "three_lines a b c = map (\<lambda>x. (400, (50, 10), x)) [a, b, c]"

lemma dark_shape [simp]: "0 < h \<Longrightarrow> image_shape (dark h w) = (int h, int w)"
  by (cases h) (simp_all add: dark_def)

lemma plain_downscale: "\<exists>img'. downscale_to_budget (plain_cv lines) (dark h w) m = Inr img'"
  by (auto simp: downscale_to_budget_def dark_def plain_cv_def nearest_def split: prod.split)

lemma plain_lines:
  assumes "0 < h" "0 < w" "h \<le> 1000" "w \<le> 1000"
  shows "text_lines (plain_cv lines) (dark h w) = Inr lines"
proof -
  have "image_shape (Gray (map (map luma) (replicate h (replicate w (0, 0, 0))))) = (int h, int w)"
    using assms(1) by (cases h) simp_all
  moreover have "\<not> 1000 < max (int h) (int w)" "max (int h) (int w) \<noteq> 0" using assms by (simp_all add: max_def)
  ultimately show ?thesis
    by (simp add: text_lines_def dark_def plain_cv_def shrunk_def del: image_shape.simps map_replicate)
qed

lemma three_angles:
  "\<bar>a\<bar> \<le> m \<Longrightarrow> \<bar>b\<bar> \<le> m \<Longrightarrow> \<bar>c\<bar> \<le> m \<Longrightarrow>
    List.map_filter (line_angle (plain_cv lines) m) (three_lines a b c) = [a, b, c]"
  by (simp add: three_lines_def line_angle_def plain_cv_def List.map_filter_def)

lemma strip_exceeds_budget:
  \<comment> \<open>the side that is rounded up to a pixel is not made up for by the other\<close>
  "\<exists>img'. downscale_to_budget (plain_cv []) (dark 100 2) 4 = Inr img' \<and> image_shape img' = (14, 1)"
proof -
  obtain img' where img: "downscale_to_budget (plain_cv []) (dark 100 2) 4 = Inr img'"
    using plain_downscale by blast
  have "scaled_side 4 2 100 2 = 0" by (simp add: numeral_2_eq_2)
  moreover have "scaled_side 4 100 2 100 = 14"
    by (simp add: eval_nat_numeral)
  ultimately show ?thesis
    using plain.downscale_shape [OF img, of 100 2] img by simp
qed

lemma thin_page_raises:
  \<comment> \<open>a page a thousand times as long as it is wide is resized to no pixels\<close>
  assumes "image_library cv" and "to_gray cv img = Inr g" and "image_shape (Gray g) = (h, w)"
    and "1000 < max h w" and "1000 * min h w < max h w" and "0 \<le> min h w"
  shows "\<exists>e. estimate_skew cv img max_angle = Inl e"
proof -
  have "h * 1000 div max h w = 0 \<or> w * 1000 div max h w = 0"
    using assms(5,6) by (auto simp: min_def max_def mult.commute split: if_splits)
  then obtain e where "resize_gray cv g (w * 1000 div max h w, h * 1000 div max h w) = Inl e"
    using image_library.resize_to_nothing [OF assms(1)] by fastforce
  then have "shrunk cv g = Inl e" using assms(3,4) by (simp add: shrunk_def del: image_shape.simps)
  then show ?thesis using assms(2) by (simp add: estimate_skew_def text_lines_def)
qed

lemma deskewed_page_exceeds_budget:
  \<comment> \<open>the page is brought into the budget before it is turned\<close>
  "\<exists>img'. prepare (plain_cv (three_lines 14 14 14)) (dark 10 10) 100 True 15 False False = Inr (img', 14) \<and>
     image_shape img' = (12, 12)"
proof -
  let ?cv = "plain_cv (three_lines 14 14 14)"
  have "text_lines ?cv (dark 10 10) = Inr (three_lines 14 14 14)" by (rule plain_lines) simp_all
  then have skew: "estimate_skew ?cv (dark 10 10) 15 = Inr 14"
    by (simp add: estimate_skew_def three_angles median_def Let_def)
  have turned: "snd (turned ?cv (10, 10) 14) = (12, 12)"
    by (simp add: turned_def plain_cv_def tilt_def Let_def trunc_def power2_eq_square floor_eq_iff)
  then obtain m where m: "turned ?cv (10, 10) 14 = (m, (12, 12))" by (metis prod.collapse)
  have "\<exists>img'. warp_affine ?cv (dark 10 10) m (12, 12) = Inr img'"
    by (simp add: plain_cv_def dark_def warped_def)
  then obtain img' where img: "rotate_page ?cv (dark 10 10) 14 = Inr img'"
    using m by (auto simp: rotate_page_def)
  then have "image_shape img' = (12, 12)"
    using m plain.warp_shape by (auto simp: rotate_page_def)
  moreover have "downscale_to_budget ?cv (dark 10 10) 100 = Inr (dark 10 10)" by (simp add: downscale_to_budget_def)
  ultimately show ?thesis using img skew by (simp add: prepare_def deskew_def)
qed

section \<open>Witnesses\<close>


lemma skew_follows_majority_witness:
  "\<exists>skew. estimate_skew (plain_cv (three_lines 2 3 (- 14))) (dark 10 10) 15 = Inr skew \<and> 2 \<le> skew \<and> skew \<le> 3"
proof -
  have lines: "text_lines (plain_cv (three_lines 2 3 (- 14))) (dark 10 10) = Inr (three_lines 2 3 (- 14))"
    by (rule plain_lines) simp_all
  then obtain skew where "estimate_skew (plain_cv (three_lines 2 3 (- 14))) (dark 10 10) 15 = Inr skew"
    by (simp add: estimate_skew_def Let_def)
  with skew_follows_majority [OF this lines, of 2 3] show ?thesis by (simp add: three_angles)
qed

lemma prepared_page_witness:
  "\<exists>img' skew small. prepare (plain_cv (three_lines 14 14 14)) (dark 10 10) 100 True 15 False False = Inr (img', skew) \<and>
     image_shape img' = page_shape (plain_cv (three_lines 14 14 14)) small skew \<and> \<bar>skew\<bar> \<le> 15"
proof -
  obtain img' where img: "prepare (plain_cv (three_lines 14 14 14)) (dark 10 10) 100 True 15 False False = Inr (img', 14)"
    using deskewed_page_exceeds_budget by blast
  from prepared_page [OF plain.image_library_axioms this] img show ?thesis by auto
qed

lemma rotation_keeps_page_witness:
  "\<exists>a b tx c d ty. turned (plain_cv []) (10, 10) 14 = (((a, b, tx), (c, d, ty)), (12, 12)) \<and> - (1/2) < a * 10 + b * 0 + tx"
proof -
  obtain m where "turned (plain_cv []) (10, 10) 14 = (m, (12, 12))"
    by (simp add: turned_def plain_cv_def tilt_def Let_def trunc_def power2_eq_square floor_eq_iff)
  then obtain a b tx c d ty where t: "turned (plain_cv []) (10, 10) 14 = (((a, b, tx), (c, d, ty)), (12, 12))"
    by (cases m) auto
  from rotation_keeps_page [OF plain.image_library_axioms t, of 10 0] t show ?thesis by auto
qed

lemma page_hash_affine_witness:
  "page_hash (plain_cv []) (Gray [[10, 20], [30, 40]]) = page_hash (plain_cv []) (Gray [[5, 7], [9, 11]])"
proof -
  let ?f = "\<lambda>px :: gray. map (\<lambda>y. map (\<lambda>x. px ! (y * length px div nat 64) ! (x * columns px div nat 64)) [0..<nat 64]) [0..<nat 64]"
  let ?t = "?f [[5, 7], [9, 11]]" and ?t' = "?f [[10, 20], [30, 40]]"
  have pixel: "rat_of_nat (unat ([[10, 20], [30, 40 :: byte]] ! i ! j)) = 5 * rat_of_nat (unat ([[5, 7], [9, 11 :: byte]] ! i ! j)) + - 15"
    if "i < 2" "j < 2" for i j
    using that by (auto simp: less_2_cases_iff)
  have "map (map (\<lambda>p. rat_of_nat (unat p))) ?t' = map (map (\<lambda>p. 5 * rat_of_nat (unat p) + - 15)) ?t"
    unfolding map_map comp_def by (intro map_cong refl) (auto intro!: pixel [simplified])
  then have "levels ?t' = map (\<lambda>x. 5 * x + - 15) (levels ?t)"
    by (simp only: levels_def map_concat map_map comp_def)
  then show ?thesis
    by (intro page_hash_affine [of "plain_cv []" _ ?t _ ?t' 5 "- 15"]) (simp_all add: plain_cv_def nearest_def)
qed

end
