(* ===== verification/Page_Prepare.thy ===== *)
theory Page_Prepare
  imports Image_Facts Layout_Decode Layout_Tiles Page_Pool
begin

text \<open>
  \<open>_prepare_page\<close> of \<open>workers/cpu_worker.py\<close> and what \<open>_process_page\<close> learns from its result: decoding, preprocessing,
  layout detection and tiling put together. They give the facts of a scanned page that the page pipeline
  (\<open>Page_Pool\<close>) starts from, and the pictures of its regions.
\<close>

record 'c vision =
  vi_cv :: "'c cv"
  vi_nms :: "box list \<Rightarrow> rat list \<Rightarrow> rat \<Rightarrow> nat list"
  vi_session :: "image \<Rightarrow> (exn + tensor) option"      \<comment> \<open>what the detector's session answers, \<open>None\<close> without a model\<close>
  vi_input_size :: int

definition regions_of :: "'c vision \<Rightarrow> settings \<Rightarrow> image \<Rightarrow> region list option" where
  "regions_of V S img = (case image_shape img of (h, w) \<Rightarrow>
     tile (detect (vi_nms V) (vi_session V img) h w (vi_input_size V) (layout_score_threshold S) (layout_iou_threshold S))
       (int (tile_max_height S)) (int (tile_overlap S)))"

definition prepare_page :: "'c vision \<Rightarrow> settings \<Rightarrow> byte list \<Rightarrow> (exn + image \<times> rat \<times> region list) option" where
  \<comment> \<open>\<open>None\<close>: the tiling does not return\<close>
  "prepare_page V S png =
     (case bindX (to_bgr (vi_cv V) png) (\<lambda>img. prepare (vi_cv V) img (max_image_px S) (do_deskew S) (deskew_max_angle S)
         (do_clahe S) (do_denoise S)) of
       Inl e \<Rightarrow> Some (Inl e)
     | Inr (img, skew) \<Rightarrow> map_option (\<lambda>rs. Inr (img, skew, rs)) (regions_of V S img))"

definition facts_of_image :: "'c vision \<Rightarrow> settings \<Rightarrow> rendered_page \<Rightarrow> image \<times> rat \<times> region list \<Rightarrow> exn + page_facts" where
  \<comment> \<open>the hash of a blank page is not computed\<close>
  "facts_of_image V S r p = (case p of (img, skew, rs) \<Rightarrow>
     bindX (is_blank (vi_cv V) img (blank_std_threshold S)) (\<lambda>blank.
     bindX (if blank then Inr [] else page_hash (vi_cv V) img) (\<lambda>digest.
       Inr \<lparr>rendered = r, img_size = (snd (image_shape img), fst (image_shape img)), img_skew = skew, img_blank = blank,
         img_digest = digest, img_regions = length rs\<rparr>)))"

definition scan_page :: "'c vision \<Rightarrow> settings \<Rightarrow> rendered_page \<Rightarrow> (exn + page_facts) option" where
  "scan_page V S r = (case rp_png r of
       None \<Rightarrow> Some (Inl (OtherError (lit ''AssertionError'') []))
     | Some png \<Rightarrow> (case prepare_page V S png of None \<Rightarrow> None
       | Some p \<Rightarrow> Some (bindX p (facts_of_image V S r))))"

fun cut_rows :: "int \<times> int \<times> int \<times> int \<Rightarrow> 'a list list \<Rightarrow> 'a list list" where
  "cut_rows (x0, y0, x1, y1) px = map (\<lambda>r. take (nat (x1 - x0)) (drop (nat x0) r)) (take (nat (y1 - y0)) (drop (nat y0) px))"

fun cut_image :: "int \<times> int \<times> int \<times> int \<Rightarrow> image \<Rightarrow> image" where
  "cut_image box (Gray g) = Gray (cut_rows box g)"
| "cut_image box (Bgr b) = Bgr (cut_rows box b)"

definition region_png :: "'c cv \<Rightarrow> image \<Rightarrow> region \<Rightarrow> exn + byte list" where
  \<comment> \<open>\<open>to_png(crop(img, region))\<close>\<close>
  "region_png cv img r = (case image_shape img of (h, w) \<Rightarrow> to_png cv (cut_image (crop h w r 4) img))"

section \<open>Regions\<close>

lemma hi_order [simp]: "lo ax (r\<lparr>order := i\<rparr>) = lo ax r" "hi ax (r\<lparr>order := i\<rparr>) = hi ax r"
  by (cases ax; simp)+

definition readable :: "int \<Rightarrow> int \<Rightarrow> int \<Rightarrow> region \<Rightarrow> bool" where
  "readable w h budget r \<longleftrightarrow> on_page w h r \<and> hi Y_axis r - lo Y_axis r \<le> budget"

lemma readable_order [simp]: "readable w h b (r\<lparr>order := i\<rparr>) = readable w h b r"
  by (simp add: readable_def)

lemma tile_region_readable:
  assumes "2 \<le> mh" "0 \<le> overlap" "on_page w h r" "tile_region mh overlap r = Some ts"
  shows "ts \<noteq> [] \<and> list_all (readable w h mh) ts"
proof (cases "tall mh r")
  case True
  from tile_region_tall [OF assms(1,2) True] obtain ts' where ts': "tile_region mh overlap r = Some ts'"
    "tiles_from (lo X_axis r) (hi X_axis r) (hi Y_axis r) mh (max (mh - overlap) (mh div 2)) (cls r) (lo Y_axis r) ts'" by blast
  then have t: "tiles_from (lo X_axis r) (hi X_axis r) (hi Y_axis r) mh (max (mh - overlap) (mh div 2)) (cls r) (lo Y_axis r) ts"
    using assms(4) by simp
  have mh: "0 < mh" and step: "0 \<le> max (mh - overlap) (mh div 2)" using assms(1,2) by linarith+
  have "readable w h mh x" if x: "x \<in> set ts" for x
    using tiles_from_height [OF t mh x] tiles_from_ge [OF t step x] assms(3) by (auto simp: readable_def on_page_def)
  moreover have "ts \<noteq> []" using t by auto
  ultimately show ?thesis by (simp add: list_all_iff)
next
  case False
  then have "ts = [r]" using assms(4) by (cases "bbox r") (auto simp: tile_region_def tall_def)
  then show ?thesis using False assms(3) by (simp add: readable_def tall_def)
qed

lemma tile_all_readable:
  assumes "2 \<le> mh" "0 \<le> overlap"
  shows "list_all (on_page w h) rs \<Longrightarrow> tile_all mh overlap rs = Some ts \<Longrightarrow>
    (rs \<noteq> [] \<longrightarrow> ts \<noteq> []) \<and> list_all (readable w h mh) ts"
proof (induction rs arbitrary: ts)
  case (Cons r rs)
  then obtain us vs where "tile_region mh overlap r = Some us" "tile_all mh overlap rs = Some vs" "ts = us @ vs"
    by (auto simp: bind_eq_Some_conv)
  then show ?case using Cons tile_region_readable [OF assms, of w h r us] by auto
qed simp

lemma renumber_all: "list_all (readable w h b) (renumber i rs) = list_all (readable w h b) rs"
  by (induction i rs rule: renumber.induct) simp_all

lemma shape_nonneg: "image_shape img = (h, w) \<Longrightarrow> 0 \<le> h \<and> 0 \<le> w"
  by (cases img) auto

lemma regions_of_readable:
  assumes "2 \<le> tile_max_height S" "image_shape img = (h, w)"
  shows "\<exists>rs. regions_of V S img = Some rs \<and> rs \<noteq> [] \<and> map order rs = map int [0..<length rs] \<and>
    list_all (readable w h (int (tile_max_height S))) rs"
proof -
  let ?mh = "int (tile_max_height S)" and ?ov = "int (tile_overlap S)"
  have mh: "2 \<le> ?mh" "0 \<le> ?ov" using assms(1) by simp_all
  define ds where "ds = detect (vi_nms V) (vi_session V img) h w (vi_input_size V) (layout_score_threshold S) (layout_iou_threshold S)"
  have ds: "ds \<noteq> []" "list_all (on_page w h) ds"
    using detect_total shape_nonneg [OF assms(2)] by (simp_all add: ds_def Let_def)
  obtain ts where ts: "tile_all ?mh ?ov ds = Some ts" using tile_all_Some [OF mh] by blast
  have "ts \<noteq> []" "list_all (readable w h ?mh) ts" using tile_all_readable [OF mh ds(2) ts] ds(1) by simp_all
  moreover have "regions_of V S img = Some (renumber 0 ts)"
    by (simp add: regions_of_def assms(2) tile_def ts ds_def [symmetric])
  moreover have "renumber 0 ts \<noteq> []" using calculation(1) by (metis length_0_conv renumber_length)
  moreover have "map order (renumber 0 ts) = map int [0..<length (renumber 0 ts)]"
    by (simp add: renumber_order)
  ultimately show ?thesis by (intro exI [of _ "renumber 0 ts"]) (simp only: renumber_all simp_thms)
qed

lemma cut_rows_shape:
  assumes "0 \<le> x0" "x0 < x1" "x1 \<le> int w" "0 \<le> y0" "y0 < y1" "y1 \<le> int (length px)" "\<forall>r\<in>set px. length r = w"
  shows "int (length (cut_rows (x0, y0, x1, y1) px)) = y1 - y0 \<and> int (columns (cut_rows (x0, y0, x1, y1) px)) = x1 - x0"
proof -
  let ?rs = "take (nat (y1 - y0)) (drop (nat y0) px)"
  have n: "int (length ?rs) = y1 - y0" using assms by simp
  then obtain r rs where r: "?rs = r # rs" using assms(5) by (cases ?rs) simp_all
  then have "r \<in> set px" by (metis in_set_dropD in_set_takeD list.set_intros(1))
  then have "length r = w" using assms(7) by simp
  then show ?thesis using n r assms(1-3) by simp
qed

section \<open>Properties\<close>


text \<open>
  What is sent of a region is a picture. The picture cut out for a region of a rectangular page is not empty, and
  contains the region with its margin, up to the edges of the page.
\<close>

theorem region_picture:
  assumes "0 < h" and "0 < w" and "length px = h" and "\<forall>r\<in>set px. length r = w"
  shows "case image_shape (cut_image (crop (int h) (int w) r 4) (Bgr px)) of (h', w') \<Rightarrow> 0 < h' \<and> h' \<le> int h \<and> 0 < w' \<and> w' \<le> int w \<and>
    (on_page (int w) (int h) r \<and> lo X_axis r < hi X_axis r \<and> lo Y_axis r < hi Y_axis r \<longrightarrow>
      hi Y_axis r - lo Y_axis r \<le> h' \<and> hi X_axis r - lo X_axis r \<le> w')"
proof -
  obtain x0 y0 x1 y1 where c: "crop (int h) (int w) r 4 = (x0, y0, x1, y1)" by (metis prod_cases4)
  have b: "0 \<le> x0" "x0 < x1" "x1 \<le> int w" "0 \<le> y0" "y0 < y1" "y1 \<le> int h"
    and inside: "on_page (int w) (int h) r \<and> lo X_axis r < hi X_axis r \<and> lo Y_axis r < hi Y_axis r \<Longrightarrow>
      x0 \<le> lo X_axis r \<and> hi X_axis r \<le> x1 \<and> y0 \<le> lo Y_axis r \<and> hi Y_axis r \<le> y1"
    using crop_inside [of "int h" "int w" 4 r] assms(1,2) c by (auto simp: on_page_def)
  have "int (length (cut_rows (x0, y0, x1, y1) px)) = y1 - y0 \<and> int (columns (cut_rows (x0, y0, x1, y1) px)) = x1 - x0"
    by (rule cut_rows_shape) (use b assms in auto)
  then show ?thesis using b inside by (auto simp: c)
qed

definition sample_vision :: "(rat \<times> (rat \<times> rat) \<times> rat) vision" where
  "sample_vision = \<lparr>vi_cv = plain_cv [], vi_nms = (\<lambda>bs ss t. []), vi_session = (\<lambda>img. None), vi_input_size = 1024\<rparr>"

definition sample_scan :: rendered_page where
  \<comment> \<open>a picture of two by two pixels\<close>
  "sample_scan = \<lparr>rp_index = 0, rp_png = Some [2, 0, 255, 255, 0], rp_dpi = 150, rp_width = 100, rp_height = 200, rp_native_text = None\<rparr>"

definition checker :: image where
  "checker = Bgr [[(0, 0, 0), (255, 255, 255)], [(255, 255, 255), (0, 0, 0)]]"

lemma checker_shape: "image_shape checker = (2, 2)"
  by (simp add: checker_def)

lemma checker_prepared:
  "to_bgr (plain_cv []) [2, 0, 255, 255, 0] = Inr checker"
  "prepare (plain_cv []) checker 4000000 True 15 True False = Inr (checker, 0)"
  "is_blank (plain_cv []) checker 4 = Inr False"
  "\<exists>digest. page_hash (plain_cv []) checker = Inr digest"
proof -
  show "to_bgr (plain_cv []) [2, 0, 255, 255, 0] = Inr checker"
    by (simp add: to_bgr_def plain_cv_def checker_def upt_rec Let_def)
  have "text_lines (plain_cv []) checker = Inr []"
    by (simp add: text_lines_def plain_cv_def shrunk_def checker_def)
  then have "deskew (plain_cv []) checker 15 (3/10) = Inr (checker, 0)"
    by (simp add: deskew_def estimate_skew_def List.map_filter_def)
  moreover have "downscale_to_budget (plain_cv []) checker 4000000 = Inr checker"
    by (simp add: downscale_to_budget_def checker_shape)
  moreover have "clahe (plain_cv []) checker 2 = Inr checker"
    by (simp add: clahe_def plain_cv_def checker_def)
  ultimately show "prepare (plain_cv []) checker 4000000 True 15 True False = Inr (checker, 0)"
    by (simp add: prepare_def)
  show "is_blank (plain_cv []) checker 4 = Inr False"
    by (simp add: is_blank_def plain_cv_def checker_def levels_def variance_def mean_def power2_eq_square)
  show "\<exists>digest. page_hash (plain_cv []) checker = Inr digest"
    by (simp add: page_hash_def plain_cv_def checker_def nearest_def)
qed

lemma sample_scan_returns: "\<exists>f. scan_page sample_vision default_settings sample_scan = Some (Inr f)"
proof -
  obtain rs where rs: "regions_of sample_vision default_settings checker = Some rs"
    using regions_of_readable [OF _ checker_shape, of default_settings sample_vision] by (auto simp: default_settings_def)
  have "prepare_page sample_vision default_settings [2, 0, 255, 255, 0] = Some (Inr (checker, 0, rs))"
    using rs by (simp add: prepare_page_def checker_prepared sample_vision_def) (simp add: default_settings_def checker_prepared)
  moreover obtain digest where "page_hash (plain_cv []) checker = Inr digest" using checker_prepared(4) by blast
  moreover have "blank_std_threshold default_settings = 4" "vi_cv sample_vision = plain_cv []" "rp_png sample_scan = Some [2, 0, 255, 255, 0]"
    by (simp_all add: default_settings_def sample_vision_def sample_scan_def)
  ultimately show ?thesis by (simp add: scan_page_def facts_of_image_def checker_prepared)
qed


lemma region_picture_witness:
  "case image_shape (cut_image (crop 3 4 (box_region 1 1 2 2) 4) (Bgr (replicate 3 (replicate 4 (0, 0, 0))))) of
     (h', w') \<Rightarrow> 1 \<le> h' \<and> 1 \<le> w'"
  using region_picture [of 3 4 "replicate 3 (replicate 4 (0, 0, 0))" "box_region 1 1 2 2"]
  by (auto simp: on_page_def box_region_def split: prod.splits)

end
