(* ===== verification/Job_Types.thy ===== *)
theory Job_Types
  imports Gateway_Run Worker_Run
begin

text \<open>
  The type of a job hash. Redis keeps the fields of a job as text, \<open>parse_state\<close> of \<open>events.py\<close> reads them
  back. \<open>typed_store\<close> says that every job hash has texts that can be read; it holds of the empty store, and gateway
  and worker keep it under every fault, so reading a job's state never raises.
\<close>

section \<open>Typed hashes\<close>

definition int_keys :: "string set" where
  "int_keys = {''attempts'', ''pages_done'', ''page_count''}"

definition time_keys :: "string set" where
  "time_keys = {''created_at'', ''updated_at''}"

definition is_int :: "pystr \<Rightarrow> bool" where
  "is_int v \<longleftrightarrow> v = [] \<or> parse_int v \<noteq> None"

definition is_time :: "('w, 't) time_api \<Rightarrow> pystr \<Rightarrow> bool" where
  "is_time T v \<longleftrightarrow> v = [] \<or> (\<exists>t. from_iso T v = Inr t)"

definition value_ok :: "('w, 't) time_api \<Rightarrow> string \<Rightarrow> pystr \<Rightarrow> bool" where
  "value_ok T k v \<longleftrightarrow> (k = ''status'' \<longrightarrow> (\<exists>st. v = status_value st)) \<and> (k \<in> int_keys \<longrightarrow> is_int v) \<and>
     (k \<in> time_keys \<longrightarrow> is_time T v)"

definition typed :: "('w, 't) time_api \<Rightarrow> dict \<Rightarrow> bool" where
  "typed T d \<longleftrightarrow> (\<forall>k v. dget d k = Some v \<longrightarrow> value_ok T k v)"

definition typed_store :: "('w, 't) time_api \<Rightarrow> store \<Rightarrow> bool" where
  "typed_store T s \<longleftrightarrow> (\<forall>k. typed T (s_hash s k))"

definition values_ok :: "('w, 't) time_api \<Rightarrow> dict \<Rightarrow> bool" where
  "values_ok T d \<longleftrightarrow> (\<forall>(k, v)\<in>set d. value_ok T k v)"

lemma values_ok_simps [simp]:
  "values_ok T []" "values_ok T ((k, v) # d) \<longleftrightarrow> value_ok T k v \<and> values_ok T d"
  by (simp_all add: values_ok_def)

lemma typed_Nil [simp]: "typed T []"
  by (simp add: typed_def)

lemma typed_put: "typed T d \<Longrightarrow> value_ok T k v \<Longrightarrow> typed T (AList.update k v d)"
  by (simp add: typed_def)

lemma typed_update: "typed T d \<Longrightarrow> values_ok T e \<Longrightarrow> typed T (dict_update d e)"
  by (induction d e rule: dict_update.induct) (simp_all add: typed_put)

lemma values_ok_put: "values_ok T d \<Longrightarrow> value_ok T k v \<Longrightarrow> values_ok T (AList.update k v d)"
  by (induction d) (auto split: prod.splits)

lemma values_ok_update: "values_ok T d \<Longrightarrow> values_ok T e \<Longrightarrow> values_ok T (dict_update d e)"
  by (induction d e rule: dict_update.induct) (simp_all add: values_ok_put)

lemma typed_get: "typed T d \<Longrightarrow> dget d k = Some v \<Longrightarrow> value_ok T k v"
  by (simp add: typed_def)

text \<open>A typed hash is read without an exception.\<close>

lemma non_empty_Some: "non_empty x = Some v \<Longrightarrow> x = Some v \<and> v \<noteq> []"
  by (auto simp: non_empty_def split: option.splits list.splits)

lemma typed_int: "typed T d \<Longrightarrow> k \<in> int_keys \<Longrightarrow> \<exists>n. int_field d k = Inr n"
proof (cases "non_empty (dget d k)")
  case (Some v)
  assume "typed T d" "k \<in> int_keys"
  then have "is_int v" using typed_get non_empty_Some [OF Some] by (metis value_ok_def)
  then show ?thesis using Some non_empty_Some [OF Some] by (auto simp: int_field_def py_int_def is_int_def)
qed (simp add: int_field_def)

lemma typed_time: "typed T d \<Longrightarrow> k \<in> time_keys \<Longrightarrow> \<exists>t. time_field T d k = Inr t"
proof (cases "non_empty (dget d k)")
  case (Some v)
  assume "typed T d" "k \<in> time_keys"
  then have "is_time T v" using typed_get non_empty_Some [OF Some] by (metis value_ok_def)
  then show ?thesis using Some non_empty_Some [OF Some] by (auto simp: time_field_def is_time_def)
qed (simp add: time_field_def)

lemma typed_status: "typed T d \<Longrightarrow> \<exists>st. parse_status (dget_or d ''status'' (status_value Queued)) = Inr st"
proof (cases "dget d ''status''")
  case (Some v)
  assume "typed T d"
  then obtain st where "v = status_value st" using typed_get [OF _ Some] unfolding value_ok_def by blast
  then show ?thesis using Some by (simp add: dget_or_def)
next
  case None
  then show ?thesis by (simp add: dget_or_def del: status_value.simps)
qed

lemma typed_state_read: "typed T d \<Longrightarrow> \<exists>st. parse_state T j d w = (Inr st, w)"
proof -
  assume t: "typed T d"
  have k: "''attempts'' \<in> int_keys" "''pages_done'' \<in> int_keys" "''page_count'' \<in> int_keys"
    "''created_at'' \<in> time_keys" "''updated_at'' \<in> time_keys" by (simp_all add: int_keys_def time_keys_def)
  obtain st att pd pc ca ua where
    "parse_status (dget_or d ''status'' (status_value Queued)) = Inr st" "int_field d ''attempts'' = Inr att"
    "int_field d ''pages_done'' = Inr pd" "int_field d ''page_count'' = Inr pc" "time_field T d ''created_at'' = Inr ca"
    "time_field T d ''updated_at'' = Inr ua"
    using typed_status [OF t] typed_int [OF t k(1)] typed_int [OF t k(2)] typed_int [OF t k(3)]
      typed_time [OF t k(4)] typed_time [OF t k(5)] by blast
  then show ?thesis by (simp add: parse_state_def prog_defs del: status_value.simps)
qed

section \<open>The operations keep the type\<close>

lemma value_ok_status [simp]: "value_ok T ''status'' (status_value st)"
  by (auto simp: value_ok_def int_keys_def time_keys_def)

lemma value_ok_int: "k \<noteq> ''status'' \<Longrightarrow> k \<notin> time_keys \<Longrightarrow> value_ok T k (show_int n)"
  by (simp add: value_ok_def is_int_def)

lemma value_ok_time: "time_ok T \<Longrightarrow> k \<in> time_keys \<Longrightarrow> value_ok T k (iso T t)"
  by (auto simp: value_ok_def is_time_def time_ok_def time_keys_def int_keys_def)

lemma value_ok_other: "k \<noteq> ''status'' \<Longrightarrow> k \<notin> int_keys \<Longrightarrow> k \<notin> time_keys \<Longrightarrow> value_ok T k v"
  by (simp add: value_ok_def)

lemma values_ok_status: "time_ok T \<Longrightarrow> values_ok T (dict_some fs) \<Longrightarrow> values_ok T (status_dict T t st fs)"
  unfolding status_dict_def
  by (rule values_ok_update) (simp_all add: value_ok_time time_keys_def del: status_value.simps)

lemma typed_put_hash: "typed_store T s \<Longrightarrow> values_ok T d \<Longrightarrow> typed_store T (put_hash k d s)"
  by (simp add: typed_store_def typed_update)

lemma typed_other_parts: "typed_store T s \<Longrightarrow> s_hash s' = s_hash s \<Longrightarrow> typed_store T s'"
  by (simp add: typed_store_def)

named_theorems typed_rules "texts a job hash may have in its fields"

lemma typed_texts [typed_rules]:
  "values_ok T (dict_some [])"
  "value_ok T k v \<Longrightarrow> values_ok T (dict_some fs) \<Longrightarrow> values_ok T (dict_some ((k, Some v) # fs))"
  "values_ok T (dict_some fs) \<Longrightarrow> values_ok T (dict_some ((k, None) # fs))"
  by simp_all

lemma text_fields [typed_rules]:
  "value_ok T ''filename'' v" "value_ok T ''path'' v" "value_ok T ''sha256'' v" "value_ok T ''bytes'' v" "value_ok T ''tenant'' v"
  "value_ok T ''error'' v" "value_ok T ''started_at'' v" "value_ok T ''completed_at'' v" "value_ok T ''result_path'' v"
  "value_ok T ''pdf_path'' v" "value_ok T ''markdown_path'' v"
  by (rule value_ok_other; simp add: int_keys_def time_keys_def)+

lemma number_fields [typed_rules]:
  "value_ok T ''attempts'' (show_int n)" "value_ok T ''pages_done'' (show_int n)" "value_ok T ''page_count'' (show_int n)"
  "value_ok T ''pages_done'' (lit ''0'')"
proof -
  show *: "value_ok T ''attempts'' (show_int n)" "value_ok T ''pages_done'' (show_int n)" "value_ok T ''page_count'' (show_int n)" for n
    by (rule value_ok_int; simp add: time_keys_def)+
  show "value_ok T ''pages_done'' (lit ''0'')" using *(2) [of 0] by (simp add: show_int_def show_nat.simps lit_def)
qed

lemma optional_fields [typed_rules]:
  assumes "values_ok T (dict_some fs)"
  shows "values_ok T (dict_some ((''pdf_path'', x) # fs))" "values_ok T (dict_some ((''markdown_path'', x) # fs))"
    "values_ok T (dict_some ((''result_path'', x) # fs))"
  using assms by (cases x; simp add: text_fields)+

lemma value_ok_int_key: "k \<in> int_keys \<Longrightarrow> value_ok T k (show_int n)"
  by (rule value_ok_int) (auto simp: int_keys_def time_keys_def)

lemma created_field [typed_rules]: "time_ok T \<Longrightarrow> value_ok T ''created_at'' (iso T t)"
  by (rule value_ok_time) (simp_all add: time_keys_def)

context worker
begin

abbreviation "ok_store \<equiv> typed_store T"

lemma keeps_typed_xadd [keeps_rules]: "keeps view ok_store (xadd R k d b)"
  by (rule keeps_effect [OF xadd_effect]) (auto simp: does_xadd_def typed_store_def)

lemma keeps_typed_publish [keeps_rules]: "keeps view ok_store (publish_now R S T ty j t)"
  by (rule keeps_publish_now) (auto simp: does_xadd_def typed_store_def)

lemma keeps_typed_hincrby: "f \<in> int_keys \<Longrightarrow> keeps view ok_store (hincrby R k f n)"
proof (rule keeps_effect [OF hincrby_effect])
  fix s a s' assume f: "f \<in> int_keys" and s: "ok_store s" and h: "does_hincrby k f n s a s'"
  from h have "s' = put_hash k [(f, show_int a)] s" by (simp add: does_hincrby_def put_hash_def)
  then show "ok_store s'" using typed_put_hash [OF s, of "[(f, show_int a)]" k] value_ok_int_key [OF f, of T a] by simp
qed

lemma keeps_typed_ack [keeps_rules]: "keeps view ok_store (ack R S i)"
  unfolding ack_def
  by (intro keeps_rules keeps_effect [OF xack_effect] keeps_effect [OF xdel_effect])
    (simp_all add: does_xack_def does_xdel_def typed_store_def)

lemma keeps_typed_dead_letter [keeps_rules]: "keeps view ok_store (dead_letter R S sh job t)"
  unfolding dead_letter_def by (intro keeps_rules)

lemma keeps_typed_update_job: "values_ok T (dict_some fs) \<Longrightarrow> keeps view ok_store (update_job R j fs)"
  unfolding update_job_def Let_def
  by (intro keeps_rules keeps_effect [OF hset_effect])
    (auto simp: does_hset_def intro: typed_put_hash [unfolded put_hash_def])

lemma keeps_typed_set_status:
  "time_ok T \<Longrightarrow> values_ok T (dict_some fs) \<Longrightarrow> keeps view ok_store (set_status R S T j st fs)"
  unfolding set_status_def Let_def
  by (intro keeps_rules keeps_effect [OF hset_expire_effect])
    (auto simp: does_hset_def intro: typed_put_hash [unfolded put_hash_def] values_ok_status [unfolded status_dict_def])

lemma keeps_typed_mark_cancelled: "time_ok T \<Longrightarrow> keeps view ok_store (mark_cancelled R S T j)"
  unfolding mark_cancelled_def
  by (intro keeps_rules) (auto intro!: keeps_rules keeps_typed_set_status)

lemma keeps_typed_mark_completed: "time_ok T \<Longrightarrow> keeps view ok_store (mark_completed R S T j a n t)"
  unfolding mark_completed_def
  by (intro keeps_rules) (auto intro!: keeps_rules keeps_typed_set_status typed_rules simp del: dict_some_simps)

lemma keeps_typed_fail_job: "time_ok T \<Longrightarrow> keeps view ok_store (fail_job R S T sh job err perm)"
  unfolding fail_job_def Let_def
  by (intro keeps_rules keeps_typed_hincrby)
    (auto intro!: keeps_rules keeps_typed_set_status typed_rules simp: int_keys_def simp del: dict_some_simps)

lemma keeps_typed_finish_job:
  "time_ok T \<Longrightarrow> keeps view ok_store (finish_job R S T E j meta source att st wt pt ps)"
  unfolding finish_job_def Let_def
  by (intro keeps_rules) (auto intro!: keeps_rules keeps_typed_mark_completed)

lemma keeps_typed_process:
  assumes "time_ok T" and "\<And>j d. keeps view ok_store (page_results E j d)"
  shows "keeps view ok_store (process R S T E job)"
proof -
  have "keeps view ok_store (process_pages R S T E j d)" for j d
    unfolding process_pages_def by (intro keeps_rules assms(2) keeps_typed_mark_cancelled [OF assms(1)])
  moreover have "keeps view ok_store (update_job R j [(''page_count'', Some (show_int n))])" for j n
    by (intro keeps_typed_update_job typed_rules)
  ultimately have doc: "keeps view ok_store (process_document R S T E j meta att st wt)" for j meta att st wt
    unfolding process_document_def by (intro keeps_rules keeps_typed_finish_job [OF assms(1)])
  have "keeps view ok_store (hincrby R k ''attempts'' n)" for k n
    by (intro keeps_typed_hincrby) (simp add: int_keys_def)
  moreover have "keeps view ok_store (set_status R S T j Processing
      [(''started_at'', Some a), (''attempts'', Some (show_int b)), (''pages_done'', Some (lit ''0''))])" for j a b
    by (intro keeps_typed_set_status assms(1) typed_rules)
  ultimately show ?thesis
    unfolding process_def attempt_job_def Let_def by (intro keeps_rules doc keeps_typed_mark_cancelled [OF assms(1)])
qed

lemma keeps_typed_run_job:
  assumes "time_ok T" and "\<And>j d. keeps view ok_store (page_results E j d)"
  shows "keeps view ok_store (run_job R S T E job)"
  unfolding run_job_def
proof (intro keeps_rules keeps_typed_process assms)
  show "keeps view ok_store (case e of UnreadableDocument m \<Rightarrow> fail_job R S T (show_sid E) job (exn_str e) True
      | JobCancelled \<Rightarrow> ack R S (qj_entry_id job) | _ \<Rightarrow> fail_job R S T (show_sid E) job (exn_text e) False)" for e
    by (cases e; simp only: exn.case; intro keeps_typed_ack keeps_typed_fail_job [OF assms(1)])
qed

end

section \<open>Properties\<close>


lemma job_fields_ok: "time_ok T \<Longrightarrow> values_ok T (dict_some (job_fields T p fn blob pages c))"
  unfolding job_fields_def by (intro typed_rules)

lemma more_queued_fields:
  "dget (dict_update h (status_dict T t Queued (job_fields T p fn blob pages c))) ''pages_done'' = Some (show_int 0)"
  "dget (dict_update h (status_dict T t Queued (job_fields T p fn blob pages c))) ''updated_at'' = Some (iso T t)"
  "dget (dict_update h (status_dict T t Queued (job_fields T p fn blob pages c))) ''filename'' = Some (if fn \<noteq> [] then fn else sb_key blob)"
  by (simp_all add: status_dict_def job_fields_def)


section \<open>Witnesses\<close>

lemma decimal_read: "parse_int (show_nat n) = Some (int n)"
  using parse_show_int [of "int n"] by (simp add: show_int_def)

lemma mem_times_ok: "time_ok mem_time" "time_ok world_time"
  by (simp_all add: time_ok_def mem_time_def world_time_def decimal_read)

lemma values_ok_typed: "values_ok T d \<Longrightarrow> typed T d"
  by (auto simp: values_ok_def typed_def dget_def dest: map_of_SomeD)

lemma sample_world_typed: "typed_store T (db (sample_world st n fs))"
proof -
  have "values_ok T [(''status'', status_value st), (''path'', lit ''u/j1.pdf''), (''attempts'', show_int n)]"
    by (simp add: text_fields number_fields del: status_value.simps)
  then show ?thesis by (simp add: typed_store_def sample_world_def values_ok_typed del: status_value.simps)
qed



end
