(* ===== verification/Json_Reader.thy ===== *)
theory Json_Reader
  imports Py_Json
begin

text \<open>
  \<open>json.loads\<close>: a reader of JSON text, the inverse of \<open>dumps\<close>. The recursion is bounded by a fuel, of which the
  length of the text is enough. The value of a number with a fraction or an exponent is the parameter \<open>read_float\<close>.
  What is read is read as Python reads it, except that two escapes for the halves of a surrogate pair are not joined;
  of malformed text this reader accepts a little more (a control character inside a string, a leading zero).
\<close>

definition json_ws :: "nat \<Rightarrow> bool" where
  "json_ws c \<longleftrightarrow> c \<in> {32, 9, 10, 13}"

abbreviation skip_ws :: "pystr \<Rightarrow> pystr" where
  "skip_ws \<equiv> dropWhile json_ws"

definition number_char :: "nat \<Rightarrow> bool" where
  "number_char c \<longleftrightarrow> is_digit c \<or> c \<in> {45, 43, 46, 101, 69}"

definition whole :: "pystr \<Rightarrow> bool" where
  "whole t \<longleftrightarrow> (let d = (if t \<noteq> [] \<and> hd t = 45 then tl t else t) in d \<noteq> [] \<and> list_all is_digit d)"

definition read_number :: "(pystr \<Rightarrow> rat option) \<Rightarrow> pystr \<Rightarrow> (json \<times> pystr) option" where
  "read_number read_float s = (let t = takeWhile number_char s; rest = dropWhile number_char s in
     if whole t then map_option (\<lambda>n. (JInt n, rest)) (parse_int t)
     else map_option (\<lambda>x. (JFloat x, rest)) (read_float t))"

definition read_word :: "pystr \<Rightarrow> (json \<times> pystr) option" where
  "read_word s = (if startswith s (lit ''null'') then Some (JNull, drop 4 s)
     else if startswith s (lit ''true'') then Some (JBool True, drop 4 s)
     else if startswith s (lit ''false'') then Some (JBool False, drop 5 s) else None)"

definition token :: "nat \<Rightarrow> pystr \<Rightarrow> pystr option" where
  \<comment> \<open>what follows the character, if it comes next\<close>
  "token c s = (case skip_ws s of [] \<Rightarrow> None | d # r \<Rightarrow> if d = c then Some r else None)"

fun read_value :: "(pystr \<Rightarrow> rat option) \<Rightarrow> nat \<Rightarrow> pystr \<Rightarrow> (json \<times> pystr) option"
  and read_items :: "(pystr \<Rightarrow> rat option) \<Rightarrow> nat \<Rightarrow> pystr \<Rightarrow> (json list \<times> pystr) option"
  and read_pairs :: "(pystr \<Rightarrow> rat option) \<Rightarrow> nat \<Rightarrow> pystr \<Rightarrow> ((pystr \<times> json) list \<times> pystr) option" where
  "read_value rf 0 s = None"
| "read_value rf (Suc n) s = (case skip_ws s of [] \<Rightarrow> None
     | c # r \<Rightarrow> if c = 34 then map_option (apfst JStr) (read_str r)
       else if c = 91 then (case token 93 r of Some t \<Rightarrow> Some (JList [], t)
         | None \<Rightarrow> map_option (apfst JList) (read_items rf n r))
       else if c = 123 then (case token 125 r of Some t \<Rightarrow> Some (JObj [], t)
         | None \<Rightarrow> map_option (apfst JObj) (read_pairs rf n r))
       else if is_digit c \<or> c = 45 then read_number rf (c # r) else read_word (c # r))"
| "read_items rf 0 s = None"
| "read_items rf (Suc n) s = (case read_value rf n s of None \<Rightarrow> None
     | Some (v, t) \<Rightarrow> (case token 44 t of
         Some u \<Rightarrow> map_option (apfst ((#) v)) (read_items rf n u)
       | None \<Rightarrow> map_option (\<lambda>u. ([v], u)) (token 93 t)))"
| "read_pairs rf 0 s = None"
| "read_pairs rf (Suc n) s = (case Option.bind (token 34 s) read_str of None \<Rightarrow> None
     | Some (k, t) \<Rightarrow> (case Option.bind (token 58 t) (read_value rf n) of None \<Rightarrow> None
       | Some (v, y) \<Rightarrow> (case token 44 y of
           Some z \<Rightarrow> map_option (apfst ((#) (k, v))) (read_pairs rf n z)
         | None \<Rightarrow> map_option (\<lambda>z. ([(k, v)], z)) (token 125 y))))"

definition json_loads :: "(pystr \<Rightarrow> rat option) \<Rightarrow> pystr \<Rightarrow> exn + json" where
  "json_loads rf s = (case read_value rf (Suc (length s)) s of
       Some (v, t) \<Rightarrow> if skip_ws t = [] then Inr v else Inl (ValueError (lit ''Extra data''))
     | None \<Rightarrow> Inl (ValueError (lit ''JSONDecodeError'')))"

section \<open>Looking into a value\<close>

fun jiter :: "json \<Rightarrow> exn + json list" where
  \<comment> \<open>\<open>for x in value\<close>\<close>
  "jiter (JList xs) = Inr xs"
| "jiter (JObj kvs) = Inr (map (JStr \<circ> fst) kvs)"
| "jiter (JStr s) = Inr (map (\<lambda>c. JStr [c]) s)"
| "jiter _ = Inl (TypeError (lit ''object is not iterable''))"

fun jkey :: "json \<Rightarrow> pystr \<Rightarrow> exn + json" where
  \<comment> \<open>\<open>value[key]\<close>\<close>
  "jkey (JObj kvs) k = (case map_of (rev kvs) k of Some v \<Rightarrow> Inr v | None \<Rightarrow> Inl (KeyError k))"
| "jkey _ k = Inl (TypeError (lit ''indices must be integers''))"

fun jint :: "json \<Rightarrow> exn + int" where
  \<comment> \<open>\<open>int(value)\<close>\<close>
  "jint (JInt n) = Inr n"
| "jint (JBool b) = Inr (if b then 1 else 0)"
| "jint (JFloat x) = Inr (if 0 \<le> x then floor x else ceiling x)"
| "jint (JStr s) = (case parse_int s of Some n \<Rightarrow> Inr n | None \<Rightarrow> Inl (ValueError (lit ''invalid literal'')))"
| "jint _ = Inl (TypeError (lit ''int() argument''))"

section \<open>Reading what was written\<close>

fun floatless :: "json \<Rightarrow> bool" where
  "floatless (JFloat x) = False"
| "floatless (JList xs) = list_all floatless xs"
| "floatless (JObj kvs) = list_all (\<lambda>kv. floatless (snd kv)) kvs"
| "floatless _ = True"

definition stops :: "pystr \<Rightarrow> bool" where
  \<comment> \<open>a number before this text ends where the text begins\<close>
  "stops rest \<longleftrightarrow> rest = [] \<or> \<not> number_char (hd rest)"

lemma takeWhile_stop: "list_all P t \<Longrightarrow> rest = [] \<or> \<not> P (hd rest) \<Longrightarrow> takeWhile P (t @ rest) = t \<and> dropWhile P (t @ rest) = rest"
  by (induction t) (cases rest; simp)+

lemma show_int_number: "list_all number_char (show_int n)" "whole (show_int n)"
proof -
  have d: "list_all is_digit (show_nat k)" for k by (rule show_nat_digits)
  then have "list_all number_char (show_nat k)" for k
    by (rule list.pred_mono_strong) (simp add: number_char_def)
  then show "list_all number_char (show_int n)" by (simp add: show_int_def number_char_def)
  have "hd (show_nat k) \<noteq> 45" for k
    using d [of k] by (cases "show_nat k") (auto simp: is_digit_def)
  then show "whole (show_int n)" using d by (simp add: whole_def show_int_def)
qed

lemma read_number_int: "stops rest \<Longrightarrow> read_number rf (show_int n @ rest) = Some (JInt n, rest)"
  using takeWhile_stop [OF show_int_number(1), of rest n] show_int_number(2)
  by (simp add: read_number_def stops_def Let_def)

lemma show_int_Cons: "\<exists>c r. show_int n = c # r \<and> (is_digit c \<or> c = 45)"
proof (cases "show_int n")
  case (Cons c r)
  then show ?thesis using show_nat_digits [of "nat n"] show_int_number(1) [of n]
    by (auto simp: show_int_def split: if_splits)
qed simp

lemma token_simps [simp]:
  "token c (d # r) = (if json_ws d then token c r else if d = c then Some r else None)" "token c [] = None"
  by (simp_all add: token_def)

lemma json_ws_simps [simp]: "json_ws 32" "\<not> json_ws 34" "\<not> json_ws 44" "\<not> json_ws 58" "\<not> json_ws 91" "\<not> json_ws 93"
  "\<not> json_ws 123" "\<not> json_ws 125"
  by (simp_all add: json_ws_def)

lemma stops_simps [simp]: "stops (44 # s)" "stops (93 # s)" "stops (125 # s)" "stops []"
  by (simp_all add: stops_def number_char_def is_digit_def)

lemma json_str_Cons: "json_str s = 34 # tl (json_str s)"
  by (simp add: json_str_def)

lemma token_json_str: "token 125 (json_str k @ s) = None"
  by (simp add: json_str_def)

lemma dumps_length: "floatless v \<Longrightarrow> 0 < length (dumps sf v)"
  by (cases v) (auto simp: json_str_def lit_def)

lemma read_items_dumps:
  assumes "\<And>x n rest. x \<in> set xs \<Longrightarrow> floatless x \<Longrightarrow> length (dumps sf x) \<le> n \<Longrightarrow> stops rest \<Longrightarrow>
      read_value rf n (dumps sf x @ rest) = Some (x, rest)"
    and skip: "\<And>x n s. read_value rf n (32 # s) = read_value rf n s"
  shows "xs \<noteq> [] \<Longrightarrow> list_all floatless xs \<Longrightarrow> length (join (lit '', '') (map (dumps sf) xs)) < n \<Longrightarrow>
    read_items rf n (join (lit '', '') (map (dumps sf) xs) @ 93 # rest) = Some (xs, rest)"
  using assms(1)
proof (induction xs arbitrary: n)
  case (Cons x xs)
  then obtain m where n: "n = Suc m" by (cases n) simp_all
  show ?case
  proof (cases "xs = []")
    case True
    then show ?thesis using Cons.prems n by simp
  next
    case False
    let ?js = "join (lit '', '') (map (dumps sf) xs)"
    have j: "join (lit '', '') (map (dumps sf) (x # xs)) @ 93 # rest = dumps sf x @ 44 # 32 # ?js @ 93 # rest"
      using False by (simp add: join_Cons lit_def)
    have len: "length (dumps sf x) \<le> m" "length ?js < m" using Cons.prems(3) False n by (simp_all add: join_Cons lit_def)
    have "read_value rf m (dumps sf x @ 44 # 32 # ?js @ 93 # rest) = Some (x, 44 # 32 # ?js @ 93 # rest)"
      using Cons.prems(2,4) len(1) by simp
    moreover have "read_items rf m (?js @ 93 # rest) = Some (xs, rest)"
      using Cons.IH [OF False _ len(2)] Cons.prems(2,4) by simp
    moreover have "read_items rf m (32 # ?js @ 93 # rest) = read_items rf m (?js @ 93 # rest)"
      using skip by (cases m) simp_all
    ultimately show ?thesis unfolding j n by simp
  qed
qed simp

lemma read_pairs_dumps:
  assumes "\<And>k x n rest. (k, x) \<in> set kvs \<Longrightarrow> floatless x \<Longrightarrow> length (dumps sf x) \<le> n \<Longrightarrow> stops rest \<Longrightarrow>
      read_value rf n (dumps sf x @ rest) = Some (x, rest)"
    and skip: "\<And>x n s. read_value rf n (32 # s) = read_value rf n s"
  defines "show_pair \<equiv> \<lambda>(k, v). json_str k @ lit '': '' @ dumps sf v"
  shows "kvs \<noteq> [] \<Longrightarrow> list_all (\<lambda>kv. floatless (snd kv)) kvs \<Longrightarrow> length (join (lit '', '') (map show_pair kvs)) < n \<Longrightarrow>
    read_pairs rf n (join (lit '', '') (map show_pair kvs) @ 125 # rest) = Some (kvs, rest)"
  using assms(1)
proof (induction kvs arbitrary: n)
  case (Cons kv kvs)
  obtain k x where kv: "kv = (k, x)" by (cases kv)
  obtain m where n: "n = Suc m" using Cons.prems(3) by (cases n) simp_all
  have key: "Option.bind (token 34 (json_str k @ s)) read_str = Some (k, s)" for s
    using read_json_str [of k s] by (subst json_str_Cons) simp
  show ?case
  proof (cases "kvs = []")
    case True
    then have "read_value rf m (dumps sf x @ 125 # rest) = Some (x, 125 # rest)"
      using Cons.prems(2-4) n by (simp add: kv show_pair_def lit_def)
    then show ?thesis using True n by (simp add: kv show_pair_def key lit_def skip)
  next
    case False
    let ?js = "join (lit '', '') (map show_pair kvs)"
    have j: "join (lit '', '') (map show_pair (kv # kvs)) @ 125 # rest =
        json_str k @ 58 # 32 # dumps sf x @ 44 # 32 # ?js @ 125 # rest"
      using False by (simp add: join_Cons lit_def kv show_pair_def)
    have len: "length (dumps sf x) \<le> m" "length ?js < m"
      using Cons.prems(3) False n by (simp_all add: join_Cons lit_def kv show_pair_def)
    have "read_value rf m (dumps sf x @ 44 # 32 # ?js @ 125 # rest) = Some (x, 44 # 32 # ?js @ 125 # rest)"
      by (rule Cons.prems(4) [of k]) (use Cons.prems(2) len(1) in \<open>simp_all add: kv\<close>)
    moreover have "read_pairs rf m (?js @ 125 # rest) = Some (kvs, rest)"
      by (rule Cons.IH [OF False _ len(2)]) (use Cons.prems(2,4) in auto)
    moreover have "read_pairs rf m (32 # ?js @ 125 # rest) = read_pairs rf m (?js @ 125 # rest)"
      by (cases m) simp_all
    ultimately show ?thesis unfolding j n by (simp add: key skip kv)
  qed
qed simp

lemma skip_space: "read_value rf n (32 # s) = read_value rf n s"
  by (cases n) simp_all

lemma dumps_head: "floatless v \<Longrightarrow> \<exists>c r. dumps sf v = c # r \<and> \<not> json_ws c \<and> c \<noteq> 93"
proof (cases v)
  case (JInt n)
  then show ?thesis using show_int_Cons [of n] by (auto simp: json_ws_def is_digit_def)
next
  case (JStr s)
  then show ?thesis using json_str_Cons [of s] by auto
qed (auto simp: lit_def json_ws_def)

lemma not_closing: "floatless v \<Longrightarrow> token 93 (dumps sf v @ s) = None"
  using dumps_head [of v sf] by auto

lemma read_dumps:
  "floatless v \<Longrightarrow> length (dumps sf v) \<le> n \<Longrightarrow> stops rest \<Longrightarrow> read_value rf n (dumps sf v @ rest) = Some (v, rest)"
proof (induction v arbitrary: n rest)
  case JNull
  then show ?case
    by (cases n) (simp_all add: lit_def json_ws_def read_word_def startswith_def is_digit_def)
next
  case (JBool b)
  then show ?case
    by (cases n; cases b) (simp_all add: lit_def json_ws_def read_word_def startswith_def is_digit_def)
next
  case (JInt i)
  obtain c r where c: "show_int i = c # r" "is_digit c \<or> c = 45" using show_int_Cons [of i] by blast
  moreover from c(2) have "\<not> json_ws c" "c \<noteq> 34" "c \<noteq> 91" "c \<noteq> 123" by (auto simp: json_ws_def is_digit_def)
  moreover obtain m where "n = Suc m" using JInt.prems(2) c by (cases n) simp_all
  ultimately show ?case using read_number_int [OF JInt.prems(3), of rf i] by simp
next
  case (JStr s)
  obtain m where "n = Suc m" using JStr.prems(2) by (cases n) (simp_all add: json_str_def)
  then have "read_value rf n (34 # tl (json_str s) @ rest) = Some (JStr s, rest)"
    using read_json_str [of s rest] by simp
  then show ?case using json_str_Cons [of s] by (metis append_Cons dumps.simps(5))
next
  case (JList xs)
  obtain m where n: "n = Suc m" using JList.prems(2) by (cases n) simp_all
  show ?case
  proof (cases xs)
    case Nil
    then show ?thesis using n by simp
  next
    case (Cons x ys)
    have "token 93 (join (lit '', '') (map (dumps sf) xs) @ 93 # rest) = None"
      using not_closing [of x sf] JList.prems(1) Cons by (simp add: join_Cons)
    moreover have "read_items rf m (join (lit '', '') (map (dumps sf) xs) @ 93 # rest) = Some (xs, rest)"
      by (rule read_items_dumps [OF JList.IH skip_space]) (use JList.prems n Cons in \<open>simp_all del: join.simps\<close>)
    ultimately show ?thesis using n by simp
  qed
next
  case (JObj kvs)
  obtain m where n: "n = Suc m" using JObj.prems(2) by (cases n) simp_all
  show ?case
  proof (cases kvs)
    case Nil
    then show ?thesis using n by simp
  next
    case (Cons kv ys)
    let ?show = "\<lambda>(k, v). json_str k @ lit '': '' @ dumps sf v"
    obtain k x where kv: "kv = (k, x)" by (cases kv)
    have "token 125 (join (lit '', '') (map ?show kvs) @ 125 # rest) = None"
      using Cons by (auto simp: join_Cons kv token_json_str)
    moreover have "read_pairs rf m (join (lit '', '') (map ?show kvs) @ 125 # rest) = Some (kvs, rest)"
      by (rule read_pairs_dumps [OF JObj.IH skip_space]) (use JObj.prems n Cons in \<open>auto simp del: join.simps\<close>)
    ultimately show ?thesis using n by simp
  qed
qed simp

lemma loads_dumps: "floatless v \<Longrightarrow> json_loads rf (dumps sf v) = Inr v"
  using read_dumps [of v sf "Suc (length (dumps sf v))" "[]" rf] by (simp add: json_loads_def)

end
