(* ===== verification/Mock_Engine.thy ===== *)
theory Mock_Engine
  imports Engine Json_Reader Postprocess
begin

text \<open>
  \<open>serving/mock/server.py\<close>: the mock engine the pipeline is developed and tested against, as a function of its
  settings, of the draws of its random generators and of the request. The numbers \<open>random.Random(sha256(seed))\<close>
  draws are the parameter \<open>draw\<close>, the roll of \<open>random.random()\<close> the parameter \<open>roll\<close>, the completion id and the
  time are parameters, and the two sleeps are the clock readings of the exchange.
  The last section composes it with the client of \<open>common/engine.py\<close>.
\<close>

record mock =
  TOKENS :: int
  FAIL_RATE :: rat
  MODEL :: pystr

definition LEXICON :: "string list" where
  "LEXICON = [''invoice'', ''total'', ''amount'', ''due'', ''date'', ''customer'', ''address'', ''line'', ''item'',
     ''quantity'', ''unit'', ''price'', ''subtotal'', ''tax'', ''shipping'', ''handling'', ''payment'',
     ''terms'', ''net'', ''thirty'', ''reference'', ''number'', ''purchase'', ''order'', ''description'',
     ''account'', ''balance'', ''signature'', ''authorised'', ''representative'']"

fun mock_words :: "(nat \<Rightarrow> nat) \<Rightarrow> nat \<Rightarrow> pystr list" where
  \<comment> \<open>the list the loop has built after \<open>n\<close> rounds\<close>
  "mock_words draw 0 = []"
| "mock_words draw (Suc i) = mock_words draw i @ (if i \<noteq> 0 \<and> i mod 12 = 0 then [[10]] else []) @
     [lit (LEXICON ! (draw i mod length LEXICON))]"

definition deterministic_text :: "(pystr \<Rightarrow> nat \<Rightarrow> nat) \<Rightarrow> pystr \<Rightarrow> int \<Rightarrow> pystr list" where
  "deterministic_text draw seed n =
     List.map (\<lambda>(i, w). if w = [10] then w else if i \<noteq> 0 then 32 # w else w)
       (enumerate 0 (mock_words (draw seed) (nat n)))"

definition last256 :: "pystr \<Rightarrow> pystr" where
  "last256 s = drop (length s - 256) s"

fun parts_seed :: "json list \<Rightarrow> exn + pystr option" where
  "parts_seed [] = Inr None"
| "parts_seed (part # parts) = bindX (jget part (lit ''type'') JNull) (\<lambda>t.
     if t = JStr (lit ''image_url'') then
       bindX (jkey part (lit ''image_url'')) (\<lambda>iu. bindX (jkey iu (lit ''url'')) (\<lambda>url.
         case url of JStr s \<Rightarrow> Inr (Some (last256 s)) | JList _ \<Rightarrow> Inl attribute_error | _ \<Rightarrow> Inl (TypeError (lit ''not a string''))))
     else parts_seed parts)"

fun messages_seed :: "json list \<Rightarrow> exn + pystr" where
  "messages_seed [] = Inr (lit ''no-image'')"
| "messages_seed (m # ms) = bindX (jget m (lit ''content'') JNull) (\<lambda>content.
     case content of
       JList parts \<Rightarrow> bindX (parts_seed parts) (\<lambda>s. case s of Some seed \<Rightarrow> Inr seed | None \<Rightarrow> messages_seed ms)
     | _ \<Rightarrow> messages_seed ms)"

definition image_seed :: "json \<Rightarrow> exn + pystr" where
  "image_seed messages = bindX (jiter messages) messages_seed"

datatype mock_response = Answer json | Frames "pystr list"

definition data_frame :: "json \<Rightarrow> pystr" where
  "data_frame v = lit ''data: '' @ dumps_ascii (\<lambda>_. []) v @ [10, 10]"

definition chunk_json :: "mock \<Rightarrow> pystr \<Rightarrow> int \<Rightarrow> (pystr \<times> json) list \<Rightarrow> json \<Rightarrow> json" where
  "chunk_json m cid created delta finish =
     JObj [(lit ''id'', JStr cid), (lit ''object'', JStr (lit ''chat.completion.chunk'')), (lit ''created'', JInt created),
       (lit ''model'', JStr (MODEL m)),
       (lit ''choices'', JList [JObj [(lit ''index'', JInt 0), (lit ''delta'', JObj delta), (lit ''finish_reason'', finish)]])]"

definition usage_json :: "nat \<Rightarrow> json" where
  "usage_json n = JObj [(lit ''prompt_tokens'', JInt 512), (lit ''completion_tokens'', JInt (int n)),
     (lit ''total_tokens'', JInt (512 + int n))]"

definition usage_chunk :: "mock \<Rightarrow> pystr \<Rightarrow> int \<Rightarrow> nat \<Rightarrow> json" where
  "usage_chunk m cid created n =
     JObj [(lit ''id'', JStr cid), (lit ''object'', JStr (lit ''chat.completion.chunk'')), (lit ''created'', JInt created),
       (lit ''model'', JStr (MODEL m)), (lit ''choices'', JList []), (lit ''usage'', usage_json n)]"

definition generate :: "mock \<Rightarrow> pystr \<Rightarrow> int \<Rightarrow> bool \<Rightarrow> pystr list \<Rightarrow> pystr list" where
  "generate m cid created include_usage pieces =
     [data_frame (chunk_json m cid created [(lit ''role'', JStr (lit ''assistant'')), (lit ''content'', JStr [])] JNull)] @
     List.map (\<lambda>p. data_frame (chunk_json m cid created [(lit ''content'', JStr p)] JNull)) pieces @
     [data_frame (chunk_json m cid created [] (JStr (lit ''stop'')))] @
     (if include_usage then [data_frame (usage_chunk m cid created (length pieces))] else []) @
     [lit ''data: [DONE]'' @ [10, 10]]"

definition completion_json :: "mock \<Rightarrow> pystr \<Rightarrow> int \<Rightarrow> pystr list \<Rightarrow> json" where
  "completion_json m cid created pieces =
     JObj [(lit ''id'', JStr cid), (lit ''object'', JStr (lit ''chat.completion'')), (lit ''created'', JInt created),
       (lit ''model'', JStr (MODEL m)),
       (lit ''choices'', JList [JObj [(lit ''index'', JInt 0),
          (lit ''message'', JObj [(lit ''role'', JStr (lit ''assistant'')), (lit ''content'', JStr (concat pieces))]),
          (lit ''finish_reason'', JStr (lit ''stop''))]]),
       (lit ''usage'', usage_json (length pieces))]"

definition chat_completions ::
  "mock \<Rightarrow> (pystr \<Rightarrow> nat \<Rightarrow> nat) \<Rightarrow> rat \<Rightarrow> pystr \<Rightarrow> int \<Rightarrow> json \<Rightarrow> exn + mock_response" where
  "chat_completions m draw roll cid created req =
     (if FAIL_RATE m \<noteq> 0 \<and> roll < FAIL_RATE m then Inl (HTTPException 503 (lit ''mock engine overloaded''))
      else
        bindX (jget req (lit ''messages'') (JList [])) (\<lambda>messages.
        bindX (jget req (lit ''max_tokens'') JNull) (\<lambda>mt.
        bindX (if truthy mt then jint mt else Inr (TOKENS m)) (\<lambda>wanted.
        bindX (image_seed messages) (\<lambda>seed.
          let pieces = deterministic_text draw seed (min wanted (TOKENS m)) in
        bindX (jget req (lit ''stream'') JNull) (\<lambda>stream.
          if \<not> truthy stream then Inr (Answer (completion_json m cid created pieces))
          else
            bindX (jget req (lit ''stream_options'') JNull) (\<lambda>so.
            bindX (jget (if truthy so then so else JObj []) (lit ''include_usage'') JNull) (\<lambda>iu.
              Inr (Frames (generate m cid created (truthy iu) pieces))))))))))"

section \<open>The pieces\<close>

lemma mock_words_length: "length (mock_words draw n) = n + (n - 1) div 12"
proof (induction n)
  case (Suc n)
  show ?case
  proof (cases "n \<noteq> 0 \<and> n mod 12 = 0")
    case True
    then obtain k where "n = 12 * Suc k" by (metis mod_0_imp_dvd dvdE mult_0_right not0_implies_Suc)
    then have "Suc ((n - 1) div 12) = n div 12" by simp
    then show ?thesis using Suc True by simp
  next
    case False
    then have "(n - 1) div 12 = n div 12" by (cases n) (auto simp: div_Suc)
    then show ?thesis using Suc False by auto
  qed
qed simp

lemma LEXICON_words: "w \<in> set LEXICON \<Longrightarrow> w \<noteq> [] \<and> list_all (\<lambda>c. 32 < c \<and> c < 127) (lit w)"
  by (auto simp: LEXICON_def lit_def)

definition plain :: "pystr \<Rightarrow> bool" where
  \<comment> \<open>ASCII without the control characters\<close>
  "plain s \<longleftrightarrow> (\<forall>c\<in>set s. 32 \<le> c \<and> c < 127)"

lemma mock_words_plain: "w \<in> set (mock_words draw n) \<Longrightarrow> w = [10] \<or> (w \<noteq> [] \<and> plain w)"
proof (induction n)
  case (Suc n)
  have "LEXICON ! (draw n mod length LEXICON) \<in> set LEXICON"
    by (rule nth_mem) (simp add: LEXICON_def)
  then show ?case using Suc LEXICON_words by (fastforce simp: plain_def list_all_iff lit_def split: if_splits)
qed simp

lemma piece_plain: "p \<in> set (deterministic_text draw seed n) \<Longrightarrow> p = [10] \<or> (p \<noteq> [] \<and> plain p)"
proof -
  assume "p \<in> set (deterministic_text draw seed n)"
  then obtain i w where "(i, w) \<in> set (enumerate 0 (mock_words (draw seed) (nat n)))"
    and p: "p = (if w = [10] then w else if i \<noteq> 0 then 32 # w else w)"
    by (auto simp: deterministic_text_def)
  then have "w \<in> set (mock_words (draw seed) (nat n))" by (auto simp: enumerate_eq_zip dest: set_zip_rightD)
  then show ?thesis using mock_words_plain [of w "draw seed" "nat n"] p by (auto simp: plain_def)
qed

lemma deterministic_text_length: "length (deterministic_text draw seed n) = nat n + (nat n - 1) div 12"
  by (simp add: deterministic_text_def mock_words_length)

section \<open>On the wire\<close>

fun ascii_json :: "json \<Rightarrow> bool" where
  "ascii_json (JStr s) = list_all (\<lambda>c. c < 127) s"
| "ascii_json (JList xs) = list_all ascii_json xs"
| "ascii_json (JObj kvs) = list_all (\<lambda>kv. list_all (\<lambda>c. c < 127) (fst kv) \<and> ascii_json (snd kv)) kvs"
| "ascii_json (JFloat x) = False"
| "ascii_json _ = True"

lemma plain_simps [simp]: "plain []" "plain (c # s) \<longleftrightarrow> 32 \<le> c \<and> c < 127 \<and> plain s" "plain (s @ t) \<longleftrightarrow> plain s \<and> plain t"
  by (auto simp: plain_def)

lemma plain_json_str: "list_all (\<lambda>c. c < 127) s \<Longrightarrow> plain (json_str s)"
proof -
  have "plain (escape1 c)" if "c < 127" for c
  proof -
    have "c div 16 < 8" using that by auto
    then show ?thesis using that by (auto simp: escape1_def hex_digit_def)
  qed
  then show "list_all (\<lambda>c. c < 127) s \<Longrightarrow> plain (json_str s)"
    by (induction s) (auto simp: json_str_def)
qed

lemma plain_join: "plain sep \<Longrightarrow> \<forall>s\<in>set ss. plain s \<Longrightarrow> plain (join sep ss)"
  by (induction sep ss rule: join.induct) auto

lemma plain_show_int: "plain (show_int n)"
proof -
  have "plain (show_nat k)" for k
    using show_nat_digits [of k] by (auto simp: plain_def is_digit_def list_all_iff)
  then show ?thesis by (simp add: show_int_def)
qed

lemma plain_dumps: "ascii_json v \<Longrightarrow> plain (dumps sf v)"
  by (induction sf v rule: dumps.induct)
    (force simp: lit_def plain_json_str plain_show_int list_all_iff intro!: plain_join)+

lemma ascii_floatless: "ascii_json v \<Longrightarrow> floatless v"
  by (induction v rule: floatless.induct) (auto simp: list_all_iff)

lemma dumps_ascii_plain: "ascii_json v \<Longrightarrow> dumps_ascii sf v = dumps sf v"
proof -
  have "plain s \<Longrightarrow> concat (map ascii1 s) = s" for s
    by (induction s) (auto simp: ascii1_def)
  then show "ascii_json v \<Longrightarrow> dumps_ascii sf v = dumps sf v"
    using plain_dumps by (simp add: dumps_ascii_def)
qed

definition data_line :: "json \<Rightarrow> pystr" where
  "data_line v = lit ''data: '' @ dumps (\<lambda>_. []) v"

lemma plain_splitlines: "plain s \<Longrightarrow> s \<noteq> [] \<Longrightarrow> splitlines (s @ [10, 10] @ rest) = s # [] # splitlines rest"
proof -
  assume "plain s" "s \<noteq> []"
  then have "splitlines (s @ 10 # (10 # rest)) = s # splitlines (10 # rest)"
    by (intro splitlines_single) (auto simp: plain_def is_linebreak_def)
  then show ?thesis by (simp add: splitlines_lf del: splitlines.simps)
qed

lemma splitlines_frame: "ascii_json v \<Longrightarrow> splitlines (data_frame v @ rest) = data_line v # [] # splitlines rest"
proof -
  assume v: "ascii_json v"
  have "plain (data_line v)" "data_line v \<noteq> []" using plain_dumps [OF v] by (simp_all add: data_line_def lit_def)
  from plain_splitlines [OF this] show ?thesis
    using v by (simp add: data_frame_def data_line_def dumps_ascii_plain del: splitlines.simps)
qed

lemma splitlines_frames:
  "list_all ascii_json vs \<Longrightarrow> splitlines (concat (List.map data_frame vs) @ rest) =
     concat (List.map (\<lambda>v. [data_line v, []]) vs) @ splitlines rest"
  by (induction vs) (simp_all add: splitlines_frame del: splitlines.simps)


section \<open>One exchange with the client\<close>

fun timed :: "(nat \<Rightarrow> rat) \<Rightarrow> nat \<Rightarrow> pystr list \<Rightarrow> (rat \<times> pystr) list" where
  \<comment> \<open>the lines with the clock readings at which they arrive\<close>
  "timed clock k [] = []"
| "timed clock k (l # ls) = (clock k, l) # timed clock (Suc k) ls"

definition mock_exchange ::
  "mock \<Rightarrow> (pystr \<Rightarrow> nat \<Rightarrow> nat) \<Rightarrow> (nat \<Rightarrow> rat) \<Rightarrow> pystr \<Rightarrow> int \<Rightarrow> json \<Rightarrow> rat \<Rightarrow> reply" where
  \<comment> \<open>the mock's answer as the client sees it: an exception is an error response, the frames are read line by line\<close>
  "mock_exchange m draw clock cid created req roll =
     (case chat_completions m draw roll cid created req of
        Inl (HTTPException c d) \<Rightarrow> \<lparr>refused = None, status_code = c,
          body = timed clock 0 [dumps (\<lambda>_. []) (JObj [(lit ''detail'', JStr d)])], broken = None,
          started = clock 0, ended = clock 1\<rparr>
      | Inl e \<Rightarrow> \<lparr>refused = None, status_code = 500, body = timed clock 0 [lit ''Internal Server Error''], broken = None,
          started = clock 0, ended = clock 1\<rparr>
      | Inr (Answer v) \<Rightarrow> \<lparr>refused = None, status_code = 200, body = timed clock 0 [dumps (\<lambda>_. []) v], broken = None,
          started = clock 0, ended = clock 1\<rparr>
      | Inr (Frames fs) \<Rightarrow> let ls = splitlines (concat fs) in
          \<lparr>refused = None, status_code = 200, body = timed clock 0 ls, broken = None,
           started = clock 0, ended = clock (length ls)\<rparr>)"

definition lines_of :: "json \<Rightarrow> pystr list" where
  "lines_of v = [data_line v, []]"

lemma data_line_loads:
  assumes "floatless (JObj kvs)"
  shows "startswith (data_line (JObj kvs)) (lit ''data:'')"
    and "strip (drop 5 (data_line (JObj kvs))) \<noteq> lit ''[DONE]''"
    and "json_loads rf (strip (drop 5 (data_line (JObj kvs)))) = Inr (JObj kvs)"
proof -
  have "strip (drop 5 (data_line (JObj kvs))) = dumps (\<lambda>_. []) (JObj kvs)"
    by (simp add: data_line_def lit_def strip_def lstrip_def rstrip_def is_ws_def)
  then show "strip (drop 5 (data_line (JObj kvs))) \<noteq> lit ''[DONE]''"
    and "json_loads rf (strip (drop 5 (data_line (JObj kvs)))) = Inr (JObj kvs)"
    using loads_dumps [OF assms] by (simp_all add: lit_def)
  show "startswith (data_line (JObj kvs)) (lit ''data:'')"
    by (simp add: data_line_def startswith_def lit_def)
qed

lemma blank_line: "\<not> startswith [] (lit ''data:'')"
  by (simp add: startswith_def lit_def)

lemma chunk_json_facts:
  "take_usage (chunk_json m cid created delta finish) ct pt = Inr (ct, pt)"
  "take_delta (chunk_json m cid created delta finish) = jget (JObj delta) (lit ''content'') JNull"
  by (simp_all add: chunk_json_def take_usage_def take_delta_def lit_inject)

lemma usage_chunk_facts:
  "take_usage (usage_chunk m cid created n) ct pt = Inr (if n = 0 then ct else int n, 512)"
  "take_delta (usage_chunk m cid created n) = Inr JNull"
  by (simp_all add: usage_chunk_def usage_json_def take_usage_def take_delta_def count_or_def lit_inject)

lemma consume_silent:
  assumes "floatless v" "v = JObj kvs" "take_delta v = Inr d" "\<not> truthy d"
    and "take_usage v (completion_tokens s) (prompt_tokens s) = Inr (ct, pt)"
  shows "consume_lines (json_loads rf) f st b (timed clock k (lines_of v @ rest)) em (s, w) =
    consume_lines (json_loads rf) f st b (timed clock (k + 2) rest) em (s\<lparr>completion_tokens := ct, prompt_tokens := pt\<rparr>, w)"
  using assms data_line_loads [of kvs] by (simp add: lines_of_def blank_line stats_prog_defs Let_def)

lemma consume_piece:
  assumes "floatless v" "v = JObj kvs" "take_delta v = Inr (JStr d)" "d \<noteq> []"
    and "\<And>ct pt. take_usage v ct pt = Inr (ct, pt)" and "prompt_tokens s = 0"
  shows "\<exists>s1. consume_lines (json_loads rf) (Some recorder) st b (timed clock k (lines_of v @ rest)) em (s, w) =
      consume_lines (json_loads rf) (Some recorder) st b (timed clock (k + 2) rest) True (s1, w @ [d]) \<and>
    out s1 = out s @ d \<and> attempts s1 = attempts s \<and> counted s s1 [d]"
proof -
  obtain s1 where "emit (Some recorder) st (clock k) em d (s\<lparr>prompt_tokens := 0\<rparr>, w) = (Inr (), s1, w @ [d])"
    "out s1 = out s @ d" "attempts s1 = attempts s" "counted s s1 [d]"
    using emit_recorder [of st "clock k" em d "s\<lparr>prompt_tokens := 0\<rparr>" w] by (auto simp: counted_def)
  then show ?thesis
    using assms data_line_loads [of kvs] by (auto simp: lines_of_def blank_line stats_prog_defs Let_def)
qed

lemma chunk_json_object: "\<exists>kvs. chunk_json m cid created delta finish = JObj kvs"
  "\<exists>kvs. usage_chunk m cid created n = JObj kvs"
  by (simp_all add: chunk_json_def usage_chunk_def)

lemma consume_pieces:
  assumes "\<forall>p\<in>set pieces. p \<noteq> [] \<and> floatless (chunk_json m cid created [(lit ''content'', JStr p)] JNull)"
    and "prompt_tokens s = 0"
  shows "\<exists>s1 em1. consume_lines (json_loads rf) (Some recorder) st b (timed clock k
        (concat (List.map (\<lambda>p. lines_of (chunk_json m cid created [(lit ''content'', JStr p)] JNull)) pieces) @ rest)) em (s, w) =
      consume_lines (json_loads rf) (Some recorder) st b (timed clock (k + 2 * length pieces) rest) em1 (s1, w @ pieces) \<and>
    out s1 = out s @ concat pieces \<and> attempts s1 = attempts s \<and> counted s s1 pieces"
  using assms
proof (induction pieces arbitrary: s w k em)
  case Nil
  then show ?case by (auto simp: counted_def)
next
  case (Cons p ps)
  let ?v = "chunk_json m cid created [(lit ''content'', JStr p)] JNull"
  let ?rest = "concat (List.map (\<lambda>p. lines_of (chunk_json m cid created [(lit ''content'', JStr p)] JNull)) ps) @ rest"
  have delta: "take_delta ?v = Inr (JStr p)" by (simp add: chunk_json_facts)
  obtain kvs where v: "?v = JObj kvs" using chunk_json_object(1) by blast
  have ok: "floatless ?v" "p \<noteq> []" "prompt_tokens s = 0" using Cons.prems by simp_all
  obtain s1 where s1: "consume_lines (json_loads rf) (Some recorder) st b (timed clock k (lines_of ?v @ ?rest)) em (s, w) =
      consume_lines (json_loads rf) (Some recorder) st b (timed clock (k + 2) ?rest) True (s1, w @ [p])"
    "out s1 = out s @ p" "attempts s1 = attempts s" "counted s s1 [p]"
    using consume_piece [OF ok(1) v delta ok(2) chunk_json_facts(1) ok(3), of rf st b clock k ?rest em w] by blast
  moreover from s1(4) have "prompt_tokens s1 = 0" by (simp add: counted_def)
  note IH = Cons.IH [OF _ this, of "k + 2" True "w @ [p]"]
  ultimately show ?case using IH Cons.prems by (auto simp: counted_def)
qed

lemma end_of_stream: "strip (drop 5 (lit ''data: [DONE]'')) = lit ''[DONE]''" "startswith (lit ''data: [DONE]'') (lit ''data:'')"
  by (simp_all add: startswith_def strip_def lstrip_def rstrip_def is_ws_def lit_def)

abbreviation ascii :: "pystr \<Rightarrow> bool" where
  "ascii \<equiv> list_all (\<lambda>c. c < 127)"

lemma chunk_ascii:
  "ascii (MODEL m) \<Longrightarrow> ascii cid \<Longrightarrow> ascii_json (JObj delta) \<Longrightarrow> ascii_json finish \<Longrightarrow>
     ascii_json (chunk_json m cid created delta finish)"
  "ascii (MODEL m) \<Longrightarrow> ascii cid \<Longrightarrow> ascii_json (usage_chunk m cid created n)"
  by (simp_all add: chunk_json_def usage_chunk_def usage_json_def lit_def)

lemma piece_ascii: "p \<in> set (deterministic_text draw seed n) \<Longrightarrow> p \<noteq> [] \<and> ascii p"
  using piece_plain [of p draw seed n] by (auto simp: plain_def list_all_iff)

lemma generate_lines:
  assumes "ascii (MODEL m)" "ascii cid" "\<forall>p\<in>set pieces. ascii p"
  shows "splitlines (concat (generate m cid created True pieces)) =
    lines_of (chunk_json m cid created [(lit ''role'', JStr (lit ''assistant'')), (lit ''content'', JStr [])] JNull) @
    concat (List.map (\<lambda>p. lines_of (chunk_json m cid created [(lit ''content'', JStr p)] JNull)) pieces) @
    lines_of (chunk_json m cid created [] (JStr (lit ''stop''))) @ lines_of (usage_chunk m cid created (length pieces)) @
    [lit ''data: [DONE]'', []]"
proof -
  let ?first = "chunk_json m cid created [(lit ''role'', JStr (lit ''assistant'')), (lit ''content'', JStr [])] JNull"
  let ?vs = "List.map (\<lambda>p. chunk_json m cid created [(lit ''content'', JStr p)] JNull) pieces"
  let ?stop = "chunk_json m cid created [] (JStr (lit ''stop''))" and ?usage = "usage_chunk m cid created (length pieces)"
  have lits: "ascii (lit ''role'')" "ascii (lit ''assistant'')" "ascii (lit ''content'')" "ascii (lit ''stop'')"
    by (simp_all add: lit_def)
  have "list_all ascii_json (?first # ?vs @ [?stop, ?usage])"
    using assms lits by (auto simp: list_all_iff [of ascii_json] intro!: chunk_ascii)
  then have "splitlines (concat (List.map data_frame (?first # ?vs @ [?stop, ?usage])) @ lit ''data: [DONE]'' @ [10, 10] @ []) =
      concat (List.map (\<lambda>v. [data_line v, []]) (?first # ?vs @ [?stop, ?usage])) @ splitlines (lit ''data: [DONE]'' @ [10, 10] @ [])"
    by (rule splitlines_frames)
  moreover have "splitlines (lit ''data: [DONE]'' @ [10, 10] @ []) = [lit ''data: [DONE]'', []]"
    by (subst plain_splitlines) (simp_all add: lit_def)
  moreover have "concat (generate m cid created True pieces) =
      concat (List.map data_frame (?first # ?vs @ [?stop, ?usage])) @ lit ''data: [DONE]'' @ [10, 10] @ []"
    by (simp add: generate_def comp_def)
  ultimately show ?thesis by (simp add: lines_of_def comp_def)
qed

lemma stream_consumed:
  assumes "ascii (MODEL m)" "ascii cid" "\<forall>p\<in>set pieces. p \<noteq> [] \<and> ascii p"
    and "prompt_tokens s = 0" "completion_tokens s = 0"
  shows "\<exists>s' em. consume_lines (json_loads rf) (Some recorder) st b
      (timed clock 0 (splitlines (concat (generate m cid created True pieces)))) False (s, w) = (Inr em, s', w @ pieces) \<and>
    out s' = out s @ concat pieces \<and> attempts s' = attempts s \<and> prompt_tokens s' = 512 \<and>
    completion_tokens s' = int (length pieces)"
proof -
  let ?first = "chunk_json m cid created [(lit ''role'', JStr (lit ''assistant'')), (lit ''content'', JStr [])] JNull"
  let ?piece = "\<lambda>p. chunk_json m cid created [(lit ''content'', JStr p)] JNull"
  let ?stop = "chunk_json m cid created [] (JStr (lit ''stop''))" and ?usage = "usage_chunk m cid created (length pieces)"
  let ?fin = "[lit ''data: [DONE]'', []]"
  let ?go = "\<lambda>k ls em. consume_lines (json_loads rf) (Some recorder) st b (timed clock k ls) em"
  have lits: "ascii (lit ''role'')" "ascii (lit ''assistant'')" "ascii (lit ''content'')" "ascii (lit ''stop'')"
    by (simp_all add: lit_def)
  have fl: "floatless ?first" "floatless ?stop" "floatless ?usage" "\<forall>p\<in>set pieces. p \<noteq> [] \<and> floatless (?piece p)"
    using assms lits by (auto intro!: ascii_floatless chunk_ascii)
  obtain k1 k2 k3 where obj: "?first = JObj k1" "?stop = JObj k2" "?usage = JObj k3" by (meson chunk_json_object)
  have d: "take_delta ?first = Inr (JStr [])" "take_delta ?stop = Inr JNull"
    by (simp_all add: chunk_json_facts lit_inject)
  let ?rest = "lines_of ?stop @ lines_of ?usage @ ?fin"
  have "?go 0 (lines_of ?first @ concat (List.map (\<lambda>p. lines_of (?piece p)) pieces) @ ?rest) False (s, w) =
      ?go 2 (concat (List.map (\<lambda>p. lines_of (?piece p)) pieces) @ ?rest) False (s, w)"
    using consume_silent [where s = s and f = "Some recorder" and k = 0 and em = False and w = w, OF fl(1) obj(1) d(1) _ chunk_json_facts(1)]
    by (simp add: numeral_2_eq_2)
  moreover obtain s1 em1 where s1:
      "?go 2 (concat (List.map (\<lambda>p. lines_of (?piece p)) pieces) @ ?rest) False (s, w) =
        ?go (2 + 2 * length pieces) ?rest em1 (s1, w @ pieces)"
      "out s1 = out s @ concat pieces" "attempts s1 = attempts s" "counted s s1 pieces"
    using consume_pieces [OF fl(4) assms(4), of rf st b clock 2 ?rest False w] by blast
  moreover have "?go k ?rest em1 (s1, w @ pieces) = ?go (k + 2) (lines_of ?usage @ ?fin) em1 (s1, w @ pieces)" for k
    using consume_silent [where s = s1 and f = "Some recorder" and k = k and em = em1 and w = "w @ pieces",
        OF fl(2) obj(2) d(2) _ chunk_json_facts(1)] by simp
  moreover have "?go k (lines_of ?usage @ ?fin) em1 (s1, w @ pieces) = ?go (k + 2) ?fin em1
      (s1\<lparr>completion_tokens := (if length pieces = 0 then completion_tokens s1 else int (length pieces)), prompt_tokens := 512\<rparr>,
       w @ pieces)" for k
    using consume_silent [where s = s1 and f = "Some recorder" and k = k and rest = ?fin and em = em1 and w = "w @ pieces",
        OF fl(3) obj(3) usage_chunk_facts(2) _ usage_chunk_facts(1)] by simp
  moreover have "?go k ?fin em1 x = (Inr em1, x)" for k x
    by (simp add: end_of_stream prog_defs)
  ultimately show ?thesis
    using generate_lines [OF assms(1,2), of pieces created] assms(3,5) s1(2-4) by (auto simp: counted_def)
qed

section \<open>The client against the mock\<close>

definition fails_now :: "mock \<Rightarrow> rat \<Rightarrow> bool" where
  "fails_now m roll \<longleftrightarrow> FAIL_RATE m \<noteq> 0 \<and> roll < FAIL_RATE m"

definition mock_pieces :: "mock \<Rightarrow> (pystr \<Rightarrow> nat \<Rightarrow> nat) \<Rightarrow> ocr_client \<Rightarrow> byte list \<Rightarrow> pystr list" where
  \<comment> \<open>what the mock writes for this client and this image\<close>
  "mock_pieces m draw c png = deterministic_text draw (last256 (png_to_data_uri png))
     (min (if max_tokens c = 0 then TOKENS m else max_tokens c) (TOKENS m))"

lemma payload_seed: "image_seed (JList [JObj [(lit ''role'', r), (lit ''content'', JList
    [JObj [(lit ''type'', JStr (lit ''image_url'')), (lit ''image_url'', JObj [(lit ''url'', JStr u)])], part])]]) = Inr (last256 u)"
  by (simp add: image_seed_def lit_inject)

lemma payload_pieces:
  "\<not> fails_now m roll \<Longrightarrow> chat_completions m draw roll cid created (payload c png True prompt) =
     Inr (Frames (generate m cid created True (mock_pieces m draw c png)))"
  by (simp add: chat_completions_def fails_now_def payload_def payload_seed mock_pieces_def lit_inject Let_def)

lemma fails_now_exchange:
  "fails_now m roll \<Longrightarrow> consume_stream loads f (mock_exchange m draw clock cid created req roll) sw =
     (Inl (HTTPStatusError 503 (lit ''error response'')), sw)"
  by (simp add: fails_now_def chat_completions_def mock_exchange_def consume_stream_def prog_defs)

lemma mock_consumed:
  assumes "\<not> fails_now m roll" "ascii (MODEL m)" "ascii cid" "prompt_tokens s = 0" "completion_tokens s = 0"
  shows "\<exists>s' em. consume_stream (json_loads rf) (Some recorder)
      (mock_exchange m draw clock cid created (payload c png True prompt) roll) (s, w) =
        (Inr em, s', w @ mock_pieces m draw c png) \<and>
    out s' = out s @ concat (mock_pieces m draw c png) \<and> attempts s' = attempts s \<and> prompt_tokens s' = 512 \<and>
    completion_tokens s' = int (length (mock_pieces m draw c png))"
  using stream_consumed [OF assms(2,3) _ assms(4,5), of "mock_pieces m draw c png"] piece_ascii
  by (simp add: mock_exchange_def payload_pieces [OF assms(1)] consume_stream_def Let_def mock_pieces_def)

lemma mock_attempts:
  assumes "int n = retries + 2 - a" "a + int k \<le> retries + 1"
    and "\<forall>j<k. fails_now m (roll (a + int j))" "\<not> fails_now m (roll (a + int k))"
    and "ascii (MODEL m)" "\<forall>a. ascii (cid a)" "out s = []" "prompt_tokens s = 0" "completion_tokens s = 0"
    and replies_def: "replies = (\<lambda>a. mock_exchange m draw (clock a) (cid a) (created a) (payload c png True prompt) (roll a))"
  shows "\<exists>s'. attempt_loop (json_loads rf) (Some recorder) replies retries n a (s, w) = (s', w @ mock_pieces m draw c png) \<and>
    out s' = concat (mock_pieces m draw c png) \<and> attempts s' = a + int k \<and> error s' = None \<and> prompt_tokens s' = 512 \<and>
    completion_tokens s' = int (length (mock_pieces m draw c png))"
  using assms(1-4,7-9)
proof (induction k arbitrary: n a s)
  case 0
  obtain n' where n: "n = Suc n'" using 0 by (cases n) simp_all
  obtain s' em where "consume_stream (json_loads rf) (Some recorder) (replies a) (s\<lparr>attempts := a\<rparr>, w) =
        (Inr em, s', w @ mock_pieces m draw c png)"
    "out s' = concat (mock_pieces m draw c png)" "attempts s' = a" "prompt_tokens s' = 512"
    "completion_tokens s' = int (length (mock_pieces m draw c png))"
    using mock_consumed [of m "roll a" "cid a" "s\<lparr>attempts := a\<rparr>" rf draw "clock a" "created a" c png prompt w] 0 assms(5,6)
    by (auto simp: replies_def)
  then show ?case by (simp add: n Let_def)
next
  case (Suc k)
  obtain n' where n: "n = Suc n'" using Suc.prems by (cases n) simp_all
  let ?e = "HTTPStatusError 503 (lit ''error response'')"
  let ?s = "s\<lparr>attempts := a, e2e_s := ended (replies a) - started (replies a), error := Some (exn_text ?e),
      out := [], completion_tokens := 0, ttft_s := 0\<rparr>"
  have "fails_now m (roll a)" using Suc.prems(3) [rule_format, of 0] by simp
  then have "attempt_loop (json_loads rf) (Some recorder) replies retries n a (s, w) =
      attempt_loop (json_loads rf) (Some recorder) replies retries n' (a + 1) (?s, w)"
    using Suc.prems(2) by (simp add: n replies_def fails_now_exchange Let_def RETRY_STATUS_def)
  moreover have "\<forall>j<k. fails_now m (roll (a + 1 + int j))"
  proof (intro allI impI)
    fix j assume "j < k"
    then show "fails_now m (roll (a + 1 + int j))" using Suc.prems(3) [rule_format, of "Suc j"] by (simp add: add.assoc)
  qed
  ultimately show ?case
    using Suc.IH [of n' "a + 1" ?s] Suc.prems n by (simp add: add.assoc)
qed

text \<open>
  C21. The client reads back what the mock engine writes. A mock that refuses its first \<open>k\<close> requests with 503 and
  answers the next one, to a client that may retry that often: the frames go over the wire as server-sent lines of
  JSON, and the client returns after \<open>k + 1\<close> attempts with no error, the text and every single delta it relayed are the
  pieces the mock produced, in order and once each, and the token counts are the ones the mock reports.
\<close>

theorem mock_client_round_trip:
  assumes "int k \<le> max_retries c" "\<forall>j<k. fails_now m (roll (1 + int j))" "\<not> fails_now m (roll (1 + int k))"
    and "list_all (\<lambda>c. c < 127) (MODEL m)" "\<forall>a. list_all (\<lambda>c. c < 127) (cid a)"
  shows "\<exists>s. ocr_page_stream (json_loads rf) c (Some recorder)
      (\<lambda>a. mock_exchange m draw (clock a) (cid a) (created a) (payload c png True prompt) (roll a)) [] =
        (s, mock_pieces m draw c png) \<and>
    out s = concat (mock_pieces m draw c png) \<and> attempts s = 1 + int k \<and> error s = None \<and> prompt_tokens s = 512 \<and>
    completion_tokens s = int (length (mock_pieces m draw c png))"
  using mock_attempts [where n = "nat (max_retries c + 1)" and retries = "max_retries c" and a = 1 and k = k and
      s = new_stats and w = "[]", OF _ _ assms(2-5) _ _ _ refl] assms(1)
  by (simp add: ocr_page_stream_def new_stats_def)

lemma mock_client_round_trip_witness:
  "\<exists>s. ocr_page_stream (json_loads (\<lambda>_. None)) echo_client (Some recorder)
      (\<lambda>a. mock_exchange \<lparr>TOKENS = 2, FAIL_RATE = 1 / 2, MODEL = lit ''mock-ocr-vl''\<rparr> (\<lambda>_ i. i) (\<lambda>_. 0) (lit ''c'') 0
         (payload echo_client [] True None) (if a = 1 then 0 else 1)) [] = (s, [lit ''invoice'', lit '' total'']) \<and>
    attempts s = 2 \<and> completion_tokens s = 2"
proof -
  let ?m = "\<lparr>TOKENS = 2, FAIL_RATE = 1 / 2, MODEL = lit ''mock-ocr-vl''\<rparr>"
  have "mock_pieces ?m (\<lambda>_ i. i) echo_client [] = [lit ''invoice'', lit '' total'']"
    by (simp add: mock_pieces_def echo_client_def deterministic_text_def LEXICON_def lit_def numeral_2_eq_2)
  then show ?thesis
    using mock_client_round_trip [of 1 echo_client ?m "\<lambda>a. if a = 1 then 0 else 1" "\<lambda>_. lit ''c''" "\<lambda>_. None" "\<lambda>_ i. i" "\<lambda>_ _. 0" "\<lambda>_. 0" "[]" None]
    by (simp add: echo_client_def fails_now_def lit_def) blast
qed

text \<open>
  The mock writes more than it was asked for: its line breaks are pieces of their own, on top of the words, so from the
  thirteenth token on it reports a completion longer than the \<open>max_tokens\<close> of the request.
\<close>

theorem mock_exceeds_max_tokens:
  assumes "13 \<le> max_tokens c" "max_tokens c \<le> TOKENS m"
  shows "max_tokens c < int (length (mock_pieces m draw c png))"
proof -
  have "0 < (nat (max_tokens c) - 1) div 12" using assms(1) by (simp add: div_greater_zero_iff)
  then show ?thesis using assms by (simp add: mock_pieces_def deterministic_text_length)
qed

end
