(* ===== verification/Runtime.thy ===== *)
theory Runtime
  imports Json_Reader
begin

text \<open>
  What every process shares: \<open>common/logging.py\<close> (records with \<open>extra\<close> fields, the two formatters, the set-up of the
  handlers), \<open>common/redis_client.py\<close> (the process-wide client) and \<open>gateway/middleware.py\<close> (the request id, the
  500 of an unhandled exception, the access log and the request counters). Times are text or numbers handed in;
  values of \<open>extra\<close> fields are JSON values, those \<open>json.dumps\<close> would pass to \<open>str\<close> being strings.
\<close>

section \<open>Dictionaries\<close>

fun put :: "'k \<Rightarrow> 'v \<Rightarrow> ('k \<times> 'v) list \<Rightarrow> ('k \<times> 'v) list" where
  \<comment> \<open>\<open>d[k] = v\<close>: a key keeps its place\<close>
  "put k v [] = [(k, v)]"
| "put k v ((k', v') # d) = (if k' = k then (k, v) # d else (k', v') # put k v d)"

definition put_all :: "('k \<times> 'v) list \<Rightarrow> ('k \<times> 'v) list \<Rightarrow> ('k \<times> 'v) list" where
  \<comment> \<open>\<open>d.update(kvs)\<close>, and a dict comprehension when \<open>d\<close> is empty\<close>
  "put_all kvs d = fold (\<lambda>(k, v). put k v) kvs d"

lemma map_of_put [simp]: "map_of (put k v d) = (map_of d)(k \<mapsto> v)"
  by (induction k v d rule: put.induct) auto

lemma keys_put [simp]: "fst ` set (put k v d) = insert k (fst ` set d)"
  by (induction k v d rule: put.induct) auto

lemma distinct_put [simp]: "distinct (List.map fst (put k v d)) = distinct (List.map fst d)"
proof (induction k v d rule: put.induct)
  case (2 k v k' v' d)
  have "k' \<noteq> k \<Longrightarrow> k' \<in> fst ` set (put k v d) \<longleftrightarrow> k' \<in> fst ` set d" by simp
  then show ?case using 2 by (auto simp del: keys_put)
qed simp

lemma put_all_Nil [simp]: "put_all [] d = d" and put_all_Cons [simp]: "put_all ((k, v) # kvs) d = put_all kvs (put k v d)"
  by (simp_all add: put_all_def)

lemma map_of_put_all: "map_of (put_all kvs d) = map_of d ++ map_of (rev kvs)"
  by (induction kvs arbitrary: d) (auto simp: map_add_def fun_eq_iff split: option.splits)

lemma distinct_put_all [simp]: "distinct (List.map fst (put_all kvs d)) = distinct (List.map fst d)"
  by (induction kvs arbitrary: d) (simp_all add: put_all_def split_def)

lemma keys_put_all: "fst ` set (put_all kvs d) = fst ` set kvs \<union> fst ` set d"
  by (induction kvs arbitrary: d) (simp_all add: put_all_def split_def)

lemma distinct_map_of_rev: "distinct (List.map fst kvs) \<Longrightarrow> map_of (rev kvs) = map_of kvs"
  by (subst map_of_inject_set) (simp_all add: rev_map [symmetric])

section \<open>Log records\<close>

definition attribute_names :: "string list" where
  "attribute_names = [''name'', ''msg'', ''args'', ''levelname'', ''levelno'', ''pathname'', ''filename'', ''module'',
     ''exc_info'', ''exc_text'', ''stack_info'', ''lineno'', ''funcName'', ''created'', ''msecs'', ''relativeCreated'',
     ''thread'', ''threadName'', ''processName'', ''process'', ''asctime'', ''message'', ''taskName'']"

definition RESERVED :: "pystr set" where
  \<comment> \<open>the attributes of a \<open>LogRecord\<close>, and the names a formatter adds\<close>
  "RESERVED = set (List.map lit attribute_names)"

record log_record =
  lr_time :: pystr                               \<comment> \<open>the creation time as a formatter prints it\<close>
  lr_level :: pystr
  lr_name :: pystr
  lr_message :: pystr
  lr_extra :: "(pystr \<times> json) list"              \<comment> \<open>the attributes of the record that are not its own\<close>
  lr_exc :: "(exn \<times> pystr) option"               \<comment> \<open>\<open>exc_info\<close> and its formatted traceback\<close>

definition safe_extra :: "(pystr \<times> json) list \<Rightarrow> (pystr \<times> json) list" where
  "safe_extra extra = put_all (List.map (\<lambda>(k, v). (if k \<in> RESERVED then k @ [95] else k, v)) extra) []"

definition logger_make_record :: "log_record \<Rightarrow> (pystr \<times> json) list \<Rightarrow> exn + log_record" where
  \<comment> \<open>\<open>Logger.makeRecord\<close> of the library: a key that collides with an attribute raises\<close>
  "logger_make_record r extra =
     (if \<exists>k\<in>set (List.map fst extra). k \<in> RESERVED then Inl (KeyError (lit ''Attempt to overwrite in LogRecord''))
      else Inr (r\<lparr>lr_extra := extra\<rparr>))"

definition makeRecord :: "log_record \<Rightarrow> (pystr \<times> json) list \<Rightarrow> exn + log_record" where
  "makeRecord r extra = logger_make_record r (if extra \<noteq> [] then safe_extra extra else extra)"

lemma reserved_suffix: "k \<in> RESERVED \<Longrightarrow> k @ [95] \<notin> RESERVED"
proof -
  have "list_all (\<lambda>n. last (lit n) \<noteq> 95) attribute_names" by (simp add: attribute_names_def lit_def)
  then have "last k \<noteq> 95" if "k \<in> RESERVED" for k using that by (auto simp: RESERVED_def list_all_iff)
  then show "k \<in> RESERVED \<Longrightarrow> k @ [95] \<notin> RESERVED" by force
qed

lemma safe_extra_keys: "fst ` set (safe_extra extra) = (\<lambda>k. if k \<in> RESERVED then k @ [95] else k) ` fst ` set extra"
  by (simp add: safe_extra_def keys_put_all image_image split_def) force

lemma safe_extra_safe: "k \<in> fst ` set (safe_extra extra) \<Longrightarrow> k \<notin> RESERVED"
  by (auto simp: safe_extra_keys reserved_suffix)

lemma safe_extra_distinct: "distinct (List.map fst (safe_extra extra))"
  by (simp add: safe_extra_def)

lemma makeRecord_safe: "makeRecord r extra = Inr (r\<lparr>lr_extra := safe_extra extra\<rparr>)"
proof -
  have "\<not> (\<exists>k\<in>set (List.map fst (safe_extra extra)). k \<in> RESERVED)" using safe_extra_safe by auto
  moreover have "safe_extra [] = []" by (simp add: safe_extra_def)
  ultimately show ?thesis by (cases "extra = []") (simp_all add: makeRecord_def logger_make_record_def del: set_map)
qed

section \<open>The formatters\<close>

definition last4000 :: "pystr \<Rightarrow> pystr" where
  "last4000 s = drop (length s - 4000) s"

definition visible :: "(pystr \<times> json) list \<Rightarrow> (pystr \<times> json) list" where
  \<comment> \<open>the attributes a formatter prints: not the record's own, not private\<close>
  "visible extra = filter (\<lambda>(k, v). k \<notin> RESERVED \<and> \<not> startswith k (lit ''_'')) extra"

definition log_payload :: "pystr \<Rightarrow> pystr option \<Rightarrow> pystr option \<Rightarrow> log_record \<Rightarrow> (pystr \<times> json) list" where
  "log_payload service rid jid r =
     (let base = [(lit ''ts'', JStr (lr_time r)), (lit ''level'', JStr (lr_level r)), (lit ''service'', JStr service),
                  (lit ''logger'', JStr (lr_name r)), (lit ''msg'', JStr (lr_message r))];
          with_rid = (case rid of None \<Rightarrow> base | Some i \<Rightarrow> put (lit ''request_id'') (JStr i) base);
          with_jid = (case jid of None \<Rightarrow> with_rid | Some i \<Rightarrow> put (lit ''job_id'') (JStr i) with_rid);
          with_extra = put_all (visible (lr_extra r)) with_jid
      in case lr_exc r of None \<Rightarrow> with_extra
         | Some (e, tb) \<Rightarrow> put (lit ''traceback'') (JStr (last4000 tb))
             (put (lit ''error'') (JStr (exn_text e)) with_extra))"

definition json_format :: "(rat \<Rightarrow> pystr) \<Rightarrow> pystr \<Rightarrow> pystr option \<Rightarrow> pystr option \<Rightarrow> log_record \<Rightarrow> pystr" where
  "json_format sf service rid jid r = dumps sf (JObj (log_payload service rid jid r))"

fun shown :: "(rat \<Rightarrow> pystr) \<Rightarrow> json \<Rightarrow> pystr" where
  \<comment> \<open>\<open>str\<close> of a scalar; a list or an object as JSON, which is close to its \<open>repr\<close>\<close>
  "shown sf (JStr s) = s"
| "shown sf (JBool b) = (if b then lit ''True'' else lit ''False'')"
| "shown sf JNull = lit ''None''"
| "shown sf v = dumps sf v"

definition ljust5 :: "pystr \<Rightarrow> pystr" where
  "ljust5 s = s @ replicate (5 - length s) 32"

definition text_format :: "(rat \<Rightarrow> pystr) \<Rightarrow> pystr option \<Rightarrow> pystr option \<Rightarrow> log_record \<Rightarrow> pystr" where
  "text_format sf rid jid r =
     (let ids = join [32] (List.map (\<lambda>(k, v). k @ [61] @ the v)
            (filter (\<lambda>(k, v). v \<noteq> None \<and> v \<noteq> Some []) [(lit ''req'', rid), (lit ''job'', jid)]));
          base = rstrip (lr_time r @ [32] @ ljust5 (lr_level r) @ [32] @ lr_name r @ [32] @ ids @ [32] @ lr_message r);
          extras = join [32] (List.map (\<lambda>(k, v). k @ [61] @ shown sf v) (visible (lr_extra r)));
          base = (if extras \<noteq> [] then base @ lit '' | '' @ extras else base)
      in case lr_exc r of None \<Rightarrow> base | Some (e, tb) \<Rightarrow> base @ [10] @ tb)"

section \<open>The set-up\<close>

record log_handler =
  lh_json :: bool
  lh_service :: pystr

record log_config =
  root_handlers :: "log_handler list"
  root_level :: pystr
  lib_handlers :: "pystr \<Rightarrow> log_handler list"    \<comment> \<open>of the loggers of the libraries\<close>
  lib_propagate :: "pystr \<Rightarrow> bool"
  lib_level :: "pystr \<Rightarrow> pystr option"

definition level_names :: "string list" where
  "level_names = [''CRITICAL'', ''FATAL'', ''ERROR'', ''WARN'', ''WARNING'', ''INFO'', ''DEBUG'', ''NOTSET'']"

definition setup_logging :: "(pystr \<Rightarrow> pystr) \<Rightarrow> pystr \<Rightarrow> pystr \<Rightarrow> pystr \<Rightarrow> (log_config, unit) prog" where
  \<comment> \<open>the first argument is \<open>str.upper\<close>\<close>
  "setup_logging upper service level fmt =
     bindE (modE (\<lambda>w. w\<lparr>root_handlers := []\<rparr>)) (\<lambda>_.
     bindE (modE (\<lambda>w. w\<lparr>root_handlers := root_handlers w @ [\<lparr>lh_json = (fmt = lit ''json''), lh_service = service\<rparr>]\<rparr>)) (\<lambda>_.
     bindE (if upper level \<in> set (List.map lit level_names) then modE (\<lambda>w. w\<lparr>root_level := upper level\<rparr>)
            else raiseE (ValueError (lit ''Unknown level''))) (\<lambda>_.
     bindE (modE (\<lambda>w. fold (\<lambda>n w. w\<lparr>lib_handlers := (lib_handlers w)(lit n := []), lib_propagate := (lib_propagate w)(lit n := True)\<rparr>)
              [''uvicorn'', ''uvicorn.error'', ''uvicorn.access''] w)) (\<lambda>_.
     modE (\<lambda>w. w\<lparr>lib_level := (lib_level w)(lit ''httpx'' := Some (lit ''WARNING''), lit ''httpcore'' := Some (lit ''WARNING''))\<rparr>)))))"

section \<open>The Redis client of the process\<close>

record 'c redis_pool =
  pool_client :: "'c option"
  pool_opened :: nat                             \<comment> \<open>clients made by \<open>from_url\<close>\<close>
  pool_closed :: "'c list"

definition get_redis :: "(nat \<Rightarrow> 'c) \<Rightarrow> ('c redis_pool, 'c) prog" where
  \<comment> \<open>\<open>from_url\<close> makes its \<open>n\<close>-th client\<close>
  "get_redis from_url =
     bindE (getE pool_client) (\<lambda>c. case c of
         Some x \<Rightarrow> retE x
       | None \<Rightarrow> bindE (getE (\<lambda>w. from_url (pool_opened w))) (\<lambda>x.
           bindE (modE (\<lambda>w. w\<lparr>pool_client := Some x, pool_opened := pool_opened w + 1\<rparr>)) (\<lambda>_. retE x)))"

definition set_redis :: "'c option \<Rightarrow> ('c redis_pool, unit) prog" where
  "set_redis c = modE (\<lambda>w. w\<lparr>pool_client := c\<rparr>)"

definition close_redis :: "('c \<Rightarrow> ('c redis_pool, unit) prog) \<Rightarrow> ('c redis_pool, unit) prog" where
  "close_redis aclose =
     bindE (getE pool_client) (\<lambda>c. case c of None \<Rightarrow> retE ()
       | Some x \<Rightarrow> bindE (aclose x) (\<lambda>_. modE (\<lambda>w. w\<lparr>pool_client := None\<rparr>)))"

definition redis_ping :: "(nat \<Rightarrow> 'c) \<Rightarrow> ('c \<Rightarrow> ('c redis_pool, bool) prog) \<Rightarrow> ('c redis_pool, bool) prog" where
  "redis_ping from_url client_ping =
     catchE (bindE (get_redis from_url) client_ping) (\<lambda>_. retE False)"

section \<open>The middleware\<close>

record http_request =
  rq_method :: pystr
  rq_path :: pystr
  rq_request_id :: "pystr option"                \<comment> \<open>the header \<open>x-request-id\<close>\<close>
  rq_client :: "pystr option"

record http_response =
  rs_status :: nat
  rs_headers :: "(pystr \<times> pystr) list"         \<comment> \<open>lower-case names\<close>
  rs_body :: json                                \<comment> \<open>the content, before it is rendered\<close>

datatype access_entry = Unhandled pystr | Served pystr pystr nat pystr

record 'w http_world =
  ctx_request_id :: "pystr option"               \<comment> \<open>\<open>request_id_var\<close>\<close>
  scope_route :: "pystr option"                  \<comment> \<open>the path of the route the application has matched\<close>
  http_requests :: "(pystr \<times> pystr \<times> pystr) list" \<comment> \<open>increments of \<open>HTTP_REQUESTS\<close>: method, path, status\<close>
  http_seconds :: "(pystr \<times> pystr) list"       \<comment> \<open>observations of \<open>HTTP_SECONDS\<close>\<close>
  access_log :: "(pystr option \<times> access_entry) list"  \<comment> \<open>with the request id in force\<close>
  app_world :: 'w

definition QUIET_PATHS :: "pystr set" where
  "QUIET_PATHS = {lit ''/metrics'', lit ''/healthz'', lit ''/readyz''}"

definition route_template :: "'w http_world \<Rightarrow> pystr" where
  "route_template w = (case scope_route w of Some p \<Rightarrow> if p = [] then lit ''unmatched'' else p | None \<Rightarrow> lit ''unmatched'')"

definition set_header :: "pystr \<Rightarrow> pystr \<Rightarrow> (pystr \<times> pystr) list \<Rightarrow> (pystr \<times> pystr) list" where
  \<comment> \<open>\<open>headers[k] = v\<close>: the first occurrence is replaced, the others go\<close>
  "set_header k v hs = (case List.extract (\<lambda>h. fst h = k) hs of
       None \<Rightarrow> hs @ [(k, v)]
     | Some (before, _, after) \<Rightarrow> before @ (k, v) # filter (\<lambda>h. fst h \<noteq> k) after)"

definition internal_error :: "pystr \<Rightarrow> http_response" where
  "internal_error request_id = \<lparr>rs_status = 500, rs_headers = [(lit ''x-request-id'', request_id)],
     rs_body = JObj [(lit ''error'', JStr (lit ''internal_error'')),
       (lit ''detail'', JStr (lit ''unexpected server error'')), (lit ''request_id'', JStr request_id)]\<rparr>"

definition count_request :: "http_request \<Rightarrow> pystr \<Rightarrow> ('w http_world, unit) prog" where
  "count_request q st = modE (\<lambda>w. w\<lparr>http_requests := http_requests w @ [(rq_method q, route_template w, st)],
     http_seconds := http_seconds w @ [(rq_method q, route_template w)]\<rparr>)"

definition write_access :: "access_entry \<Rightarrow> ('w http_world, unit) prog" where
  "write_access a = modE (\<lambda>w. w\<lparr>access_log := access_log w @ [(ctx_request_id w, a)]\<rparr>)"

definition dispatch :: "pystr \<Rightarrow> http_request \<Rightarrow> ('w http_world, http_response) prog \<Rightarrow> ('w http_world, http_response) prog" where
  \<comment> \<open>\<open>generated\<close> is a fresh \<open>uuid4().hex[:16]\<close>\<close>
  "dispatch generated q call_next =
     (let request_id = (case rq_request_id q of Some i \<Rightarrow> if i \<noteq> [] then i else generated | None \<Rightarrow> generated) in
      bindE (getE ctx_request_id) (\<lambda>token.
      bindE (modE (\<lambda>w. w\<lparr>ctx_request_id := Some request_id\<rparr>)) (\<lambda>_.
      let reset = modE (\<lambda>w. w\<lparr>ctx_request_id := token\<rparr>) in
      bindE (catchE (bindE call_next (\<lambda>r. retE (Some r))) (\<lambda>_.
          bindE (count_request q (lit ''500'')) (\<lambda>_.
          bindE (write_access (Unhandled (rq_path q))) (\<lambda>_.
          bindE reset (\<lambda>_. retE None))))) (\<lambda>res.
      case res of None \<Rightarrow> retE (internal_error request_id)
      | Some r \<Rightarrow>
          bindE (count_request q (show_nat (rs_status r))) (\<lambda>_.
          let r = r\<lparr>rs_headers := set_header (lit ''x-request-id'') request_id (rs_headers r)\<rparr> in
          bindE (if rq_path q \<notin> QUIET_PATHS
             then write_access (Served (rq_method q) (rq_path q) (rs_status r) (case rq_client q of Some h \<Rightarrow> h | None \<Rightarrow> []))
             else retE ()) (\<lambda>_.
          bindE reset (\<lambda>_. retE r)))))))"

section \<open>Logging, properties\<close>

lemma visible_safe_extra: "visible (safe_extra extra) = filter (\<lambda>(k, v). \<not> startswith k (lit ''_'')) (safe_extra extra)"
proof -
  have "\<forall>kv\<in>set (safe_extra extra). fst kv \<notin> RESERVED" using safe_extra_safe by blast
  then show ?thesis by (auto simp: visible_def intro!: filter_cong)
qed

lemma json_format_one_line: "(\<And>x. printable (sf x)) \<Longrightarrow> printable (json_format sf service rid jid r)"
  by (simp add: json_format_def printable_dumps del: dumps.simps)

lemma log_payload_request_id:
  assumes "lit ''request_id'' \<notin> fst ` set (lr_extra r)"
  shows "map_of (log_payload service (Some i) jid r) (lit ''request_id'') = Some (JStr i)"
proof -
  have "lit ''request_id'' \<notin> fst ` set (rev (visible (lr_extra r)))" using assms by (auto simp: visible_def)
  then have "map_of (rev (visible (lr_extra r))) (lit ''request_id'') = None" by (simp add: map_of_eq_None_iff)
  then show ?thesis
    by (auto simp: log_payload_def Let_def map_of_put_all map_add_def lit_inject simp del: map_of_eq_Some_iff split: option.splits)
qed

lemma visible_floatless: "list_all (\<lambda>kv. floatless (snd kv)) extra \<Longrightarrow> list_all (\<lambda>kv. floatless (snd kv)) (visible extra)"
  by (auto simp: list_all_iff visible_def)

lemma list_all_put: "P (k, v) \<Longrightarrow> list_all P d \<Longrightarrow> list_all P (put k v d)"
  by (induction k v d rule: put.induct) auto

lemma list_all_put_all: "list_all P kvs \<Longrightarrow> list_all P d \<Longrightarrow> list_all P (put_all kvs d)"
proof (induction kvs arbitrary: d)
  case (Cons kv kvs)
  obtain k v where "kv = (k, v)" by (cases kv)
  then show ?case using Cons.IH [of "put k v d"] Cons.prems list_all_put [of P k v d] by simp
qed simp

lemma log_payload_floatless:
  "list_all (\<lambda>kv. floatless (snd kv)) (lr_extra r) \<Longrightarrow> floatless (JObj (log_payload service rid jid r))"
  by (auto simp: log_payload_def Let_def split: option.splits
      intro!: list_all_put list_all_put_all visible_floatless)

definition safe_name :: "pystr \<Rightarrow> pystr" where
  \<comment> \<open>the name under which an extra field is logged\<close>
  "safe_name k = (if k \<in> RESERVED then k @ [95] else k)"

lemma safe_extra_value:
  assumes "distinct (List.map (safe_name \<circ> fst) extra)" "(k, v) \<in> set extra"
  shows "map_of (safe_extra extra) (safe_name k) = Some v"
proof -
  let ?kvs = "List.map (\<lambda>(k, v). (safe_name k, v)) extra"
  have fst: "List.map fst ?kvs = List.map (safe_name \<circ> fst) extra" by (simp add: split_def)
  have "safe_extra extra = put_all ?kvs []" by (simp add: safe_extra_def safe_name_def)
  moreover have "map_of (rev ?kvs) = map_of ?kvs" using assms(1) by (intro distinct_map_of_rev) (simp only: fst)
  moreover have "map_of ?kvs (safe_name k) = Some v"
    using assms by (intro map_of_is_SomeI) (simp_all only: fst, force)
  ultimately show ?thesis by (simp add: map_of_put_all map_add_def)
qed

lemma reserved_start: "k \<in> RESERVED \<Longrightarrow> \<not> startswith (k @ [95]) (lit ''_'')"
proof -
  have "list_all (\<lambda>n. \<not> startswith (lit n @ [95]) (lit ''_'')) attribute_names"
    by (simp add: attribute_names_def lit_def startswith_def)
  then show "k \<in> RESERVED \<Longrightarrow> \<not> startswith (k @ [95]) (lit ''_'')" by (auto simp: RESERVED_def list_all_iff)
qed

lemma visible_value:
  assumes "distinct (List.map fst extra)" "map_of extra k = Some v" "k \<notin> RESERVED" "\<not> startswith k (lit ''_'')"
  shows "map_of (rev (visible extra)) k = Some v"
proof -
  have d: "distinct (List.map fst (visible extra))" unfolding visible_def using assms(1) by (rule distinct_map_filter)
  have "(k, v) \<in> set (visible extra)" using assms map_of_SomeD by (fastforce simp: visible_def)
  then show ?thesis using d by (simp add: distinct_map_of_rev)
qed

lemma log_payload_extra:
  assumes "map_of (rev (visible (lr_extra r))) k = Some v" "lr_exc r \<noteq> None \<longrightarrow> k \<noteq> lit ''error'' \<and> k \<noteq> lit ''traceback''"
  shows "map_of (log_payload service rid jid r) k = Some v"
  using assms by (auto simp: log_payload_def Let_def map_of_put_all map_add_def simp del: map_of_eq_Some_iff split: option.splits)

lemma log_payload_distinct: "distinct (List.map fst (log_payload service rid jid r))"
  by (auto simp: log_payload_def Let_def lit_inject simp del: map_map split: option.splits)


definition sample_record :: log_record where
  "sample_record = \<lparr>lr_time = lit ''T'', lr_level = lit ''INFO'', lr_name = lit ''gateway'', lr_message = lit ''hi'',
     lr_extra = [], lr_exc = None\<rparr>"


section \<open>Set-up and Redis client, properties\<close>

lemma setup_logging_idempotent:
  assumes "setup_logging upper service level fmt w = (Inr (), w1)"
  shows "setup_logging upper service level fmt w1 = (Inr (), w1) \<and> length (root_handlers w1) = 1"
  using assms by (auto simp: setup_logging_def prog_defs fun_upd_twist split: if_splits)

lemma setup_logging_bad_level:
  "upper level \<notin> set (List.map lit level_names) \<Longrightarrow> \<exists>w1. setup_logging upper service level fmt w = (Inl (ValueError (lit ''Unknown level'')), w1) \<and>
     root_handlers w1 = [\<lparr>lh_json = (fmt = lit ''json''), lh_service = service\<rparr>] \<and> lib_handlers w1 = lib_handlers w"
  by (simp add: setup_logging_def prog_defs)

lemma get_redis_twice: "get_redis from_url w = (Inr x, w1) \<Longrightarrow> get_redis from_url w1 = (Inr x, w1)"
  by (auto simp: get_redis_def prog_defs split: option.splits)

lemma close_then_get:
  assumes "close_redis aclose w = (Inr (), w1)" "pool_client w = Some x"
  shows "get_redis from_url w1 = (Inr (from_url (pool_opened w1)), w1\<lparr>pool_client := Some (from_url (pool_opened w1)), pool_opened := pool_opened w1 + 1\<rparr>)"
  using assms by (auto simp: close_redis_def get_redis_def prog_defs split: prod.splits sum.splits)

lemma redis_ping_never_raises: "\<exists>b w1. redis_ping from_url client_ping w = (Inr b, w1)"
  by (auto simp: redis_ping_def prog_defs split: prod.splits sum.splits)

section \<open>The middleware, properties\<close>

lemma map_of_set_header [simp]: "map_of (set_header k v hs) = (map_of hs)(k \<mapsto> v)"
proof (cases "List.extract (\<lambda>h. fst h = k) hs")
  case None
  then have "map_of hs k = None" by (auto simp: extract_None_iff map_of_eq_None_iff)
  then show ?thesis using None by (auto simp: set_header_def map_add_def fun_eq_iff split: option.splits)
next
  case (Some x)
  obtain before h after where x: "x = (before, h, after)" by (cases x)
  then have hs: "hs = before @ h # after" "fst h = k" "k \<notin> fst ` set before"
    using extract_SomeE [of "\<lambda>h. fst h = k" hs before h after] Some by auto
  have f: "map_of (filter (\<lambda>h. fst h \<noteq> k) after) k' = (if k' = k then None else map_of after k')" for k'
    by (induction after) auto
  have b: "map_of before k = None" using hs(3) by (simp add: map_of_eq_None_iff)
  show ?thesis
    using Some x hs(2) b by (auto simp: set_header_def hs(1) map_add_def f fun_eq_iff split: option.splits)
qed

definition tag_of :: "pystr \<Rightarrow> http_request \<Rightarrow> pystr" where
  \<comment> \<open>the id a request travels under\<close>
  "tag_of generated q = (case rq_request_id q of Some i \<Rightarrow> if i \<noteq> [] then i else generated | None \<Rightarrow> generated)"


end
