(* ===== verification/Bench.thy ===== *)
theory Bench
  imports Engine Runtime Image_Facts "HOL-Library.List_Lexorder"
begin

text \<open>
  The measurements: \<open>benchmarks/harness.py\<close> (the load generator, percentiles, the classes of errors),
  \<open>benchmarks/coldstart.py\<close> (the poll), the sampler of \<open>serving/ray/batch_inference.py\<close> and \<open>benchmarks/report.py\<close>
  (tables, headline, the patch of the document). Floats are rationals; result files are a dictionary from their stem to
  what \<open>json.loads\<close> makes of them; the clock, the engine and the GPU probe are parameters.
\<close>

section \<open>Percentiles and error classes\<close>

record percentile_row =
  p50 :: "rat option"
  p95 :: "rat option"
  p99 :: "rat option"
  p_mean :: "rat option"

definition pct :: "rat list \<Rightarrow> rat \<Rightarrow> rat" where
  "pct ordered q = (let idx = min (length ordered - 1) (nat (floor (q * of_nat (length ordered))))
     in py_round_n (ordered ! idx) 3)"

definition percentiles :: "rat list \<Rightarrow> percentile_row" where
  "percentiles measured = (if measured = [] then \<lparr>p50 = None, p95 = None, p99 = None, p_mean = None\<rparr>
     else let ordered = sort measured in
       \<lparr>p50 = Some (py_round_n (median ordered) 3), p95 = Some (pct ordered (95 / 100)), p99 = Some (pct ordered (99 / 100)),
        p_mean = Some (py_round_n (sum_list ordered / of_nat (length ordered)) 3)\<rparr>)"

definition ERROR_KINDS :: "(string \<times> string) list" where
  "ERROR_KINDS = [(''timeout'', ''timeout''), (''connect'', ''connection''), (''429'', ''rate_limited''),
     (''503'', ''unavailable''), (''500'', ''server_error''), (''400'', ''bad_request'')]"

definition classify :: "pystr \<Rightarrow> string" where
  "classify err = (case find (\<lambda>(needle, _). contains (lit needle) (map lower1 err)) ERROR_KINDS of
     Some (_, label) \<Rightarrow> label | None \<Rightarrow> ''other'')"

definition pick_eval_set :: "(pystr list \<Rightarrow> pystr list) \<Rightarrow> (pystr \<Rightarrow> byte list) \<Rightarrow> pystr list \<Rightarrow> nat \<Rightarrow> exn + byte list list" where
  \<comment> \<open>\<open>shuffle\<close> is the shuffle of the seeded generator, \<open>contents\<close> reads a file, \<open>found\<close> the names of the page files\<close>
  "pick_eval_set shuffle contents found n =
     (if found = [] then Inl (OtherError (lit ''SystemExit'') (lit ''no pages''))
      else Inr (map contents (take n (shuffle (sort found)))))"

section \<open>The load generator\<close>

datatype level_worker = Free | Sending nat | Returned

record level_state =
  next_request :: nat
  level_workers :: "level_worker list"
  collected :: "nat list"

definition level_step :: "nat \<Rightarrow> nat \<Rightarrow> level_state \<Rightarrow> level_state" where
  \<comment> \<open>worker \<open>i\<close> goes on: it takes an index under the lock or returns, or its request is answered\<close>
  "level_step budget i s =
     (if i < length (level_workers s) then
        case level_workers s ! i of
          Free \<Rightarrow> if budget \<le> next_request s then s\<lparr>level_workers := (level_workers s)[i := Returned]\<rparr>
            else s\<lparr>level_workers := (level_workers s)[i := Sending (next_request s)], next_request := next_request s + 1\<rparr>
        | Sending n \<Rightarrow> s\<lparr>level_workers := (level_workers s)[i := Free], collected := collected s @ [n]\<rparr>
        | Returned \<Rightarrow> s
      else s)"

definition level_start :: "nat \<Rightarrow> level_state" where
  "level_start concurrency = \<lparr>next_request = 0, level_workers = replicate concurrency Free, collected = []\<rparr>"

definition level_run :: "nat \<Rightarrow> nat \<Rightarrow> nat list \<Rightarrow> level_state" where
  \<comment> \<open>the schedule says which worker goes on next\<close>
  "level_run budget concurrency sched = fold (level_step budget) sched (level_start concurrency)"

definition warmup_workers :: "nat \<Rightarrow> nat \<Rightarrow> nat" where
  "warmup_workers concurrency warmup = min concurrency (if warmup = 0 then 1 else warmup)"

definition ok :: "stream_stats \<Rightarrow> bool" where
  "ok s \<longleftrightarrow> error s = None"

definition counter :: "'a list \<Rightarrow> ('a \<times> nat) list" where
  \<comment> \<open>\<open>dict(Counter(xs))\<close>\<close>
  "counter xs = fold (\<lambda>x d. put x (case map_of d x of Some n \<Rightarrow> n + 1 | None \<Rightarrow> 1) d) xs []"

record level_figures =
  lv_concurrency :: nat
  lv_requests :: nat
  lv_errors :: nat
  lv_error_kinds :: "(string \<times> nat) list"
  lv_ttft_s :: percentile_row
  lv_e2e_s :: percentile_row
  lv_req_tokens_per_s_mean :: "rat option"
  lv_agg_tokens_per_s :: rat
  lv_output_tokens_mean :: "rat option"
  lv_pages_per_min :: rat
  lv_wall_s :: rat

definition fmean :: "rat list \<Rightarrow> rat" where
  "fmean xs = sum_list xs / of_nat (length xs)"

definition level_report :: "nat \<Rightarrow> stream_stats list \<Rightarrow> rat \<Rightarrow> level_figures" where
  \<comment> \<open>what \<open>run_level\<close> makes of its results and of the length of the window\<close>
  "level_report concurrency results wall =
     (let good = filter ok results; failed = filter (\<lambda>r. \<not> ok r) results in
      \<lparr>lv_concurrency = concurrency, lv_requests = length results, lv_errors = length failed,
       lv_error_kinds = counter (map (\<lambda>r. classify (case error r of Some e \<Rightarrow> e | None \<Rightarrow> [])) failed),
       lv_ttft_s = percentiles (map ttft_s good), lv_e2e_s = percentiles (map e2e_s good),
       lv_req_tokens_per_s_mean = (if good \<noteq> [] then Some (py_round_n (fmean (map tokens_per_s good)) 1) else None),
       lv_agg_tokens_per_s = (if wall \<noteq> 0 then py_round_n (of_int (sum_list (map completion_tokens good)) / wall) 1 else 0),
       lv_output_tokens_mean =
         (if good \<noteq> [] then Some (py_round_n (fmean (map (of_int \<circ> completion_tokens) good)) 1) else None),
       lv_pages_per_min = (if wall \<noteq> 0 then py_round_n (of_nat (length good) / wall * 60) 1 else 0),
       lv_wall_s = py_round_n wall 1\<rparr>)"

section \<open>The cold start, the sampler\<close>

fun wait_ready :: "rat \<Rightarrow> rat \<Rightarrow> (rat \<times> rat \<times> (exn + nat)) list \<Rightarrow> (exn + rat option) option" where
  \<comment> \<open>one entry per round: the clock at the test of the loop and after the probe, and the answer of the probe;
      \<open>None\<close> while it is still polling at the end of the list\<close>
  "wait_ready start timeout_s [] = None"
| "wait_ready start timeout_s ((now, later, answer) # rounds) =
     (if \<not> now - start < timeout_s then Some (Inr None)
      else case answer of
          Inr code \<Rightarrow> if code = 200 then Some (Inr (Some (later - start))) else wait_ready start timeout_s rounds
        | Inl (TransportError _) \<Rightarrow> wait_ready start timeout_s rounds
        | Inl (HTTPStatusError _ _) \<Rightarrow> wait_ready start timeout_s rounds
        | Inl e \<Rightarrow> Some (Inl e))"

fun gpu_samples :: "(exn + rat) list \<Rightarrow> rat list" where
  \<comment> \<open>the probes until the sampler is stopped; the first failure ends the thread\<close>
  "gpu_samples [] = []"
| "gpu_samples (Inr x # probes) = x # gpu_samples probes"
| "gpu_samples (Inl _ # probes) = []"

definition gpu_mean :: "rat list \<Rightarrow> rat option" where
  "gpu_mean samples = (if samples \<noteq> [] then Some (py_round_n (sum_list samples / of_nat (length samples)) 1) else None)"

section \<open>Percentiles, properties\<close>

lemma sorted_nth_bounds:
  assumes "sorted xs" "i < length xs"
  shows "xs ! 0 \<le> xs ! i" "xs ! i \<le> xs ! (length xs - 1)"
  using assms by (auto intro: sorted_nth_mono)

lemma median_sorted_bounds:
  assumes "sorted xs" "xs \<noteq> []" "length xs div 2 \<le> i" "i < length xs"
  shows "xs ! 0 \<le> median xs" "median xs \<le> xs ! i"
proof -
  let ?n = "length xs"
  have h: "?n div 2 < ?n" using assms(2) by (cases xs) auto
  have a: "xs ! 0 \<le> xs ! (?n div 2 - 1)" "xs ! (?n div 2 - 1) \<le> xs ! (?n div 2)" "xs ! (?n div 2) \<le> xs ! i"
    using assms h by (auto intro!: sorted_nth_mono)
  have "sort xs = xs" using assms(1) by (rule sorted_sort_id)
  then show "xs ! 0 \<le> median xs" "median xs \<le> xs ! i"
    using a by (auto simp: median_def Let_def)
qed

lemma mean_bounds:
  assumes "xs \<noteq> []" "\<forall>x\<in>set xs. a \<le> x \<and> x \<le> b"
  shows "a \<le> sum_list xs / of_nat (length xs)" "sum_list xs / of_nat (length xs) \<le> (b :: rat)"
proof -
  have "of_nat (length xs) * a \<le> sum_list xs \<and> sum_list xs \<le> of_nat (length xs) * b"
    using assms(2) by (induction xs) (auto simp: algebra_simps)
  moreover have "0 < (of_nat (length xs) :: rat)" using assms(1) by simp
  ultimately show "a \<le> sum_list xs / of_nat (length xs)" "sum_list xs / of_nat (length xs) \<le> b"
    by (simp_all add: field_simps)
qed

definition pct_index :: "nat \<Rightarrow> rat \<Rightarrow> nat" where
  "pct_index n q = min (n - 1) (nat (floor (q * of_nat n)))"

lemma pct_index_bounds:
  assumes "0 < n" "1 / 2 \<le> q"
  shows "n div 2 \<le> pct_index n q" "pct_index n q < n"
proof -
  have "of_nat (n div 2) \<le> (of_nat n / 2 :: rat)" by (metis of_nat_div_le_of_nat of_nat_numeral)
  also have "\<dots> \<le> q * of_nat n" using mult_right_mono [OF assms(2), of "of_nat n"] by simp
  finally have "int (n div 2) \<le> floor (q * of_nat n)" by (simp add: le_floor_iff)
  then show "n div 2 \<le> pct_index n q" "pct_index n q < n" using assms(1) by (auto simp: pct_index_def)
qed

lemma pct_index_mono: "q \<le> q' \<Longrightarrow> pct_index n q \<le> pct_index n q'"
proof -
  assume "q \<le> q'"
  then have "floor (q * of_nat n) \<le> floor (q' * of_nat n)" by (intro floor_mono mult_right_mono) simp_all
  then show ?thesis by (auto simp: pct_index_def)
qed

text \<open>
  The statistics of a level are in order. For every non-empty list of measurements the median is at most the 95th
  percentile, that at most the 99th, and all of them and the mean lie between the rounded smallest and largest
  measurement.
\<close>

theorem percentiles_ordered:
  assumes "measured \<noteq> []" "\<forall>v\<in>set measured. mn \<le> v \<and> v \<le> mx"
  shows "\<exists>a b c m. percentiles measured = \<lparr>p50 = Some a, p95 = Some b, p99 = Some c, p_mean = Some m\<rparr> \<and>
    py_round_n mn 3 \<le> a \<and> a \<le> b \<and> b \<le> c \<and> c \<le> py_round_n mx 3 \<and> py_round_n mn 3 \<le> m \<and> m \<le> py_round_n mx 3"
proof -
  let ?o = "sort measured" let ?n = "length measured"
  let ?i = "pct_index ?n (95 / 100)" and ?j = "pct_index ?n (99 / 100)"
  have n: "0 < ?n" "?o \<noteq> []" "length ?o = ?n" using assms(1) by (simp_all, metis length_0_conv length_sort)
  have ij: "?n div 2 \<le> ?i" "?i \<le> ?j" "?j < ?n" using n(1) by (auto intro: pct_index_bounds pct_index_mono)
  have vals: "\<forall>v\<in>set ?o. mn \<le> v \<and> v \<le> mx" using assms(2) by simp
  have "mn \<le> ?o ! 0" "?o ! ?j \<le> mx" using vals n ij(3) by (metis nth_mem)+
  moreover have "?o ! 0 \<le> median ?o" "median ?o \<le> ?o ! ?i"
    using median_sorted_bounds [of ?o ?i] n ij by simp_all
  moreover have "?o ! ?i \<le> ?o ! ?j" using n ij by (simp add: sorted_nth_mono)
  moreover note mean_bounds [OF n(2) vals]
  ultimately show ?thesis
    using assms(1) n(3) by (auto simp: percentiles_def pct_def pct_index_def Let_def intro!: py_round_n_mono)
qed

lemma percentiles_ordered_witness:
  "\<exists>a b c m. percentiles [3, 1, 2] = \<lparr>p50 = Some a, p95 = Some b, p99 = Some c, p_mean = Some m\<rparr> \<and>
    py_round_n 1 3 \<le> a \<and> a \<le> b \<and> b \<le> c \<and> c \<le> py_round_n 3 3 \<and> py_round_n 1 3 \<le> m \<and> m \<le> py_round_n 3 3"
  by (rule percentiles_ordered) simp_all

section \<open>The load generator, properties\<close>

fun sending :: "level_worker \<Rightarrow> nat list" where
  "sending (Sending n) = [n]"
| "sending _ = []"

fun worker_weight :: "level_worker \<Rightarrow> nat" where
  "worker_weight Free = 1"
| "worker_weight (Sending n) = 2"
| "worker_weight Returned = 0"

definition flying :: "level_state \<Rightarrow> nat list" where
  "flying s = concat (map sending (level_workers s))"

declare mset_upt [simp del]

definition level_ok :: "nat \<Rightarrow> nat \<Rightarrow> level_state \<Rightarrow> bool" where
  "level_ok budget c s \<longleftrightarrow> length (level_workers s) = c \<and> next_request s \<le> budget \<and>
     mset (collected s) + mset (flying s) = mset [0..<next_request s] \<and>
     (Returned \<in> set (level_workers s) \<longrightarrow> next_request s = budget)"

definition level_measure :: "nat \<Rightarrow> level_state \<Rightarrow> nat" where
  "level_measure budget s = 2 * (budget - next_request s) + sum_list (map worker_weight (level_workers s))"

lemma concat_map_update:
  assumes "i < length xs"
  shows "mset (concat (map f (xs[i := y]))) + mset (f (xs ! i)) = mset (concat (map f xs)) + mset (f y)"
proof -
  have xs: "xs = take i xs @ xs ! i # drop (Suc i) xs" using assms by (rule id_take_nth_drop)
  have "concat (map f (xs[i := y])) = concat (map f (take i xs)) @ f y @ concat (map f (drop (Suc i) xs))"
    using assms by (simp add: upd_conv_take_nth_drop)
  moreover have "concat (map f xs) = concat (map f (take i xs)) @ f (xs ! i) @ concat (map f (drop (Suc i) xs))"
    by (subst xs) simp
  ultimately show ?thesis by simp
qed

lemma sum_map_update:
  assumes "i < length xs"
  shows "sum_list (map f (xs[i := y])) + f (xs ! i) = sum_list (map f xs) + (f y :: nat)"
proof -
  have xs: "xs = take i xs @ xs ! i # drop (Suc i) xs" using assms by (rule id_take_nth_drop)
  have "sum_list (map f (xs[i := y])) = sum_list (map f (take i xs)) + f y + sum_list (map f (drop (Suc i) xs))"
    using assms by (simp add: upd_conv_take_nth_drop)
  moreover have "sum_list (map f xs) = sum_list (map f (take i xs)) + f (xs ! i) + sum_list (map f (drop (Suc i) xs))"
    by (subst xs) simp
  ultimately show ?thesis by simp
qed

lemma flying_update:
  assumes "i < length (level_workers s)" "level_workers s' = (level_workers s)[i := w]"
  shows "mset (flying s') + mset (sending (level_workers s ! i)) = mset (flying s) + mset (sending w)"
  using concat_map_update [OF assms(1)] by (simp add: flying_def assms(2))

lemma level_step_cases:
  assumes "i < length (level_workers s)"
  shows "level_workers s ! i = Free \<Longrightarrow> budget \<le> next_request s \<Longrightarrow>
      level_step budget i s = s\<lparr>level_workers := (level_workers s)[i := Returned]\<rparr>"
    and "level_workers s ! i = Free \<Longrightarrow> \<not> budget \<le> next_request s \<Longrightarrow> level_step budget i s =
      s\<lparr>level_workers := (level_workers s)[i := Sending (next_request s)], next_request := next_request s + 1\<rparr>"
    and "level_workers s ! i = Sending n \<Longrightarrow> level_step budget i s =
      s\<lparr>level_workers := (level_workers s)[i := Free], collected := collected s @ [n]\<rparr>"
  using assms by (simp_all add: level_step_def)

lemma level_step_ok:
  assumes "level_ok budget c s"
  shows "level_ok budget c (level_step budget i s)"
proof (cases "i < length (level_workers s)")
  case True
  let ?s = "level_step budget i s"
  have mem: "Returned \<in> set ((level_workers s)[i := x]) \<Longrightarrow> x \<noteq> Returned \<Longrightarrow> Returned \<in> set (level_workers s)" for x
    using set_update_subset_insert [of "level_workers s" i x] by auto
  show ?thesis
  proof (cases "level_workers s ! i")
    case Free
    show ?thesis
    proof (cases "budget \<le> next_request s")
      case b: True
      then show ?thesis
        using assms flying_update [OF True, of ?s Returned] level_step_cases(1) [OF True Free b] Free by (simp add: level_ok_def)
    next
      case b: False
      then show ?thesis
        using assms flying_update [OF True, of ?s "Sending (next_request s)"] level_step_cases(2) [OF True Free b] Free
          mem [of "Sending (next_request s)"] by (auto simp: level_ok_def)
    qed
  next
    case (Sending n)
    have "mset (flying s) = add_mset n (mset (flying ?s))"
      using flying_update [OF True, of ?s Free] level_step_cases(3) [OF True Sending] Sending by simp
    then show ?thesis
      using assms level_step_cases(3) [OF True Sending, of budget] mem [of Free] by (auto simp: level_ok_def)
  next
    case Returned
    then show ?thesis using assms True by (simp add: level_step_def)
  qed
qed (use assms in \<open>simp add: level_step_def\<close>)

lemma level_step_measure:
  assumes "i < length (level_workers s)" "level_workers s ! i \<noteq> Returned"
  shows "level_measure budget (level_step budget i s) < level_measure budget s"
proof (cases "level_workers s ! i")
  case Free
  then show ?thesis
    using level_step_cases(1,2) [OF assms(1) Free, of budget] sum_map_update [OF assms(1), of worker_weight Returned]
      sum_map_update [OF assms(1), of worker_weight "Sending (next_request s)"]
    by (cases "budget \<le> next_request s") (simp_all add: level_measure_def)
next
  case (Sending n)
  then show ?thesis
    using level_step_cases(3) [OF assms(1) Sending] sum_map_update [OF assms(1), of worker_weight Free]
    by (simp add: level_measure_def)
qed (use assms in simp)

lemma level_step_measure_le: "level_measure budget (level_step budget i s) \<le> level_measure budget s"
proof (cases "i < length (level_workers s) \<and> level_workers s ! i \<noteq> Returned")
  case True
  then show ?thesis using level_step_measure [of i s budget] by simp
next
  case False
  then show ?thesis by (auto simp: level_step_def)
qed

lemma level_step_length [simp]: "length (level_workers (level_step budget i s)) = length (level_workers s)"
  by (auto simp: level_step_def split: level_worker.splits)

lemma level_step_other:
  "j \<noteq> i \<Longrightarrow> j < length (level_workers s) \<Longrightarrow> level_workers (level_step budget i s) ! j = level_workers s ! j"
  by (auto simp: level_step_def split: level_worker.splits)

lemma level_start_ok: "level_ok budget c (level_start c)"
  by (simp add: level_ok_def level_start_def flying_def map_replicate_const)

lemma level_fold_ok: "level_ok budget c s \<Longrightarrow> level_ok budget c (fold (level_step budget) sched s)"
  by (induction sched arbitrary: s) (simp_all add: level_step_ok)

lemma level_fold_measure: "level_measure budget (fold (level_step budget) sched s) \<le> level_measure budget s"
  by (induction sched arbitrary: s) (auto intro: order_trans [OF _ level_step_measure_le])

lemma fair_round:
  assumes "i < length (level_workers s)" "level_workers s ! i \<noteq> Returned" "i \<in> set r"
  shows "level_measure budget (fold (level_step budget) r s) < level_measure budget s"
  using assms
proof (induction r arbitrary: s)
  case (Cons j r)
  show ?case
  proof (cases "j = i")
    case True
    then show ?thesis
      using level_step_measure [OF Cons.prems(1,2), of budget] level_fold_measure [of budget r "level_step budget j s"] by simp
  next
    case False
    then show ?thesis
      using Cons.IH [of "level_step budget j s"] Cons.prems level_step_other [of i j s budget] level_step_measure_le [of budget j s]
      by simp
  qed
qed simp

lemma fair_rounds:
  assumes "length (level_workers s) = c" "\<forall>r\<in>set rounds. {..<c} \<subseteq> set r"
    and "w \<in> set (level_workers (fold (level_step budget) (concat rounds) s))" "w \<noteq> Returned"
  shows "length rounds + level_measure budget (fold (level_step budget) (concat rounds) s) \<le> level_measure budget s"
  using assms
proof (induction rounds arbitrary: w rule: rev_induct)
  case (snoc r rounds)
  let ?s = "fold (level_step budget) (concat rounds) s"
  have len: "length (level_workers ?s) = c"
  proof -
    have "length (level_workers (fold (level_step budget) sched t)) = length (level_workers t)" for sched t
      by (induction sched arbitrary: t) simp_all
    then show ?thesis using snoc.prems(1) by simp
  qed
  have returned: "level_workers (fold (level_step budget) sched t) ! i = Returned"
    if "i < length (level_workers t)" "level_workers t ! i = Returned" for sched t i
    using that
  proof (induction sched arbitrary: t)
    case (Cons j sched)
    have "level_workers (level_step budget j t) ! i = Returned"
      using Cons.prems level_step_other [of i j t budget] by (cases "i = j") (auto simp: level_step_def)
    then show ?case using Cons.IH [of "level_step budget j t"] Cons.prems(1) by simp
  qed simp
  have keep: "length (level_workers (fold (level_step budget) sched t)) = length (level_workers t)" for sched t
    by (induction sched arbitrary: t) simp_all
  obtain i where i: "i < c" "level_workers (fold (level_step budget) r ?s) ! i \<noteq> Returned"
    using snoc.prems(3,4) len keep by (auto simp: in_set_conv_nth)
  then have "level_workers ?s ! i \<noteq> Returned" using returned [of i ?s r] len by auto
  moreover from this have "length rounds + level_measure budget ?s \<le> level_measure budget s"
    using snoc.IH [OF snoc.prems(1) _ nth_mem] snoc.prems(2) i(1) len by simp
  ultimately show ?case
    using fair_round [of i ?s r budget] i(1) len snoc.prems(2) by auto
qed simp

text \<open>
  C40. A level of the load generator sends every request exactly once, and ends. Whatever the order in which the workers
  go on: at most \<open>concurrency\<close> requests are in flight, the indices that are sent are the first ones, each once, and when
  every worker has returned the answers collected are those of all the requests of the budget; and a schedule that lets
  every worker go on again and again makes them all return.
\<close>

theorem level_sends_each_once:
  assumes "0 < c" "\<forall>r\<in>set rounds. {..<c} \<subseteq> set r" "2 * budget + c < length rounds"
  shows "length (flying (level_run budget c sched)) \<le> c \<and>
    mset (collected (level_run budget c sched)) + mset (flying (level_run budget c sched)) =
      mset [0..<next_request (level_run budget c sched)] \<and>
    ((\<forall>w\<in>set (level_workers (level_run budget c sched)). w = Returned) \<longrightarrow>
       mset (collected (level_run budget c sched)) = mset [0..<budget]) \<and>
    (\<forall>w\<in>set (level_workers (level_run budget c (concat rounds))). w = Returned)"
proof -
  let ?s = "level_run budget c sched"
  have ok: "level_ok budget c ?s" unfolding level_run_def by (rule level_fold_ok [OF level_start_ok])
  have "length (concat (map sending ws)) \<le> length ws" for ws
  proof (induction ws)
    case (Cons w ws)
    then show ?case by (cases w) simp_all
  qed simp
  then have "length (flying ?s) \<le> c" using ok unfolding level_ok_def flying_def by metis
  moreover have "mset (collected ?s) = mset [0..<budget]" if ret: "\<forall>w\<in>set (level_workers ?s). w = Returned"
  proof -
    have "flying ?s = []" using ret by (fastforce simp: flying_def)
    moreover have "Returned \<in> set (level_workers ?s)" using ret ok assms(1) by (cases "level_workers ?s") (auto simp: level_ok_def)
    ultimately show ?thesis using ok by (simp add: level_ok_def)
  qed
  moreover have "w = Returned" if w: "w \<in> set (level_workers (level_run budget c (concat rounds)))" for w
  proof (rule ccontr)
    assume "w \<noteq> Returned"
    then have "length rounds \<le> level_measure budget (level_start c)"
      using fair_rounds [of "level_start c" c rounds w budget] w assms(2) by (simp add: level_run_def level_start_def)
    then show False using assms(3) by (simp add: level_measure_def level_start_def map_replicate_const sum_list_replicate)
  qed
  ultimately show ?thesis using ok by (auto simp: level_ok_def)
qed

lemma level_sends_each_once_witness:
  "mset (collected (level_run 2 2 [0, 1, 1, 0, 0, 1])) = mset [0..<2] \<and>
   list_all (\<lambda>w. w = Returned) (level_workers (level_run 2 2 (concat (replicate 7 [0, 1]))))"
proof -
  have "\<forall>w\<in>set (level_workers (level_run 2 2 [0, 1, 1, 0, 0, 1])). w = Returned"
    by (simp add: level_run_def level_step_def level_start_def numeral_2_eq_2)
  then show ?thesis
    using level_sends_each_once [of 2 "replicate 7 [0, 1]" 2 "[0, 1, 1, 0, 0, 1]"] by (auto simp: list_all_iff lessThan_nat_numeral less_Suc_eq)
qed

section \<open>The report of a level, properties\<close>

lemma sum_put: "sum_list (map snd (put x (case map_of d x of Some n \<Rightarrow> n + 1 | None \<Rightarrow> 1) d)) = sum_list (map snd d) + (1 :: nat)"
  by (induction d) (auto split: option.splits)

lemma counter_total: "sum_list (map snd (counter xs)) = length xs"
proof -
  have "sum_list (map snd (fold (\<lambda>x d. put x (case map_of d x of Some n \<Rightarrow> n + 1 | None \<Rightarrow> 1) d) xs d)) =
      sum_list (map snd d) + length xs" for d :: "('a \<times> nat) list"
    by (induction xs arbitrary: d) (simp_all add: sum_put)
  from this [of "[]"] show ?thesis by (simp add: counter_def)
qed

theorem level_report_accounts:
  "lv_requests (level_report c results wall) = length (filter ok results) + lv_errors (level_report c results wall) \<and>
   sum_list (map snd (lv_error_kinds (level_report c results wall))) = lv_errors (level_report c results wall)"
proof -
  have "length results = length (filter ok results) + length (filter (\<lambda>r. \<not> ok r) results)"
    by (rule sum_length_filter_compl [symmetric])
  then show ?thesis by (simp add: level_report_def Let_def counter_total)
qed

lemma wait_ready_in_time:
  "wait_ready start timeout_s rounds = Some (Inr (Some t)) \<Longrightarrow>
     \<exists>now later. (now, later, Inr 200) \<in> set rounds \<and> now - start < timeout_s \<and> t = later - start"
  by (induction start timeout_s rounds rule: wait_ready.induct) (auto split: if_splits sum.splits exn.splits)

end
