(* ===== verification/Bench_Report.thy ===== *)
theory Bench_Report
  imports Bench
begin

text \<open>
  \<open>benchmarks/report.py\<close>: from the result files to the tables, and the patch of the document. The files are a dictionary
  from the stem of a name to what reading and decoding gives (\<open>load\<close>); \<open>shown\<close> prints a value. A lookup that Python
  would answer with \<open>KeyError\<close> or \<open>TypeError\<close> is an error value.
\<close>

section \<open>Text\<close>

fun split_once :: "pystr \<Rightarrow> pystr \<Rightarrow> (pystr \<times> pystr) option" where
  \<comment> \<open>\<open>s.split(sep, 1)\<close> when \<open>sep\<close> occurs\<close>
  "split_once sep [] = None"
| "split_once sep (c # s) = (if startswith (c # s) sep then Some ([], drop (length sep) (c # s))
     else map_option (apfst ((#) c)) (split_once sep s))"

definition BEGIN :: pystr where
  "BEGIN = lit ''<!-- BENCH:BEGIN -->''"

definition END :: pystr where
  "END = lit ''<!-- BENCH:END -->''"

definition patch :: "pystr \<Rightarrow> pystr \<Rightarrow> exn + pystr option" where
  \<comment> \<open>the new text of the document, \<open>None\<close> when the markers are missing\<close>
  "patch text block =
     (if contains BEGIN text \<and> contains END text then
        case split_once BEGIN text of
          None \<Rightarrow> Inl (ValueError (lit ''not enough values to unpack''))
        | Some (pre, rest) \<Rightarrow> (case split_once END rest of
              None \<Rightarrow> Inl (ValueError (lit ''not enough values to unpack''))
            | Some (_, post) \<Rightarrow> Inr (Some (pre @ block @ post)))
      else Inr None)"

section \<open>Tables\<close>

definition cell :: "(rat \<Rightarrow> pystr) \<Rightarrow> json \<Rightarrow> pystr" where
  "cell sf v = (if v = JNull then [8212] else shown sf v)"

definition table_row :: "pystr list \<Rightarrow> pystr" where
  "table_row cells = lit ''| '' @ join (lit '' | '') cells @ lit '' |''"

definition md_table :: "(rat \<Rightarrow> pystr) \<Rightarrow> json list list \<Rightarrow> pystr list \<Rightarrow> pystr" where
  "md_table sf rs header =
     join [10] ([table_row header, lit ''|'' @ concat (replicate (length header) (lit ''---|''))] @
       map (\<lambda>row. table_row (map (cell sf) row)) rs)"

type_synonym results = "(pystr \<times> json option) list"

definition load :: "results \<Rightarrow> pystr \<Rightarrow> json option" where
  "load files stem = (case map_of files stem of Some (Some v) \<Rightarrow> if truthy v then Some v else None | _ \<Rightarrow> None)"

definition STACKS :: "pystr list" where
  "STACKS = map lit [''vllm'', ''triton'', ''ray_serve'', ''kserve'', ''bentoml'', ''mock'']"

definition PRETTY :: "(pystr \<times> pystr) list" where
  "PRETTY = [(lit ''vllm'', lit ''vLLM (standalone)''), (lit ''triton'', lit ''Triton (vLLM backend)''),
     (lit ''ray_serve'', lit ''Ray Serve (serve.llm)''), (lit ''kserve'', lit ''KServe (HF runtime)''),
     (lit ''bentoml'', lit ''BentoML''), (lit ''mock'', lit ''mock engine (CPU)'')]"

definition pretty :: "pystr \<Rightarrow> pystr" where
  "pretty s = (case map_of PRETTY s of Some p \<Rightarrow> p | None \<Rightarrow> s)"

definition is_stack_file :: "pystr \<Rightarrow> bool" where
  "is_stack_file s \<longleftrightarrow> \<not> startswith s (lit ''coldstart_'') \<and> \<not> startswith s (lit ''ops_'') \<and> s \<noteq> lit ''ray_batch''"

definition discovered_stacks :: "results \<Rightarrow> pystr list" where
  "discovered_stacks files =
     (let found = filter is_stack_file (remdups (map fst files)) in
      filter (\<lambda>s. s \<in> set found) STACKS @ sort (filter (\<lambda>s. s \<notin> set STACKS) found))"

fun mapX :: "('a \<Rightarrow> 'e + 'b) \<Rightarrow> 'a list \<Rightarrow> 'e + 'b list" where
  "mapX f [] = Inr []"
| "mapX f (x # xs) = bindX (f x) (\<lambda>y. bindX (mapX f xs) (\<lambda>ys. Inr (y # ys)))"

abbreviation key :: "json \<Rightarrow> string \<Rightarrow> exn + json" where
  "key v k \<equiv> jkey v (lit k)"

definition serving_row :: "pystr \<Rightarrow> json \<Rightarrow> exn + json list" where
  "serving_row stack level =
     bindX (key level ''concurrency'') (\<lambda>c.
     bindX (bindX (key level ''ttft_s'') (\<lambda>t. key t ''p50'')) (\<lambda>t50.
     bindX (bindX (key level ''ttft_s'') (\<lambda>t. key t ''p95'')) (\<lambda>t95.
     bindX (bindX (key level ''e2e_s'') (\<lambda>t. key t ''p50'')) (\<lambda>e50.
     bindX (bindX (key level ''e2e_s'') (\<lambda>t. key t ''p95'')) (\<lambda>e95.
     bindX (jget level (lit ''req_tokens_per_s_mean'') JNull) (\<lambda>req.
     bindX (key level ''agg_tokens_per_s'') (\<lambda>agg.
     bindX (key level ''pages_per_min'') (\<lambda>ppm.
     bindX (key level ''errors'') (\<lambda>errs.
       Inr [JStr (pretty stack), c, t50, t95, e50, e95, req, agg, ppm, errs])))))))))"

definition stack_levels :: "results \<Rightarrow> pystr \<Rightarrow> exn + (pystr \<times> json) list" where
  \<comment> \<open>the levels of a stack that has a result, with the stack\<close>
  "stack_levels files stack = (case load files stack of None \<Rightarrow> Inr []
     | Some data \<Rightarrow> bindX (key data ''levels'') (\<lambda>ls. bindX (jiter ls) (\<lambda>levels. Inr (map (Pair stack) levels))))"

definition serving_table :: "(rat \<Rightarrow> pystr) \<Rightarrow> results \<Rightarrow> exn + pystr" where
  "serving_table sf files =
     bindX (mapX (\<lambda>stack. bindX (stack_levels files stack) (mapX (\<lambda>(s, level). serving_row s level))) (discovered_stacks files))
       (\<lambda>rs. Inr (if concat rs \<noteq> [] then md_table sf (concat rs)
            (map lit [''Stack'', ''c'', ''TTFT p50'', ''TTFT p95'', ''e2e p50'', ''e2e p95'',
              ''tok/s (req)'', ''tok/s (agg)'', ''pages/min'', ''errors''])
          else lit ''_No serving results yet '' @ [8212] @ lit '' run `make bench`._''))"

fun pretty_label :: "json \<Rightarrow> exn + json" where
  \<comment> \<open>\<open>PRETTY.get(label, label)\<close>: a list or an object cannot be a key\<close>
  "pretty_label (JStr s) = Inr (JStr (pretty s))"
| "pretty_label (JList xs) = Inl (TypeError (lit ''unhashable type''))"
| "pretty_label (JObj kvs) = Inl (TypeError (lit ''unhashable type''))"
| "pretty_label v = Inr v"

definition coldstart_row :: "json \<Rightarrow> exn + json list" where
  "coldstart_row data =
     bindX (bindX (key data ''label'') pretty_label) (\<lambda>label.
     bindX (jget data (lit ''mode'') (JStr (lit ''process''))) (\<lambda>mode.
     bindX (key data ''ready_s'') (\<lambda>ready.
     bindX (key data ''first_token_after_ready_s'') (\<lambda>first.
     bindX (key data ''total_cold_to_first_token_s'') (\<lambda>total.
       Inr [label, mode, ready, first, total])))))"

definition coldstart_table :: "(rat \<Rightarrow> pystr) \<Rightarrow> results \<Rightarrow> exn + pystr" where
  "coldstart_table sf files =
     bindX (mapX (\<lambda>stem. case load files stem of None \<Rightarrow> Inr [] | Some data \<Rightarrow> bindX (coldstart_row data) (\<lambda>r. Inr [r]))
         (sort_key (\<lambda>s. s @ lit ''.json'') (filter (\<lambda>s. startswith s (lit ''coldstart_'')) (map fst files))))
       (\<lambda>rs. Inr (if concat rs \<noteq> [] then md_table sf (concat rs)
            (map lit [''Stack'', ''mode'', ''ready (s)'', ''first token after ready (s)'', ''total (s)''])
          else lit ''_No cold-start measurements yet._''))"

definition batch_table :: "(rat \<Rightarrow> pystr) \<Rightarrow> results \<Rightarrow> exn + pystr" where
  "batch_table sf files = (case load files (lit ''ray_batch'') of
       None \<Rightarrow> Inr (lit ''_No batch run yet '' @ [8212] @ lit '' `make ray-batch`._'')
     | Some data \<Rightarrow>
         bindX (jget data (lit ''label'') (JStr (lit ''ray_batch''))) (\<lambda>label.
         bindX (key data ''pages'') (\<lambda>pages.
         bindX (key data ''wall_s'') (\<lambda>wall.
         bindX (key data ''pages_per_min'') (\<lambda>ppm.
         bindX (jget data (lit ''gpu_util_mean'') (JStr (lit ''n/a''))) (\<lambda>util.
           Inr (md_table sf [[label, pages, wall, ppm, util]]
             (map lit [''Job'', ''pages'', ''wall (s)'', ''pages/min'', ''mean GPU util'']))))))))"

definition ops_row :: "pystr \<Rightarrow> json \<Rightarrow> exn + json list" where
  "ops_row k v =
     bindX (jget v (lit ''install_minutes'') JNull) (\<lambda>a. bindX (jget v (lit ''control_plane_ram_gb'') JNull) (\<lambda>b.
     bindX (jget v (lit ''config_loc'') JNull) (\<lambda>c. bindX (jget v (lit ''moving_parts'') JNull) (\<lambda>d.
     bindX (jget v (lit ''notes'') (JStr [])) (\<lambda>e. Inr [JStr (pretty k), a, b, c, d, e])))))"

fun is_object :: "json \<Rightarrow> bool" where
  "is_object (JObj kvs) = True"
| "is_object v = False"

definition ops_table :: "(rat \<Rightarrow> pystr) \<Rightarrow> results \<Rightarrow> exn + pystr" where
  "ops_table sf files = (case load files (lit ''ops_ledger'') of
       None \<Rightarrow> Inr (lit ''_No ops ledger recorded yet '' @ [8212] @ lit '' see `benchmarks/ops_ledger.example.json`._'')
     | Some (JObj kvs) \<Rightarrow>
         bindX (mapX (\<lambda>(k, v). ops_row k v) (filter (\<lambda>(k, v). is_object v) (put_all kvs []))) (\<lambda>rs.
           Inr (md_table sf rs (map lit [''Stack'', ''install (min)'', ''control-plane RAM (GB)'', ''config LOC'',
             ''moving parts'', ''notes''])))
     | Some v \<Rightarrow> Inl attribute_error)"

section \<open>The headline\<close>

fun num :: "json \<Rightarrow> rat option" where
  "num (JInt n) = Some (of_int n)"
| "num (JFloat x) = Some x"
| "num (JBool b) = Some (if b then 1 else 0)"
| "num _ = None"

type_synonym best = "(pystr \<times> json) option"

definition improve :: "(rat \<Rightarrow> rat \<Rightarrow> bool) \<Rightarrow> (rat \<Rightarrow> pystr) \<Rightarrow> pystr \<Rightarrow> json \<Rightarrow> json \<Rightarrow> best \<Rightarrow> exn + best" where
  \<comment> \<open>\<open>best is None or value < best[1]\<close>, then the new best; the measurements are numbers\<close>
  "improve wins sf stack level value best =
     (let new = bindX (key level ''concurrency'') (\<lambda>c. Inr (Some (pretty stack @ lit '' @ c='' @ shown sf c, value))) in
      case best of None \<Rightarrow> new
      | Some (_, old) \<Rightarrow> (case (num value, num old) of
            (Some a, Some b) \<Rightarrow> if wins a b then new else Inr best
          | _ \<Rightarrow> Inl (TypeError (lit ''not comparable''))))"

definition headline_level :: "(rat \<Rightarrow> pystr) \<Rightarrow> pystr \<times> json \<Rightarrow> best \<times> best \<Rightarrow> exn + (best \<times> best)" where
  "headline_level sf = (\<lambda>(stack, level) (ttft_best, agg_best).
     bindX (bindX (key level ''ttft_s'') (\<lambda>t. key t ''p50'')) (\<lambda>ttft.
     bindX (if ttft = JNull then Inr ttft_best else improve (<) sf stack level ttft ttft_best) (\<lambda>ttft_best.
     bindX (key level ''agg_tokens_per_s'') (\<lambda>agg.
     bindX (if truthy agg then improve (>) sf stack level agg agg_best else Inr agg_best) (\<lambda>agg_best.
       Inr (ttft_best, agg_best))))))"

fun foldX :: "('a \<Rightarrow> 's \<Rightarrow> 'e + 's) \<Rightarrow> 'a list \<Rightarrow> 's \<Rightarrow> 'e + 's" where
  "foldX f [] s = Inr s"
| "foldX f (x # xs) s = bindX (f x s) (foldX f xs)"

definition headline :: "(rat \<Rightarrow> pystr) \<Rightarrow> results \<Rightarrow> exn + pystr" where
  "headline sf files =
     bindX (foldX (\<lambda>stack best. bindX (stack_levels files stack) (\<lambda>ls. foldX (headline_level sf) ls best))
         (discovered_stacks files) (None, None)) (\<lambda>(ttft_best, agg_best).
       Inr (let parts =
              (case ttft_best of None \<Rightarrow> [] | Some (l, v) \<Rightarrow> [lit ''lowest TTFT p50 **'' @ shown sf v @ lit ''s** ('' @ l @ lit '')'']) @
              (case agg_best of None \<Rightarrow> [] | Some (l, v) \<Rightarrow> [lit ''highest aggregate **'' @ shown sf v @ lit '' tok/s** ('' @ l @ lit '')''])
            in if parts = [] then [] else lit ''Across the measured runs: '' @ join (lit ''; '') parts @ lit ''.'' @ [10]))"

section \<open>The document\<close>

definition build_block :: "(rat \<Rightarrow> pystr) \<Rightarrow> results \<Rightarrow> exn + pystr" where
  "build_block sf files =
     bindX (headline sf files) (\<lambda>h.
     bindX (serving_table sf files) (\<lambda>st.
     bindX (coldstart_table sf files) (\<lambda>ct.
     bindX (batch_table sf files) (\<lambda>bt.
     bindX (ops_table sf files) (\<lambda>ot.
       Inr (join [10, 10] (filter (\<lambda>sec. sec \<noteq> []) [BEGIN, h,
         lit ''### Serving latency and throughput'' @ [10, 10] @ st, lit ''### Cold start'' @ [10, 10] @ ct,
         lit ''### Batch inference (Ray Data)'' @ [10, 10] @ bt, lit ''### Ops overhead'' @ [10, 10] @ ot, END])))))))"

datatype report_outcome = Printed pystr | Patched pystr

definition report_main :: "(rat \<Rightarrow> pystr) \<Rightarrow> results \<Rightarrow> bool \<Rightarrow> pystr option \<Rightarrow> exn + report_outcome" where
  \<comment> \<open>the target document, if it exists\<close>
  "report_main sf files print_only target =
     bindX (build_block sf files) (\<lambda>block.
       case target of
         None \<Rightarrow> Inr (Printed block)
       | Some text \<Rightarrow> if print_only then Inr (Printed block)
           else bindX (patch text block) (\<lambda>t. case t of Some new \<Rightarrow> Inr (Patched new) | None \<Rightarrow> Inr (Printed block)))"

section \<open>The patch, properties\<close>

lemma split_once_Some: "split_once sep s = Some (a, b) \<Longrightarrow> s = a @ sep @ b"
proof (induction s arbitrary: a)
  case (Cons c s)
  show ?case
  proof (cases "startswith (c # s) sep")
    case True
    then show ?thesis using Cons.prems by (metis append_Nil append_take_drop_id option.inject prod.inject split_once.simps(2) startswith_def)
  next
    case False
    then show ?thesis using Cons by (auto simp del: startswith_def)
  qed
qed simp

lemma split_once_contains: "sep \<noteq> [] \<Longrightarrow> contains sep s \<longleftrightarrow> split_once sep s \<noteq> None"
  by (induction s) auto

lemma no_overlap:
  assumes "hd sep \<notin> set (tl sep)" "startswith (y @ sep @ x) sep" "y \<noteq> []"
  shows "startswith y sep"
proof (rule ccontr)
  assume n: "\<not> startswith y sep"
  have p: "prefix sep (y @ sep @ x)" using assms(2) by (simp add: startswith_iff_prefix)
  then have "prefix sep y \<or> prefix y sep" by (metis prefix_same_cases prefixI)
  then obtain z where z: "sep = y @ z" "z \<noteq> []" using n by (auto simp: startswith_iff_prefix prefix_def)
  then have "prefix z (sep @ x)" using p by simp
  then obtain w where "sep @ x = z @ w" by (auto simp: prefix_def)
  moreover have "sep \<noteq> []" using z by simp
  ultimately have "hd z = hd sep" using z(2) by (metis hd_append2)
  moreover have "hd z \<in> set (tl sep)" using z assms(3) by (cases y) auto
  ultimately show False using assms(1) by simp
qed

lemma split_once_first:
  assumes "hd sep \<notin> set (tl sep)" "sep \<noteq> []" "\<not> contains sep inner"
  shows "split_once sep (inner @ sep @ x) = Some (inner, x)"
  using assms(3)
proof (induction inner)
  case Nil
  then show ?case using assms(2) by (cases sep) (auto simp: startswith_def)
next
  case (Cons c inner)
  have "\<not> startswith ((c # inner) @ sep @ x) sep" using no_overlap [OF assms(1), of "c # inner" x] Cons.prems by auto
  then show ?case using Cons by simp
qed

lemma split_once_not_contains: "split_once sep s = Some (a, b) \<Longrightarrow> sep \<noteq> [] \<Longrightarrow> hd sep \<notin> set (tl sep) \<Longrightarrow> \<not> contains sep a"
proof (induction s arbitrary: a)
  case (Cons c s)
  show ?case
  proof (cases "startswith (c # s) sep")
    case True
    then show ?thesis using Cons.prems by simp
  next
    case False
    then obtain a' where a': "split_once sep s = Some (a', b)" "a = c # a'" using Cons.prems(1) by auto
    have "c # s = (c # a') @ sep @ b" using split_once_Some [OF a'(1)] by simp
    then have "\<not> startswith (c # a') sep"
      using False by (metis append_assoc prefix_append startswith_iff_prefix)
    then show ?thesis using Cons.IH [OF a'(1)] Cons.prems(2,3) a'(2) by simp
  qed
qed simp

lemma markers: "BEGIN \<noteq> []" "END \<noteq> []" "hd BEGIN \<notin> set (tl BEGIN)" "hd END \<notin> set (tl END)"
  by (simp_all add: BEGIN_def END_def lit_def)

text \<open>
  The patch of the document touches what lies between the markers and nothing else, and running it again is
  running it once: when a block (the begin marker, a text without the end marker, the end marker) has been patched in,
  the text before and after the markers is as it was, and patching the result with any block gives what patching the
  original with that block would have given.
\<close>

theorem patch_replaces_block:
  assumes "patch text block = Inr (Some new)" "block = BEGIN @ inner @ END" "\<not> contains END inner"
  shows "\<exists>pre old post. text = pre @ BEGIN @ old @ END @ post \<and> new = pre @ block @ post \<and>
    \<not> contains BEGIN pre \<and> \<not> contains END old \<and> (\<forall>block'. patch new block' = patch text block')"
proof -
  obtain pre rest old post where s: "split_once BEGIN text = Some (pre, rest)" "split_once END rest = Some (old, post)"
    "new = pre @ block @ post" "contains BEGIN text" "contains END text"
    using assms(1) by (auto simp: patch_def split: if_splits option.splits)
  have whole: "text = pre @ BEGIN @ old @ END @ post"
    using split_once_Some [OF s(1)] split_once_Some [OF s(2)] by simp
  have pre: "\<not> contains BEGIN pre" and old: "\<not> contains END old"
    using split_once_not_contains s(1,2) markers by blast+
  have new: "new = pre @ BEGIN @ (inner @ END @ post)" using s(3) assms(2) by simp
  have again: "split_once BEGIN new = Some (pre, inner @ END @ post)"
    unfolding new using split_once_first [OF markers(3,1) pre] by simp
  moreover have "split_once END (inner @ END @ post) = Some (inner, post)"
    by (rule split_once_first [OF markers(4,2) assms(3)])
  moreover have "contains BEGIN new" using again split_once_contains [OF markers(1)] by simp
  moreover have "contains END new" unfolding new contains_iff_sublist by (metis append_assoc sublist_appendI)
  ultimately have "patch new block' = patch text block'" for block'
    using s(1,2,4,5) by (simp add: patch_def)
  then show ?thesis using whole s(3) pre old by blast
qed

lemma patch_replaces_block_witness:
  "\<exists>pre old post. lit ''a'' @ BEGIN @ END @ lit ''z'' = pre @ BEGIN @ old @ END @ post \<and>
     lit ''a'' @ BEGIN @ lit ''x'' @ END @ lit ''z'' = pre @ (BEGIN @ lit ''x'' @ END) @ post"
proof -
  have "patch (lit ''a'' @ BEGIN @ END @ lit ''z'') (BEGIN @ lit ''x'' @ END) =
      Inr (Some (lit ''a'' @ BEGIN @ lit ''x'' @ END @ lit ''z''))"
    by (simp add: patch_def BEGIN_def END_def lit_def startswith_def)
  moreover have "\<not> contains END (lit ''x'')" by (simp add: END_def lit_def startswith_def)
  ultimately show ?thesis using patch_replaces_block by blast
qed

text \<open>Markers in the wrong order are not found missing: unpacking the second split raises.\<close>

lemma patch_reversed_markers: "patch (END @ BEGIN) block = Inl (ValueError (lit ''not enough values to unpack''))"
  by (simp add: patch_def BEGIN_def END_def lit_def startswith_def)

section \<open>Tables and headline, properties\<close>

lemma split_on_line: "c \<notin> set l \<Longrightarrow> split_on c (l @ c # s) = l # split_on c s"
  by (induction l) auto

lemma split_on_last: "c \<notin> set l \<Longrightarrow> split_on c l = [l]"
  by (induction l) auto

lemma split_on_join: "ls \<noteq> [] \<Longrightarrow> \<forall>l\<in>set ls. c \<notin> set l \<Longrightarrow> split_on c (join [c] ls) = ls"
  by (induction "[c]" ls rule: join.induct) (simp_all add: split_on_last split_on_line)

lemma set_join: "set (join sep ls) \<subseteq> set sep \<union> \<Union> (set ` set ls)"
  by (induction sep ls rule: join.induct) auto

lemma table_row_lines: "\<forall>c\<in>set cells. 10 \<notin> set c \<Longrightarrow> 10 \<notin> set (table_row cells)"
  using set_join [of "lit '' | ''" cells] by (auto simp: table_row_def lit_def)

lemma table_row_bars: "cells \<noteq> [] \<Longrightarrow> \<forall>c\<in>set cells. 124 \<notin> set c \<Longrightarrow> count_list (table_row cells) 124 = length cells + 1"
proof -
  have "cells \<noteq> [] \<Longrightarrow> \<forall>c\<in>set cells. 124 \<notin> set c \<Longrightarrow> count_list (join (lit '' | '') cells) 124 = length cells - 1"
    by (induction "lit '' | ''" cells rule: join.induct) (simp_all add: count_list_append, simp add: lit_def)
  then show "cells \<noteq> [] \<Longrightarrow> \<forall>c\<in>set cells. 124 \<notin> set c \<Longrightarrow> count_list (table_row cells) 124 = length cells + 1"
    by (cases cells) (simp_all add: table_row_def count_list_append lit_def)
qed

theorem table_shape:
  assumes "\<forall>h\<in>set header. 10 \<notin> set h" "\<forall>row\<in>set rs. \<forall>v\<in>set row. 10 \<notin> set (cell sf v)"
  shows "split_on 10 (md_table sf rs header) =
    table_row header # (lit ''|'' @ concat (replicate (length header) (lit ''---|''))) # map (\<lambda>row. table_row (map (cell sf) row)) rs"
proof -
  have "10 \<notin> set (lit ''|'' @ concat (replicate n (lit ''---|'')))" for n
    by (induction n) (simp_all add: lit_def)
  then show ?thesis
    using assms unfolding md_table_def by (subst split_on_join) (auto intro!: table_row_lines)
qed

definition at_most :: "json \<Rightarrow> json \<Rightarrow> bool" where
  "at_most v x \<longleftrightarrow> v = x \<or> (\<exists>a b. num v = Some a \<and> num x = Some b \<and> a \<le> b)"

lemma at_most_trans: "at_most u v \<Longrightarrow> at_most v x \<Longrightarrow> at_most u x"
  by (auto simp: at_most_def)

lemma improve_lower:
  assumes "improve (<) sf stack level x best = Inr best'"
  shows "\<exists>l v. best' = Some (l, v) \<and> at_most v x \<and> (\<forall>l0 v0. best = Some (l0, v0) \<longrightarrow> at_most v v0)"
  using assms by (auto simp: improve_def at_most_def bindX_Inr_iff Let_def split: option.splits if_splits prod.splits)

lemma headline_level_ttft:
  assumes "headline_level sf (stack, level) (bt, bg) = Inr (bt', bg')"
    and "bindX (key level ''ttft_s'') (\<lambda>t. key t ''p50'') = Inr x"
  shows "(x \<noteq> JNull \<longrightarrow> (\<exists>l v. bt' = Some (l, v) \<and> at_most v x)) \<and>
    (\<forall>l0 v0. bt = Some (l0, v0) \<longrightarrow> (\<exists>l v. bt' = Some (l, v) \<and> at_most v v0))"
proof (cases "x = JNull")
  case True
  then have "bt' = bt" using assms by (auto simp: headline_level_def bindX_Inr_iff)
  then show ?thesis using True by (auto simp: at_most_def)
next
  case False
  then have "improve (<) sf stack level x bt = Inr bt'" using assms by (auto simp: headline_level_def bindX_Inr_iff)
  then show ?thesis using improve_lower [of sf stack level x bt bt'] by blast
qed

theorem headline_lowest_ttft:
  assumes "foldX (headline_level sf) ls (bt, bg) = Inr (bt', bg')" "(stack, level) \<in> set ls"
    and "bindX (key level ''ttft_s'') (\<lambda>t. key t ''p50'') = Inr x" "x \<noteq> JNull"
  shows "\<exists>l v. bt' = Some (l, v) \<and> at_most v x"
proof -
  have keep: "foldX (headline_level sf) ls (bt, bg) = Inr (bt', bg') \<Longrightarrow> bt = Some (l0, v0) \<Longrightarrow>
      \<exists>l v. bt' = Some (l, v) \<and> at_most v v0" for ls bt bg l0 v0
  proof (induction ls arbitrary: bt bg l0 v0)
    case Nil
    then show ?case by (auto simp: at_most_def)
  next
    case (Cons sl ls)
    obtain s lv where sl: "sl = (s, lv)" by (cases sl)
    obtain bt1 bg1 where step: "headline_level sf (s, lv) (bt, bg) = Inr (bt1, bg1)"
      and rest: "foldX (headline_level sf) ls (bt1, bg1) = Inr (bt', bg')"
      using Cons.prems(1) by (auto simp: sl bindX_Inr_iff)
    obtain y where "bindX (key lv ''ttft_s'') (\<lambda>t. key t ''p50'') = Inr y"
      using step by (auto simp: headline_level_def bindX_Inr_iff)
    then obtain l v where v: "bt1 = Some (l, v)" "at_most v v0"
      using headline_level_ttft [OF step] Cons.prems(2) by blast
    then show ?case using Cons.IH [OF rest v(1)] at_most_trans by blast
  qed
  show ?thesis
    using assms(1,2)
  proof (induction ls arbitrary: bt bg)
    case (Cons sl ls)
    obtain s lv where sl: "sl = (s, lv)" by (cases sl)
    obtain bt1 bg1 where step: "headline_level sf (s, lv) (bt, bg) = Inr (bt1, bg1)"
      and rest: "foldX (headline_level sf) ls (bt1, bg1) = Inr (bt', bg')"
      using Cons.prems(1) by (auto simp: sl bindX_Inr_iff)
    show ?case
    proof (cases "sl = (stack, level)")
      case True
      then obtain l v where v: "bt1 = Some (l, v)" "at_most v x"
        using headline_level_ttft [of sf stack level bt bg bt1 bg1 x] step assms(3,4) sl by blast
      then show ?thesis using keep [OF rest v(1)] at_most_trans by blast
    next
      case False
      then show ?thesis using Cons.IH [OF rest] Cons.prems(2) by simp
    qed
  qed simp
qed

text \<open>A sampler without a reading is not reported as \<open>n/a\<close>: its mean is written as \<open>null\<close>, which the table shows as a dash.\<close>

lemma missing_utilisation_is_dash:
  "gpu_mean (gpu_samples [Inl e]) = None" "jget (JObj [(lit ''gpu_util_mean'', JNull)]) (lit ''gpu_util_mean'') d = Inr JNull"
  "cell sf JNull = [8212]"
  by (simp_all add: gpu_mean_def cell_def)

end
